(* ===== verification/Vmi_Prelude.thy ===== *)
theory Vmi_Prelude
  imports Main "HOL-Library.Word" "HOL-Library.State_Monad" "HOL-Library.Monad_Syntax"
begin

text \<open>
  What every component shares: the C integer types as words, the little-endian reading of a
  byte buffer as an integer, the state monad in which the stateful functions are written, and
  the contract by which a stateful operation is related to a pure function of the state
  (\<open>reads\<close>, with its composition rules).
\<close>

unbundle bit_operations_syntax

subsection \<open>Machine integers\<close>

type_synonym u8 = "8 word"
type_synonym u16 = "16 word"
type_synonym u32 = "32 word"
type_synonym u64 = "64 word"

text \<open>
  Rules collected for the component proofs: \<open>vmi_core\<close> holds the facts about fields that
  reading operations leave alone, \<open>vmi_reads\<close> the composition rules of the read contract.
\<close>

named_theorems vmi_core
named_theorems vmi_reads

subsection \<open>The state monad\<close>

abbreviation return :: "'a \<Rightarrow> ('s, 'a) state" where
  "return \<equiv> State_Monad.return"

definition gets :: "('s \<Rightarrow> 'a) \<Rightarrow> ('s, 'a) state" where
  "gets f = State (\<lambda>s. (f s, s))"

definition modify :: "('s \<Rightarrow> 's) \<Rightarrow> ('s, unit) state" where
  "modify f = State (\<lambda>s. ((), f s))"

lemma run_state_gets [simp]: "run_state (gets f) s = (f s, s)"
  by (simp add: gets_def)

lemma run_state_modify [simp]: "run_state (modify f) s = ((), f s)"
  by (simp add: modify_def)

lemma run_state_if [simp]:
  "run_state (if b then m else n) s = (if b then run_state m s else run_state n s)"
  by simp

lemma fst_run_bind: "fst (run_state (m \<bind> k) s) =
  fst (run_state (k (fst (run_state m s))) (snd (run_state m s)))"
  by (simp add: case_prod_beta)

lemma snd_run_bind: "snd (run_state (m \<bind> k) s) =
  snd (run_state (k (fst (run_state m s))) (snd (run_state m s)))"
  by (simp add: case_prod_beta)

subsection \<open>Operations that only read\<close>

text \<open>
  \<open>reads I c m f\<close>: started in a state that satisfies the invariant \<open>I\<close>, the operation \<open>m\<close>
  keeps \<open>I\<close>, leaves the part \<open>c\<close> of the state unchanged and returns \<open>f\<close> of that part.
  The library's read path is of this kind: it changes caches, and its answer does not depend
  on what they hold.
\<close>

definition reads :: "('s \<Rightarrow> bool) \<Rightarrow> ('s \<Rightarrow> 's) \<Rightarrow> ('s, 'a) state \<Rightarrow> ('s \<Rightarrow> 'a) \<Rightarrow> bool" where
  "reads I c m f \<longleftrightarrow> (\<forall>s. I s \<longrightarrow> I (snd (run_state m s)) \<and> c (snd (run_state m s)) = c s
     \<and> fst (run_state m s) = f (c s))"

lemma readsI:
  assumes "\<And>s. I s \<Longrightarrow> I (snd (run_state m s)) \<and> c (snd (run_state m s)) = c s
    \<and> fst (run_state m s) = f (c s)"
  shows "reads I c m f"
  using assms by (simp add: reads_def)

lemma reads_inv: "reads I c m f \<Longrightarrow> I s \<Longrightarrow> I (snd (run_state m s))"
  and reads_core: "reads I c m f \<Longrightarrow> I s \<Longrightarrow> c (snd (run_state m s)) = c s"
  and reads_value: "reads I c m f \<Longrightarrow> I s \<Longrightarrow> fst (run_state m s) = f (c s)"
  by (simp_all add: reads_def)

lemma reads_run: "reads I c m f \<Longrightarrow> I s \<Longrightarrow> run_state m s = (r, s') \<Longrightarrow>
    r = f (c s) \<and> I s' \<and> c s' = c s"
  by (auto simp: reads_def)

lemma reads_return [vmi_reads]: "reads I c (return x) (\<lambda>_. x)"
  by (simp add: reads_def)

lemma reads_gets: "(\<And>s. I s \<Longrightarrow> g (c s) = g s) \<Longrightarrow> reads I c (gets g) g"
  by (simp add: reads_def)

lemma reads_bind [vmi_reads]:
  assumes "reads I c m f" and "\<And>x. reads I c (k x) (g x)"
  shows "reads I c (m \<bind> k) (\<lambda>s. g (f s) s)"
  using assms by (simp add: reads_def case_prod_beta)

text \<open>The continuation need only meet its contract for the value the first operation returns.\<close>

lemma reads_bind_at:
  assumes "reads I c m f" and "\<And>s. I s \<Longrightarrow>
      I (snd (run_state (k (f (c s))) s)) \<and> c (snd (run_state (k (f (c s))) s)) = c s
      \<and> fst (run_state (k (f (c s))) s) = h (c s)"
  shows "reads I c (m \<bind> k) h"
proof (rule readsI)
  fix s
  assume "I s"
  with assms(1) have "I (snd (run_state m s))" "c (snd (run_state m s)) = c s"
    "fst (run_state m s) = f (c s)"
    by (simp_all add: reads_def)
  with assms(2)[of "snd (run_state m s)"]
  show "I (snd (run_state (m \<bind> k) s)) \<and> c (snd (run_state (m \<bind> k) s)) = c s
    \<and> fst (run_state (m \<bind> k) s) = h (c s)"
    by (simp add: case_prod_beta)
qed

lemma reads_if [vmi_reads]:
  assumes "b \<Longrightarrow> reads I c m f" and "\<not> b \<Longrightarrow> reads I c n g"
  shows "reads I c (if b then m else n) (\<lambda>s. if b then f s else g s)"
  using assms by (cases b) simp_all

lemma reads_option [vmi_reads]:
  assumes "x = None \<Longrightarrow> reads I c m f" and "\<And>y. x = Some y \<Longrightarrow> reads I c (n y) (g y)"
  shows "reads I c (case x of None \<Rightarrow> m | Some y \<Rightarrow> n y)
    (\<lambda>s. case x of None \<Rightarrow> f s | Some y \<Rightarrow> g y s)"
  using assms by (cases x) simp_all

lemma reads_weaken: "reads I c m f \<Longrightarrow> (\<And>s. f s = g s) \<Longrightarrow> reads I c m g"
  by (simp add: reads_def)

text \<open>
  Loops that need not end are run with a bound on their rounds and return \<open>None\<close> when it is reached.
  \<open>obind\<close> goes on after one that did end.
\<close>

definition obind :: "('s, 'a option) state \<Rightarrow> ('a \<Rightarrow> ('s, 'b option) state) \<Rightarrow> ('s, 'b option) state" where
  "obind m k = m \<bind> (\<lambda>r. case r of None \<Rightarrow> return None | Some x \<Rightarrow> k x)"

lemma run_obind: "run_state (obind m k) s = (case run_state m s of (r, t) \<Rightarrow>
    (case r of None \<Rightarrow> (None, t) | Some x \<Rightarrow> run_state (k x) t))"
  by (auto simp: obind_def split: prod.split option.split)

lemma reads_obind [vmi_reads]:
  assumes "reads I c m f" and "\<And>x. reads I c (k x) (g x)"
  shows "reads I c (obind m k) (\<lambda>s. case f s of None \<Rightarrow> None | Some x \<Rightarrow> g x s)"
  unfolding obind_def
  by (rule reads_weaken, (rule reads_bind [OF assms(1)] reads_option reads_return assms(2))+)
    (simp split: option.split)

text \<open>\<open>keeps c m\<close>: the operation \<open>m\<close> leaves the part \<open>c\<close> of the state alone, whatever it returns.\<close>

definition keeps :: "('s \<Rightarrow> 'c) \<Rightarrow> ('s, 'a) state \<Rightarrow> bool" where
  "keeps c m \<longleftrightarrow> (\<forall>s. c (snd (run_state m s)) = c s)"

named_theorems vmi_keeps

lemma keepsD: "keeps c m \<Longrightarrow> c (snd (run_state m s)) = c s"
  by (simp add: keeps_def)

lemma keeps_basic [vmi_keeps]:
  "keeps c (return x)" "keeps c (gets g)" "keeps c State_Monad.get"
  by (simp_all add: keeps_def)

lemma keeps_modify [vmi_keeps]: "(\<And>s. c (g s) = c s) \<Longrightarrow> keeps c (modify g)"
  by (simp add: keeps_def)

lemma keeps_bind [vmi_keeps]:
  "keeps c m \<Longrightarrow> (\<And>x. keeps c (k x)) \<Longrightarrow> keeps c (m \<bind> k)"
  by (simp add: keeps_def case_prod_beta)

lemma keeps_if [vmi_keeps]: "keeps c m \<Longrightarrow> keeps c n \<Longrightarrow> keeps c (if b then m else n)"
  by simp

lemma keeps_option [vmi_keeps]:
  "keeps c m \<Longrightarrow> (\<And>y. keeps c (n y)) \<Longrightarrow> keeps c (case x of None \<Rightarrow> m | Some y \<Rightarrow> n y)"
  by (cases x) simp_all

lemma keeps_obind [vmi_keeps]:
  "keeps c m \<Longrightarrow> (\<And>x. keeps c (k x)) \<Longrightarrow> keeps c (obind m k)"
  unfolding obind_def by (intro keeps_bind keeps_option keeps_basic)

lemma keeps_prod [vmi_keeps]: "(\<And>a b. keeps c (k a b)) \<Longrightarrow> keeps c (case x of (a, b) \<Rightarrow> k a b)"
  by (cases x) simp

subsection \<open>Little-endian byte buffers\<close>

text \<open>
  The code reads integers by letting \<open>memcpy\<close> fill a \<open>uint16_t\<close>, \<open>uint32_t\<close> or
  \<open>uint64_t\<close> variable; the host is x86, so the first byte is the least significant.
\<close>

fun le_nat :: "u8 list \<Rightarrow> nat" where
  "le_nat [] = 0"
| "le_nat (b # bs) = unat b + 256 * le_nat bs"

definition le_word :: "u8 list \<Rightarrow> 'a::len word" where
  "le_word bs = of_nat (le_nat bs)"

fun le_bytes :: "nat \<Rightarrow> nat \<Rightarrow> u8 list" where
  "le_bytes 0 x = []"
| "le_bytes (Suc n) x = of_nat (x mod 256) # le_bytes n (x div 256)"

definition word_bytes :: "'a::len word \<Rightarrow> u8 list" where
  "word_bytes w = le_bytes (LENGTH('a) div 8) (unat w)"

text \<open>A buffer of which the first bytes have been overwritten.\<close>

definition overlay :: "u8 list \<Rightarrow> u8 list \<Rightarrow> u8 list" where
  "overlay old new = new @ drop (length new) old"

lemma le_nat_less: "le_nat bs < 256 ^ length bs"
proof (induction bs)
  case Nil
  then show ?case by simp
next
  case (Cons b bs)
  have "unat b < 256" using unsigned_less[of b] by simp
  with Cons show ?case by simp
qed

lemma length_le_bytes [simp]: "length (le_bytes n x) = n"
  by (induction n arbitrary: x) simp_all

lemma le_nat_le_bytes: "le_nat (le_bytes n x) = x mod 256 ^ n"
proof (induction n arbitrary: x)
  case 0
  then show ?case by simp
next
  case (Suc n)
  have "unat (of_nat (x mod 256) :: u8) = x mod 256"
    by (simp add: unat_of_nat)
  then show ?case
    by (simp add: Suc mod_mult2_eq)
qed

lemma le_bytes_le_nat: "le_bytes (length bs) (le_nat bs) = bs"
proof (induction bs)
  case Nil
  then show ?case by simp
next
  case (Cons b bs)
  have b: "unat b < 256" using unsigned_less[of b] by simp
  then show ?case using Cons by simp
qed

lemma le_word_word_bytes [simp]:
  fixes w :: "'a::len word"
  assumes "8 dvd LENGTH('a)"
  shows "le_word (word_bytes w) = w"
proof -
  from assms obtain k where k: "LENGTH('a) = 8 * k" by blast
  have "(256::nat) ^ (LENGTH('a) div 8) = 2 ^ LENGTH('a)"
    by (simp add: k power_mult)
  then show ?thesis
    by (simp add: le_word_def word_bytes_def le_nat_le_bytes)
qed

lemma length_word_bytes [simp]: "length (word_bytes (w :: 'a::len word)) = LENGTH('a) div 8"
  by (simp add: word_bytes_def)

lemma overlay_full [simp]: "length new = length old \<Longrightarrow> overlay old new = new"
  by (simp add: overlay_def)

lemma overlay_Nil [simp]: "overlay old [] = old"
  by (simp add: overlay_def)

lemma length_overlay [simp]: "length new \<le> length old \<Longrightarrow> length (overlay old new) = length old"
  by (simp add: overlay_def)

subsection \<open>Words\<close>

lemma unat_lt: "unat (w :: 'a::len word) < 2 ^ LENGTH('a)"
  by (rule unsigned_less)

lemma unat_lt_u32: "unat (w :: u32) < 4294967296"
  using unat_lt [of w] by simp

lemma unat_lt_u64: "unat (w :: u64) < 18446744073709551616"
  using unat_lt [of w] by simp

lemma unat_of_nat_small: "n < 2 ^ LENGTH('a) \<Longrightarrow> unat (of_nat n :: 'a::len word) = n"
  by (simp add: unat_of_nat)

lemma unat_and_le: "unat (a AND b :: 'a::len word) \<le> unat b"
  by (rule word_and_le1 [THEN word_le_nat_alt [THEN iffD1]])

lemma unat_and_mask: "unat (a AND mask n :: 'a::len word) = unat a mod 2 ^ n"
proof -
  have "unat (a AND mask n) = take_bit n (unat a)"
    by (simp only: take_bit_eq_mask [symmetric] unsigned_take_bit_eq)
  then show ?thesis by (simp only: take_bit_eq_mod)
qed

subsection \<open>Changes of width\<close>

lemma unat_ucast_u32: "unat (ucast (x :: u32) :: u64) = unat x"
  by (simp add: unsigned_ucast_eq take_bit_nat_eq_self unat_lt_u32 order_less_trans [OF unat_lt_u32])

lemma scast_of_nat_small:
  assumes "n < 2 ^ 31"
  shows "(scast (of_nat n :: u32) :: u64) = of_nat n"
proof -
  have "sint (of_nat n :: u32) = int n"
    using assms by (simp add: sint_uint uint_nat unat_of_nat take_bit_nat_eq_self signed_take_bit_int_eq_self)
  then show ?thesis by (simp add: scast_eq)
qed

end
