(* ===== verification/Vmi_Instance.thy ===== *)
theory Vmi_Instance
  imports Vmi_Prelude
begin

text \<open>
  The public enumerations of \<^verbatim>\<open>libvmi.h\<close>, the instance structure of \<^verbatim>\<open>private.h\<close> with the
  static variables the library keeps beside it, the environment (what the hypervisor, the host's
  file system and the C run time answer), and the bit helpers of \<^verbatim>\<open>convenience.c\<close>.
\<close>

unbundle bit_operations_syntax

subsection \<open>Types of libvmi.h\<close>

type_synonym addr_t = u64
type_synonym reg_t = u64

text \<open>A C \<open>int\<close>: 32 bits, read as two's complement where its sign matters.\<close>

type_synonym cint = "32 word"

datatype status_t = VMI_SUCCESS | VMI_FAILURE

datatype os_t = VMI_OS_UNKNOWN | VMI_OS_LINUX | VMI_OS_WINDOWS

datatype win_ver_t =
    VMI_OS_WINDOWS_NONE
  | VMI_OS_WINDOWS_UNKNOWN
  | VMI_OS_WINDOWS_2000
  | VMI_OS_WINDOWS_XP
  | VMI_OS_WINDOWS_2003
  | VMI_OS_WINDOWS_VISTA
  | VMI_OS_WINDOWS_2008
  | VMI_OS_WINDOWS_7

datatype page_mode_t = VMI_PM_UNKNOWN | VMI_PM_LEGACY | VMI_PM_PAE | VMI_PM_IA32E

datatype (plugins only: code) registers_t =
    RAX | RBX | RCX | RDX | RBP | RSI | RDI | RSP
  | R8 | R9 | R10 | R11 | R12 | R13 | R14 | R15
  | RIP | RFLAGS
  | CR0 | CR2 | CR3 | CR4
  | DR0 | DR1 | DR2 | DR3 | DR6 | DR7
  | CS_SEL | DS_SEL | ES_SEL | FS_SEL | GS_SEL | SS_SEL | TR_SEL | LDTR_SEL
  | CS_LIMIT | DS_LIMIT | ES_LIMIT | FS_LIMIT | GS_LIMIT | SS_LIMIT | TR_LIMIT | LDTR_LIMIT
  | IDTR_LIMIT | GDTR_LIMIT
  | CS_BASE | DS_BASE | ES_BASE | FS_BASE | GS_BASE | SS_BASE | TR_BASE | LDTR_BASE
  | IDTR_BASE | GDTR_BASE
  | CS_ARBYTES | DS_ARBYTES | ES_ARBYTES | FS_ARBYTES | GS_ARBYTES | SS_ARBYTES | TR_ARBYTES
  | LDTR_ARBYTES
  | SYSENTER_CS | SYSENTER_ESP | SYSENTER_EIP
  | SHADOW_GS
  | MSR_FLAGS | MSR_LSTAR | MSR_CSTAR | MSR_SYSCALL_MASK | MSR_EFER | MSR_TSC_AUX
  | TSC

type_synonym vmi_mode_t = u32

definition VMI_AUTO :: vmi_mode_t where "VMI_AUTO = push_bit 0 1"
definition VMI_XEN :: vmi_mode_t where "VMI_XEN = push_bit 1 1"
definition VMI_KVM :: vmi_mode_t where "VMI_KVM = push_bit 2 1"
definition VMI_FILE :: vmi_mode_t where "VMI_FILE = push_bit 3 1"
definition VMI_INIT_PARTIAL :: u32 where "VMI_INIT_PARTIAL = push_bit 16 1"
definition VMI_INIT_COMPLETE :: u32 where "VMI_INIT_COMPLETE = push_bit 17 1"
definition MAX_PAGE_CACHE_SIZE :: u32 where "MAX_PAGE_CACHE_SIZE = 512"

subsection \<open>The instance structure\<close>

text \<open>The members of the union \<open>os\<close>; only the one for the target's system is used.\<close>

record linux_instance =
  linux_tasks_offset :: cint
  linux_mm_offset :: cint
  linux_pid_offset :: cint
  linux_pgd_offset :: cint
  linux_name_offset :: cint

record windows_instance =
  ntoskrnl :: addr_t
  ntoskrnl_va :: addr_t
  kdversion_block :: addr_t
  sysproc :: addr_t
  win_tasks_offset :: cint
  win_pdbase_offset :: cint
  win_pid_offset :: cint
  win_pname_offset :: cint
  version :: win_ver_t

text \<open>The entries of the four caches, as \<^verbatim>\<open>cache.c\<close> and \<^verbatim>\<open>memory_cache.c\<close> declare them.\<close>

record pid_cache_entry =
  pid_pid :: cint
  pid_dtb :: addr_t
  pid_last_used :: int

record sym_cache_entry =
  sym_sym :: string
  sym_va :: addr_t
  sym_last_used :: int

record v2p_cache_entry =
  v2p_va :: addr_t
  v2p_dtb :: addr_t
  v2p_pa :: addr_t
  v2p_last_used :: int

text \<open>
  What a driver's memory callback returns: no page, a private copy of the guest's bytes, or the
  guest frame itself mapped into the library's address space (what Xen's foreign mapping gives).
\<close>

datatype page_data = PNull | PCopy "u8 list" | PForeign addr_t

record memory_cache_entry =
  mc_paddr :: addr_t
  mc_length :: u32
  mc_last_updated :: int
  mc_last_used :: int
  mc_data :: page_data

text \<open>The three back ends; \<open>driver\<close> points to the static structure of one of them.\<close>

datatype backend = Xen | Kvm | File

record vmi_instance =
  mode :: vmi_mode_t
  flags :: u32
  init_mode :: u32
  configstr :: "string option"
  sysmap :: "string option"
  image_type :: "string option"
  page_offset :: u32
  page_shift :: u32
  page_size :: u32
  kpgd :: addr_t
  init_task :: addr_t
  os_type :: os_t
  pae :: cint
  pse :: cint
  lme :: cint
  cr3 :: reg_t
  page_mode :: page_mode_t
  vmi_size :: u64
  hvm :: cint
  linux_os :: linux_instance
  windows_os :: windows_instance
  pid_cache :: "cint \<rightharpoonup> pid_cache_entry"
  sym_cache :: "string \<rightharpoonup> sym_cache_entry"
  v2p_cache :: "u64 \<rightharpoonup> v2p_cache_entry"
  driver :: "backend option"
  memory_cache :: "addr_t \<rightharpoonup> memory_cache_entry"
  memory_cache_lru :: "(nat \<times> addr_t) list"
  memory_cache_age :: u32
  memory_cache_size :: u32
  memory_cache_size_max :: u32

subsection \<open>Static variables and the guest\<close>

text \<open>
  A function pointer of the dispatch table of \<^verbatim>\<open>driver/interface.c\<close>: null, one back end's function,
  or whatever the allocated memory held.
\<close>

datatype fptr = FNull | Fn backend | FWild

record driver_instance =
  init_ptr :: fptr
  destroy_ptr :: fptr
  get_id_from_name_ptr :: fptr
  get_id_ptr :: fptr
  set_id_ptr :: fptr
  get_name_ptr :: fptr
  set_name_ptr :: fptr
  get_memsize_ptr :: fptr
  get_vcpureg_ptr :: fptr
  get_address_width_ptr :: fptr
  read_page_ptr :: fptr
  write_ptr :: fptr
  is_pv_ptr :: fptr
  pause_vm_ptr :: fptr
  resume_vm_ptr :: fptr

record xen_instance =
  xen_xchandle :: bool
  xen_xshandle :: bool
  xen_domainid :: u64
  xen_hvm :: cint
  xen_addr_width :: u8
  xen_name :: "string option"

record file_instance =
  file_fhandle :: "string option"
  file_filename :: "string option"
  file_map :: "u8 list option"

text \<open>
  The state of the library: the instance, the static variables (the dispatch table, the
  drivers' own structures, the memory callback), the allocator (the number of the next block,
  which stands for the address \<open>malloc\<close> returns), the value of \<open>time(NULL)\<close>, and the guest's
  physical memory, which a Xen guest shares with the library. \<open>paused\<close> records the hypervisor's
  view of the guest. \<open>fault\<close> is set where the C code would dereference a null pointer or index an
  array out of its bounds: nothing is claimed of what runs after it.
\<close>

record vmi = vmi_instance +
  instance_ptrs :: "driver_instance option"
  xeninst :: xen_instance
  fileinst :: file_instance
  get_data_callback :: "backend option"
  heap_next :: nat
  clock :: int
  guest_mem :: "addr_t \<Rightarrow> u8"
  paused :: bool
  fault :: bool

type_synonym 'a vm = "(vmi, 'a) state"

subsection \<open>The environment\<close>

text \<open>
  Code outside the repository, as parameters. \<open>xc_map\<close> says whether Xen maps a frame of a
  domain for reading, \<open>xc_map_write\<close> for writing, \<open>hvm_ctx\<close> and \<open>pv_ctx\<close> give a virtual CPU's saved context by the name of the field the
  code reads (\<open>hvm_compat\<close> whether it has the member \<open>msr_tsc_aux\<close>), \<open>xs_read\<close> and \<open>xs_directory\<close> are xenstore, \<open>host_file\<close> the host's file system,
  \<open>host_mmap\<close> whether a file can be mapped, \<open>stdin_size\<close> what \<open>fstat\<close> gives for descriptor 0,
  \<open>errno_after\<close> whether \<open>errno\<close> is set once \<open>strtol\<close> has read a string (the code does not clear it
  before), \<open>junk\<close> is the value of a variable the code reads before it has been set, and \<open>heap_bytes\<close> what a
  newly allocated buffer holds.
\<close>

record env =
  xc_open :: bool
  xs_open :: bool
  xc_map :: "u64 \<Rightarrow> addr_t \<Rightarrow> bool"
  xc_map_write :: "u64 \<Rightarrow> addr_t \<Rightarrow> bool"
  xc_getinfo_hvm :: "u64 \<Rightarrow> cint option"
  hvm_ctx :: "u64 \<Rightarrow> u64 \<Rightarrow> (string \<Rightarrow> u64) option"
  hvm_compat :: bool
  pv_ctx :: "u64 \<Rightarrow> u64 \<Rightarrow> (string \<Rightarrow> u64) option"
  xc_address_size :: "u64 \<Rightarrow> u32 option"
  xc_pause_ok :: "u64 \<Rightarrow> bool"
  xs_read :: "string \<Rightarrow> string option"
  xs_directory :: "string \<Rightarrow> string list"
  host_file :: "string \<Rightarrow> u8 list option"
  host_mmap :: "string \<Rightarrow> bool"
  stdin_size :: "u64 option"
  errno_after :: "string \<Rightarrow> bool"
  junk :: u64
  heap_bytes :: "nat \<Rightarrow> char"

subsection \<open>The part of the state that reading leaves alone\<close>

text \<open>
  \<open>core\<close> blanks what a reading operation may change: the four caches, the list that orders the
  page cache, its counter, the allocator and the fault flag. Two states with the same core agree
  on every other field.
\<close>

definition core :: "vmi \<Rightarrow> vmi" where
  "core s = s\<lparr>pid_cache := Map.empty, sym_cache := Map.empty, v2p_cache := Map.empty,
     memory_cache := Map.empty, memory_cache_lru := [], memory_cache_size := 0, heap_next := 0,
     fault := False\<rparr>"

lemma core_fields [simp]:
  "mode (core s) = mode s" "flags (core s) = flags s" "sysmap (core s) = sysmap s"
  "image_type (core s) = image_type s" "page_offset (core s) = page_offset s"
  "page_shift (core s) = page_shift s" "page_size (core s) = page_size s"
  "kpgd (core s) = kpgd s" "init_task (core s) = init_task s" "os_type (core s) = os_type s"
  "pae (core s) = pae s" "pse (core s) = pse s" "lme (core s) = lme s" "cr3 (core s) = cr3 s"
  "page_mode (core s) = page_mode s" "vmi_size (core s) = vmi_size s" "hvm (core s) = hvm s"
  "linux_os (core s) = linux_os s" "windows_os (core s) = windows_os s"
  "driver (core s) = driver s" "memory_cache_age (core s) = memory_cache_age s"
  "memory_cache_size_max (core s) = memory_cache_size_max s"
  "instance_ptrs (core s) = instance_ptrs s" "xeninst (core s) = xeninst s"
  "fileinst (core s) = fileinst s" "get_data_callback (core s) = get_data_callback s"
  "clock (core s) = clock s" "guest_mem (core s) = guest_mem s" "paused (core s) = paused s"
  by (simp_all add: core_def)

lemma core_core [simp]: "core (core s) = core s"
  by (simp add: core_def)

lemma core_upd [simp]:
  "core (s\<lparr>pid_cache := a\<rparr>) = core s" "core (s\<lparr>sym_cache := b\<rparr>) = core s"
  "core (s\<lparr>v2p_cache := d\<rparr>) = core s" "core (s\<lparr>memory_cache := e\<rparr>) = core s"
  "core (s\<lparr>memory_cache_lru := f\<rparr>) = core s" "core (s\<lparr>memory_cache_size := g\<rparr>) = core s"
  "core (s\<lparr>heap_next := h\<rparr>) = core s" "core (s\<lparr>fault := x\<rparr>) = core s"
  by (simp_all add: core_def)

text \<open>From equal cores to equal fields: \<open>core_eqD\<close> gives the fields the proofs ask for.\<close>

lemma core_field_eq: "core s = core t \<Longrightarrow> (\<And>u. f (core u) = f u) \<Longrightarrow> f s = f t"
  by metis

lemma core_eqD:
  assumes "core s = core t"
  shows "page_shift s = page_shift t" "page_size s = page_size t" "kpgd s = kpgd t"
    "init_task s = init_task t" "os_type s = os_type t" "pae s = pae t" "page_mode s = page_mode t"
    "vmi_size s = vmi_size t" "hvm s = hvm t" "linux_os s = linux_os t"
    "windows_os s = windows_os t" "driver s = driver t" "memory_cache_age s = memory_cache_age t"
    "memory_cache_size_max s = memory_cache_size_max t" "instance_ptrs s = instance_ptrs t"
    "xeninst s = xeninst t" "fileinst s = fileinst t" "get_data_callback s = get_data_callback t"
    "clock s = clock t" "guest_mem s = guest_mem t" "cr3 s = cr3 t" "sysmap s = sysmap t"
    "mode s = mode t" "paused s = paused t"
  by (rule core_field_eq [OF assms]; simp)+

text \<open>The structure as \<open>vmi_init_private\<close> clears it, and the static variables at program start.\<close>

definition zeroed_vmi :: vmi where
  "zeroed_vmi = \<lparr>mode = 0, flags = 0, init_mode = 0, configstr = None, sysmap = None,
     image_type = None, page_offset = 0, page_shift = 0, page_size = 0, kpgd = 0, init_task = 0,
     os_type = VMI_OS_UNKNOWN, pae = 0, pse = 0, lme = 0, cr3 = 0, page_mode = VMI_PM_UNKNOWN,
     vmi_size = 0, hvm = 0,
     linux_os = \<lparr>linux_tasks_offset = 0, linux_mm_offset = 0, linux_pid_offset = 0,
       linux_pgd_offset = 0, linux_name_offset = 0\<rparr>,
     windows_os = \<lparr>ntoskrnl = 0, ntoskrnl_va = 0, kdversion_block = 0, sysproc = 0,
       win_tasks_offset = 0, win_pdbase_offset = 0, win_pid_offset = 0, win_pname_offset = 0,
       version = VMI_OS_WINDOWS_NONE\<rparr>,
     pid_cache = Map.empty, sym_cache = Map.empty, v2p_cache = Map.empty, driver = None,
     memory_cache = Map.empty, memory_cache_lru = [], memory_cache_age = 0,
     memory_cache_size = 0, memory_cache_size_max = 0,
     instance_ptrs = None,
     xeninst = \<lparr>xen_xchandle = False, xen_xshandle = False, xen_domainid = 0, xen_hvm = 0,
       xen_addr_width = 0, xen_name = None\<rparr>,
     fileinst = \<lparr>file_fhandle = None, file_filename = None, file_map = None\<rparr>,
     get_data_callback = None, heap_next = 0, clock = 0, guest_mem = (\<lambda>_. 0), paused = False,
     fault = False\<rparr>"

text \<open>A host without Xen and without files, where unset variables happen to be zero.\<close>

definition bare_env :: env where
  "bare_env = \<lparr>xc_open = False, xs_open = False, xc_map = (\<lambda>_ _. False),
     xc_map_write = (\<lambda>_ _. False),
     xc_getinfo_hvm = (\<lambda>_. None), hvm_ctx = (\<lambda>_ _. None), hvm_compat = True, pv_ctx = (\<lambda>_ _. None),
     xc_address_size = (\<lambda>_. None), xc_pause_ok = (\<lambda>_. False), xs_read = (\<lambda>_. None),
     xs_directory = (\<lambda>_. []), host_file = (\<lambda>_. None),
     host_mmap = (\<lambda>_. True), stdin_size = None, errno_after = (\<lambda>_. False), junk = 0,
     heap_bytes = (\<lambda>_. CHR 0x00)\<rparr>"

subsection \<open>convenience.c\<close>

text \<open>
  \<open>1 << bit\<close> is computed as an \<open>int\<close> and then widened to the 64-bit \<open>reg_t\<close>, so the widening
  copies bit 31 into bits 32 to 63.
\<close>

definition vmi_get_bit :: "reg_t \<Rightarrow> nat \<Rightarrow> cint" where
  "vmi_get_bit reg n = (let mask = (scast (push_bit n (1 :: cint)) :: reg_t)
     in if reg AND mask \<noteq> 0 then 1 else 0)"

text \<open>\<open>get_reg32\<close> casts to \<open>unsigned long\<close>, which has 64 bits on this host.\<close>

definition get_reg32 :: "reg_t \<Rightarrow> u64" where
  "get_reg32 r = r"

definition aligned_addr :: "vmi \<Rightarrow> addr_t \<Rightarrow> addr_t" where
  "aligned_addr s addr = (let mask = NOT (ucast (page_size s) - 1) in addr AND mask)"

definition is_addr_aligned :: "vmi \<Rightarrow> addr_t \<Rightarrow> bool" where
  "is_addr_aligned s addr \<longleftrightarrow> addr = aligned_addr s addr"

end
