(* ===== verification/Page_Cache.thy ===== *)
theory Page_Cache
  imports Vmi_Instance
begin

text \<open>
  The page cache of \<^verbatim>\<open>driver/memory_cache.c\<close> and the drivers' memory callbacks it calls
  (\<^verbatim>\<open>file_get_memory\<close>, \<^verbatim>\<open>xen_get_memory\<close>): the operations, the invariant that relates the hash
  table, the list that orders it and the counter, and the contract that a cached page is what a
  fresh fetch would give.
\<close>

unbundle bit_operations_syntax

subsection \<open>Allocation and faults\<close>

text \<open>The address \<open>malloc\<close> returns is one no live block has; running out of memory exits.\<close>

definition safe_malloc :: "nat vm" where
  "safe_malloc = do { p \<leftarrow> gets heap_next; modify (\<lambda>s. s\<lparr>heap_next := Suc p\<rparr>); return p }"

definition raise_fault :: "'a \<Rightarrow> 'a vm" where
  "raise_fault x = do { modify (\<lambda>s. s\<lparr>fault := True\<rparr>); return x }"

subsection \<open>The drivers' memory callbacks\<close>

text \<open>\<open>driver\<close> is cast to the structure of the back end; only that back end's functions may do so.\<close>

definition file_get_instance :: "file_instance vm" where
  "file_get_instance = do {
     d \<leftarrow> gets driver;
     fi \<leftarrow> gets fileinst;
     if d = Some File then return fi else raise_fault fi }"

definition xen_get_instance :: "xen_instance vm" where
  "xen_get_instance = do {
     d \<leftarrow> gets driver;
     xi \<leftarrow> gets xeninst;
     if d = Some Xen then return xi else raise_fault xi }"

definition xen_get_domainid :: "u64 vm" where
  "xen_get_domainid = do { xi \<leftarrow> xen_get_instance; return (xen_domainid xi) }"

definition file_get_memory :: "addr_t \<Rightarrow> u32 \<Rightarrow> page_data vm" where
  "file_get_memory paddr len = do {
     sz \<leftarrow> gets vmi_size;
     if sz \<le> paddr + ucast len then return PNull
     else do { fi \<leftarrow> file_get_instance; (case file_map fi of
       None \<Rightarrow> raise_fault PNull
     | Some bs \<Rightarrow> if unat paddr + unat len \<le> length bs
         then return (PCopy (take (unat len) (drop (unat paddr) bs)))
         else raise_fault PNull) } }"

text \<open>The protection decides which mapping is asked for: \<open>wr\<close> stands for \<open>PROT_WRITE\<close>.\<close>

definition xen_get_memory_pfn :: "env \<Rightarrow> addr_t \<Rightarrow> bool \<Rightarrow> page_data vm" where
  "xen_get_memory_pfn E pfn wr = do {
     domid \<leftarrow> xen_get_domainid;
     return (if (if wr then xc_map_write else xc_map) E domid pfn then PForeign pfn else PNull) }"

definition xen_get_memory :: "env \<Rightarrow> addr_t \<Rightarrow> u32 \<Rightarrow> page_data vm" where
  "xen_get_memory E paddr len = do {
     shift \<leftarrow> gets page_shift;
     let pfn = drop_bit (unat shift) paddr;
     xen_get_memory_pfn E pfn False }"

text \<open>
  Calling through \<open>get_data_callback\<close>. The KVM callbacks are compiled out (\<open>ENABLE_KVM\<close> is 0), so
  the pointer is the file driver's, Xen's or null.
\<close>

definition get_memory_data :: "env \<Rightarrow> addr_t \<Rightarrow> u32 \<Rightarrow> page_data vm" where
  "get_memory_data E paddr len = do {
     cb \<leftarrow> gets get_data_callback;
     (case cb of
       Some File \<Rightarrow> file_get_memory paddr len
     | Some Xen \<Rightarrow> xen_get_memory E paddr len
     | _ \<Rightarrow> raise_fault PNull) }"

subsection \<open>The cache\<close>

text \<open>
  \<open>clean_cache\<close> takes entries off the end of the list until the counter is at most half of the
  maximum, then removes the collected keys from the table. The list holds the addresses of
  allocated copies of the keys; \<open>g_list_last\<close> of an empty list is a null pointer, which the loop
  dereferences.
\<close>

function clean_loop :: "vmi \<Rightarrow> addr_t list \<Rightarrow> addr_t list \<times> vmi" where
  "clean_loop s keys =
     (if memory_cache_size_max s div 2 < memory_cache_size s then
        (if memory_cache_lru s = [] then (keys, s\<lparr>fault := True\<rparr>)
         else clean_loop (s\<lparr>memory_cache_lru := butlast (memory_cache_lru s),
                            memory_cache_size := memory_cache_size s - 1\<rparr>)
                (snd (last (memory_cache_lru s)) # keys))
      else (keys, s))"
  by pat_completeness auto
termination
  by (relation "measure (\<lambda>(s, keys). length (memory_cache_lru s))") auto

declare clean_loop.simps [simp del]

definition remove_entry :: "addr_t \<Rightarrow> vmi \<Rightarrow> vmi" where
  "remove_entry key s = s\<lparr>memory_cache := (memory_cache s)(key := None)\<rparr>"

definition clean_cache :: "unit vm" where
  "clean_cache = modify (\<lambda>s. let (keys, s') = clean_loop s [] in fold remove_entry keys s')"

text \<open>\<open>g_list_remove\<close> removes the first element whose data pointer is the one given.\<close>

fun g_list_remove :: "(nat \<times> addr_t) list \<Rightarrow> nat \<Rightarrow> (nat \<times> addr_t) list" where
  "g_list_remove [] p = []"
| "g_list_remove (x # xs) p = (if fst x = p then xs else x # g_list_remove xs p)"

definition validate_and_return_data :: "env \<Rightarrow> addr_t \<Rightarrow> memory_cache_entry \<Rightarrow> page_data vm" where
  "validate_and_return_data E table_key entry = do {
     now \<leftarrow> gets clock;
     age \<leftarrow> gets memory_cache_age;
     entry \<leftarrow> (if age \<noteq> 0 \<and> uint age < now - mc_last_updated entry then do {
         d \<leftarrow> get_memory_data E (mc_paddr entry) (mc_length entry);
         key \<leftarrow> safe_malloc;
         modify (\<lambda>s. s\<lparr>memory_cache_lru :=
           (key, mc_paddr entry) # g_list_remove (memory_cache_lru s) key\<rparr>);
         return (entry\<lparr>mc_data := d, mc_last_updated := now\<rparr>) }
       else return entry);
     let entry = entry\<lparr>mc_last_used := now\<rparr>;
     modify (\<lambda>s. s\<lparr>memory_cache := (memory_cache s)(table_key \<mapsto> entry)\<rparr>);
     return (mc_data entry) }"

text \<open>The range check of \<open>create_new_entry\<close>, which applies to HVM guests.\<close>

definition beyond_memory :: "vmi \<Rightarrow> addr_t \<Rightarrow> u32 \<Rightarrow> bool" where
  "beyond_memory s paddr len \<longleftrightarrow> hvm s \<noteq> 0 \<and> vmi_size s < paddr + ucast len - 1"

definition create_new_entry :: "env \<Rightarrow> addr_t \<Rightarrow> u32 \<Rightarrow> memory_cache_entry option vm" where
  "create_new_entry E paddr len = do {
     s \<leftarrow> State_Monad.get;
     if beyond_memory s paddr len then return None
     else do {
       _ \<leftarrow> safe_malloc;
       d \<leftarrow> get_memory_data E paddr len;
       let entry = \<lparr>mc_paddr = paddr, mc_length = len, mc_last_updated = clock s,
                    mc_last_used = clock s, mc_data = d\<rparr>;
       s \<leftarrow> State_Monad.get;
       (if memory_cache_size_max s \<le> memory_cache_size s then clean_cache else return ());
       return (Some entry) } }"

definition memory_cache_init :: "backend \<Rightarrow> u64 \<Rightarrow> unit vm" where
  "memory_cache_init get_data age_limit = modify (\<lambda>s. s\<lparr>memory_cache := Map.empty,
     memory_cache_lru := [], memory_cache_age := ucast age_limit, memory_cache_size := 0,
     memory_cache_size_max := MAX_PAGE_CACHE_SIZE, get_data_callback := Some get_data\<rparr>)"

definition memory_cache_insert :: "env \<Rightarrow> addr_t \<Rightarrow> page_data vm" where
  "memory_cache_insert E paddr = do {
     s \<leftarrow> State_Monad.get;
     let paddr_aligned = paddr AND NOT (ucast (page_size s) - 1);
     if paddr \<noteq> paddr_aligned then return PNull
     else do { key \<leftarrow> safe_malloc; (case memory_cache s paddr of
       Some entry \<Rightarrow> validate_and_return_data E paddr entry
     | None \<Rightarrow> do {
         e \<leftarrow> create_new_entry E paddr (page_size s);
         (case e of
           None \<Rightarrow> return PNull
         | Some entry \<Rightarrow> do {
             modify (\<lambda>s. s\<lparr>memory_cache := (memory_cache s)(paddr \<mapsto> entry)\<rparr>);
             key2 \<leftarrow> safe_malloc;
             modify (\<lambda>s. s\<lparr>memory_cache_lru := (key2, paddr) # memory_cache_lru s,
                           memory_cache_size := memory_cache_size s + 1\<rparr>);
             return (mc_data entry) }) }) } }"

definition memory_cache_destroy :: "unit vm" where
  "memory_cache_destroy = do {
     tmp \<leftarrow> gets memory_cache_size_max;
     modify (\<lambda>s. s\<lparr>memory_cache_size_max := 0\<rparr>);
     clean_cache;
     modify (\<lambda>s. s\<lparr>memory_cache_size_max := tmp\<rparr>) }"


subsection \<open>What a fetch returns\<close>

definition memory_of :: "env \<Rightarrow> vmi \<Rightarrow> addr_t \<Rightarrow> u32 \<Rightarrow> page_data" where
  "memory_of E s paddr len = (case get_data_callback s of
     Some File \<Rightarrow> (if vmi_size s \<le> paddr + ucast len then PNull
       else (case file_map (fileinst s) of None \<Rightarrow> PNull
             | Some bs \<Rightarrow> if unat paddr + unat len \<le> length bs
                 then PCopy (take (unat len) (drop (unat paddr) bs)) else PNull))
   | Some Xen \<Rightarrow>
       (let pfn = drop_bit (unat (page_shift s)) paddr
        in if xc_map E (xen_domainid (xeninst s)) pfn then PForeign pfn else PNull)
   | _ \<Rightarrow> PNull)"

definition backing_ready :: "vmi \<Rightarrow> bool" where
  "backing_ready s \<longleftrightarrow> get_data_callback s = Some Xen \<and> driver s = Some Xen
     \<or> get_data_callback s = Some File \<and> driver s = Some File
        \<and> (\<exists>bs. file_map (fileinst s) = Some bs \<and> unat (vmi_size s) \<le> length bs)"

text \<open>
  \<open>paddr + length\<close> is computed in 64 bits: for the last page of the address space it wraps to
  zero, passes the size check, and the copy starts before the mapping.
\<close>

definition copy_out_of_bounds :: "vmi \<Rightarrow> addr_t \<Rightarrow> u32 \<Rightarrow> bool" where
  "copy_out_of_bounds s paddr len \<longleftrightarrow> get_data_callback s = Some File
     \<and> \<not> vmi_size s \<le> paddr + ucast len
     \<and> (case file_map (fileinst s) of None \<Rightarrow> True | Some bs \<Rightarrow> length bs < unat paddr + unat len)"

definition fetched :: "addr_t \<Rightarrow> u32 \<Rightarrow> vmi \<Rightarrow> vmi" where
  "fetched paddr len s = s\<lparr>fault := fault s \<or> copy_out_of_bounds s paddr len\<rparr>"

lemma run_file_get_memory:
  assumes "get_data_callback s = Some File" "driver s = Some File"
  shows "run_state (file_get_memory paddr len) s = (memory_of E s paddr len, fetched paddr len s)"
proof (cases "vmi_size s \<le> paddr + ucast len")
  case True
  then show ?thesis
    using assms by (simp add: file_get_memory_def memory_of_def fetched_def copy_out_of_bounds_def)
next
  case False
  then show ?thesis
    using assms by (simp add: file_get_memory_def memory_of_def fetched_def copy_out_of_bounds_def
        file_get_instance_def raise_fault_def not_le split: option.split)
qed

lemma run_xen_get_memory:
  assumes "get_data_callback s = Some Xen" "driver s = Some Xen"
  shows "run_state (xen_get_memory E paddr len) s = (memory_of E s paddr len, fetched paddr len s)"
  using assms by (simp add: xen_get_memory_def xen_get_memory_pfn_def xen_get_domainid_def
      xen_get_instance_def memory_of_def fetched_def
      copy_out_of_bounds_def Let_def)

lemma run_get_memory_data:
  assumes "backing_ready s"
  shows "run_state (get_memory_data E paddr len) s = (memory_of E s paddr len, fetched paddr len s)"
proof (cases "get_data_callback s = Some Xen")
  case True
  with assms show ?thesis
    by (simp add: get_memory_data_def run_xen_get_memory backing_ready_def)
next
  case False
  with assms have "get_data_callback s = Some File" "driver s = Some File"
    by (simp_all add: backing_ready_def)
  then show ?thesis by (simp add: get_memory_data_def run_file_get_memory [where E = E])
qed

lemma memory_of_core [simp]: "memory_of E (core s) paddr len = memory_of E s paddr len"
  by (simp add: memory_of_def split: option.split backend.split)

lemma backing_ready_core [simp]: "backing_ready (core s) = backing_ready s"
  by (simp add: backing_ready_def)

lemma beyond_memory_core [simp]: "beyond_memory (core s) paddr len = beyond_memory s paddr len"
  by (simp add: beyond_memory_def)

lemma memory_of_cong: "core s = core t \<Longrightarrow> memory_of E s paddr len = memory_of E t paddr len"
  by (metis memory_of_core)

lemma beyond_memory_cong: "core s = core t \<Longrightarrow> beyond_memory s paddr len = beyond_memory t paddr len"
  by (metis beyond_memory_core)

lemma backing_ready_cong: "core s = core t \<Longrightarrow> backing_ready s = backing_ready t"
  by (metis backing_ready_core)

text \<open>The page at an aligned physical address, as a fetch that bypasses the cache would give it.\<close>

definition page_fetch :: "env \<Rightarrow> vmi \<Rightarrow> addr_t \<Rightarrow> page_data" where
  "page_fetch E s paddr =
     (if beyond_memory s paddr (page_size s) then PNull else memory_of E s paddr (page_size s))"

lemma page_fetch_core [simp]: "page_fetch E (core s) paddr = page_fetch E s paddr"
  by (simp add: page_fetch_def)

subsection \<open>Cleaning\<close>

definition excess :: "vmi \<Rightarrow> nat" where
  "excess s = unat (memory_cache_size s) - unat (memory_cache_size_max s div 2)"

lemma clean_loop_eq:
  assumes "unat (memory_cache_size s) \<le> length (memory_cache_lru s)"
  shows "clean_loop s keys =
    (map snd (drop (length (memory_cache_lru s) - excess s) (memory_cache_lru s)) @ keys,
     s\<lparr>memory_cache_lru := take (length (memory_cache_lru s) - excess s) (memory_cache_lru s),
       memory_cache_size := memory_cache_size s - of_nat (excess s)\<rparr>)"
  using assms
proof (induction s keys rule: clean_loop.induct)
  case (1 s keys)
  let ?l = "memory_cache_lru s" and ?n = "memory_cache_size s" and ?h = "memory_cache_size_max s div 2"
  show ?case
  proof (cases "?h < ?n")
    case False
    then have "excess s = 0" by (simp add: excess_def word_less_nat_alt)
    with False show ?thesis by (simp add: clean_loop.simps [of s keys])
  next
    case True
    then have pos: "unat ?h < unat ?n" by (simp add: word_less_nat_alt)
    then have n0: "?n \<noteq> 0" by auto
    with "1.prems" pos have ne: "?l \<noteq> []" by auto
    let ?s = "s\<lparr>memory_cache_lru := butlast ?l, memory_cache_size := ?n - 1\<rparr>"
    have u: "unat (?n - 1) = unat ?n - 1" using n0 by (simp add: unat_minus_one)
    have ex: "excess s = Suc (excess ?s)" using pos u by (simp add: excess_def)
    have exn: "excess ?s < length ?l"
      using pos "1.prems" u by (simp add: excess_def)
    have "unat (memory_cache_size ?s) \<le> length (memory_cache_lru ?s)"
      using "1.prems" u by simp
    from "1.IH" [OF True ne this]
    have IH: "clean_loop ?s (snd (last ?l) # keys) =
      (map snd (drop (length ?l - 1 - excess ?s) (butlast ?l)) @ snd (last ?l) # keys,
       ?s\<lparr>memory_cache_lru := take (length ?l - 1 - excess ?s) (butlast ?l),
         memory_cache_size := ?n - 1 - of_nat (excess ?s)\<rparr>)" by simp
    let ?k = "length ?l - 1 - excess ?s"
    have "drop ?k ?l = drop ?k (butlast ?l @ [last ?l])" using ne by simp
    also have "\<dots> = drop ?k (butlast ?l) @ [last ?l]" by simp
    finally have d: "map snd (drop ?k ?l) = map snd (drop ?k (butlast ?l)) @ [snd (last ?l)]" by simp
    have t: "take ?k (butlast ?l) = take ?k ?l" using ne by (simp add: take_butlast)
    have k: "length ?l - excess s = ?k" using ex by simp
    show ?thesis
      using True ne IH d t k ex by (simp add: clean_loop.simps [of s keys] algebra_simps)
  qed
qed

lemma fold_remove_entry:
  "fold remove_entry keys s =
    s\<lparr>memory_cache := (\<lambda>k. if k \<in> set keys then None else memory_cache s k)\<rparr>"
proof (induction keys arbitrary: s)
  case Nil
  then show ?case by simp
next
  case (Cons k keys)
  have "(\<lambda>k'. if k' \<in> set keys then None else ((memory_cache s)(k := None)) k') =
    (\<lambda>k'. if k' \<in> set (k # keys) then None else memory_cache s k')"
    by (rule ext) simp
  moreover have "remove_entry k s = s\<lparr>memory_cache := (memory_cache s)(k := None)\<rparr>"
    by (simp add: remove_entry_def)
  ultimately show ?case by (simp add: Cons cong: if_cong)
qed

definition dropped :: "vmi \<Rightarrow> (nat \<times> addr_t) list" where
  "dropped s = drop (length (memory_cache_lru s) - excess s) (memory_cache_lru s)"

definition kept :: "vmi \<Rightarrow> (nat \<times> addr_t) list" where
  "kept s = take (length (memory_cache_lru s) - excess s) (memory_cache_lru s)"

lemma kept_dropped: "memory_cache_lru s = kept s @ dropped s"
  by (simp add: kept_def dropped_def)

lemma run_clean_cache:
  assumes "unat (memory_cache_size s) \<le> length (memory_cache_lru s)"
  shows "run_state clean_cache s = ((),
    s\<lparr>memory_cache := (\<lambda>k. if k \<in> snd ` set (dropped s) then None else memory_cache s k),
      memory_cache_lru := kept s,
      memory_cache_size := memory_cache_size s - of_nat (excess s)\<rparr>)"
  using assms by (simp add: clean_cache_def clean_loop_eq fold_remove_entry kept_def dropped_def
      cong: if_cong)

subsection \<open>Invariants\<close>

text \<open>Every entry of the table holds what a fetch of its page would return.\<close>

definition entries_ok :: "env \<Rightarrow> vmi \<Rightarrow> bool" where
  "entries_ok E s \<longleftrightarrow> (\<forall>k e. memory_cache s k = Some e \<longrightarrow> mc_paddr e = k
     \<and> mc_length e = page_size s \<and> \<not> beyond_memory s k (page_size s)
     \<and> mc_data e = memory_of E s k (page_size s))"

text \<open>The counter never exceeds the length of the list, so cleaning never runs off its end.\<close>

definition page_cache_ok :: "env \<Rightarrow> vmi \<Rightarrow> bool" where
  "page_cache_ok E s \<longleftrightarrow> backing_ready s \<and> entries_ok E s
     \<and> unat (memory_cache_size s) \<le> length (memory_cache_lru s)"

text \<open>
  The stronger invariant of a cache whose entries are never refreshed: the list holds each
  cached page once, and the counter is the number of cached pages.
\<close>

definition lru_exact :: "vmi \<Rightarrow> bool" where
  "lru_exact s \<longleftrightarrow> distinct (map snd (memory_cache_lru s))
     \<and> snd ` set (memory_cache_lru s) = dom (memory_cache s)
     \<and> unat (memory_cache_size s) = length (memory_cache_lru s)
     \<and> memory_cache_size s \<le> memory_cache_size_max s"

definition no_refresh :: "vmi \<Rightarrow> bool" where
  "no_refresh s \<longleftrightarrow> memory_cache_age s = 0 \<or>
     (\<forall>e \<in> ran (memory_cache s). clock s - mc_last_updated e \<le> uint (memory_cache_age s))"

lemma excess_le: "excess s \<le> unat (memory_cache_size s)"
  by (simp add: excess_def)

lemma unat_size_minus_excess:
  "unat (memory_cache_size s - of_nat (excess s)) = unat (memory_cache_size s) - excess s"
proof -
  have "unat (of_nat (excess s) :: u32) = excess s"
    using excess_le [of s] using unat_lt_u32 [of "memory_cache_size s"] by (simp add: unat_of_nat)
  then show ?thesis
    using excess_le [of s] by (simp add: unat_sub word_le_nat_alt)
qed

lemma entries_ok_D:
  assumes "entries_ok E s" "memory_cache s k = Some e"
  shows "mc_paddr e = k" "mc_length e = page_size s" "\<not> beyond_memory s k (page_size s)"
    "mc_data e = memory_of E s k (page_size s)"
  using assms by (auto simp: entries_ok_def)

lemma entries_ok_cong:
  assumes "core s = core t" "memory_cache s \<subseteq>\<^sub>m memory_cache t" "entries_ok E t"
  shows "entries_ok E s"
  using assms memory_of_cong [OF assms(1)] beyond_memory_cong [OF assms(1)] core_eqD(2) [OF assms(1)]
  unfolding entries_ok_def map_le_def by (metis domI)

text \<open>Refreshing the entry, or only noting its use, stores an entry with the same page.\<close>

lemma length_g_list_remove: "length l \<le> Suc (length (g_list_remove l p))"
  by (induction l) auto

lemma run_validate_fresh:
  assumes "\<not> (memory_cache_age s \<noteq> 0 \<and> uint (memory_cache_age s) < clock s - mc_last_updated e)"
  shows "run_state (validate_and_return_data E k e) s = (mc_data e,
    s\<lparr>memory_cache := (memory_cache s)(k \<mapsto> e\<lparr>mc_last_used := clock s\<rparr>)\<rparr>)"
  by (simp add: validate_and_return_data_def if_not_P [OF assms] del: de_Morgan_conj)

lemma run_validate_old:
  assumes "memory_cache_age s \<noteq> 0 \<and> uint (memory_cache_age s) < clock s - mc_last_updated e"
    and "backing_ready s"
  shows "run_state (validate_and_return_data E k e) s = (memory_of E s (mc_paddr e) (mc_length e),
    s\<lparr>fault := fault s \<or> copy_out_of_bounds s (mc_paddr e) (mc_length e),
      heap_next := Suc (heap_next s),
      memory_cache_lru := (heap_next s, mc_paddr e) # g_list_remove (memory_cache_lru s) (heap_next s),
      memory_cache := (memory_cache s)(k \<mapsto> e\<lparr>mc_data := memory_of E s (mc_paddr e) (mc_length e),
        mc_last_updated := clock s, mc_last_used := clock s\<rparr>)\<rparr>)"
  using assms by (simp add: validate_and_return_data_def run_get_memory_data safe_malloc_def
      fetched_def)

lemma run_validate_and_return_data:
  assumes ok: "page_cache_ok E s" and e: "memory_cache s k = Some e"
  obtains e' l h b where "run_state (validate_and_return_data E k e) s = (page_fetch E s k,
      s\<lparr>fault := b, heap_next := h, memory_cache_lru := l,
        memory_cache := (memory_cache s)(k \<mapsto> e')\<rparr>)"
    and "b \<Longrightarrow> fault s \<or> copy_out_of_bounds s k (page_size s)"
    and "mc_paddr e' = k" "mc_length e' = page_size s" "mc_data e' = page_fetch E s k"
    and "length (memory_cache_lru s) \<le> length l"
    and "no_refresh s \<Longrightarrow> l = memory_cache_lru s"
    and "no_refresh s \<Longrightarrow> mc_last_updated e' = mc_last_updated e"
proof -
  from ok have ready: "backing_ready s" and "entries_ok E s"
    by (simp_all add: page_cache_ok_def)
  note D = entries_ok_D [OF this(2) e]
  have fetch: "page_fetch E s k = memory_of E s k (page_size s)"
    using D(3) by (simp add: page_fetch_def)
  let ?old = "memory_cache_age s \<noteq> 0 \<and> uint (memory_cache_age s) < clock s - mc_last_updated e"
  show thesis
  proof (cases ?old)
    case False
    from run_validate_fresh [OF False, of E k]
    have "run_state (validate_and_return_data E k e) s = (page_fetch E s k,
        s\<lparr>fault := fault s, heap_next := heap_next s, memory_cache_lru := memory_cache_lru s,
          memory_cache := (memory_cache s)(k \<mapsto> e\<lparr>mc_last_used := clock s\<rparr>)\<rparr>)"
      using D(4) fetch by simp
    then show thesis by (rule that) (use D fetch in simp_all)
  next
    case True
    have nr: "\<not> no_refresh s"
      using True e by (auto simp: no_refresh_def ran_def not_le)
    from run_validate_old [OF True ready, of E k]
    have "run_state (validate_and_return_data E k e) s = (page_fetch E s k,
        s\<lparr>fault := fault s \<or> copy_out_of_bounds s k (page_size s),
          heap_next := Suc (heap_next s),
          memory_cache_lru := (heap_next s, k) # g_list_remove (memory_cache_lru s) (heap_next s),
          memory_cache := (memory_cache s)(k \<mapsto> e\<lparr>mc_data := page_fetch E s k,
            mc_last_updated := clock s, mc_last_used := clock s\<rparr>)\<rparr>)"
      by (simp only: D(1,2) fetch)
    then show thesis
      by (rule that) (use D fetch nr length_g_list_remove [of "memory_cache_lru s"] in simp_all)
  qed
qed

text \<open>Making room keeps every invariant of the cache.\<close>

lemma cleaned:
  assumes "page_cache_ok E s"
  shows "page_cache_ok E (snd (run_state clean_cache s))"
    "core (snd (run_state clean_cache s)) = core s"
    "memory_cache (snd (run_state clean_cache s)) \<subseteq>\<^sub>m memory_cache s"
proof -
  from assms have len: "unat (memory_cache_size s) \<le> length (memory_cache_lru s)"
    and ok: "entries_ok E s" and ready: "backing_ready s"
    by (simp_all add: page_cache_ok_def)
  show c: "core (snd (run_state clean_cache s)) = core s"
    by (simp add: run_clean_cache [OF len])
  show m: "memory_cache (snd (run_state clean_cache s)) \<subseteq>\<^sub>m memory_cache s"
    by (force simp: run_clean_cache [OF len] map_le_def dom_def split: if_splits)
  have "unat (memory_cache_size s) - excess s \<le> length (kept s)"
    using len excess_le [of s] by (simp add: kept_def)
  then have "unat (memory_cache_size (snd (run_state clean_cache s)))
      \<le> length (memory_cache_lru (snd (run_state clean_cache s)))"
    by (simp add: run_clean_cache [OF len] unat_size_minus_excess)
  with entries_ok_cong [OF c m ok] ready backing_ready_cong [OF c]
  show "page_cache_ok E (snd (run_state clean_cache s))"
    by (simp add: page_cache_ok_def)
qed

text \<open>The state in which the new entry is stored: cleaned first if the cache was full.\<close>

definition make_room :: "vmi \<Rightarrow> vmi" where
  "make_room s = (if memory_cache_size_max s \<le> memory_cache_size s
     then snd (run_state clean_cache s) else s)"

lemma make_room:
  assumes "page_cache_ok E s"
  shows "page_cache_ok E (make_room s)" "core (make_room s) = core s"
    "memory_cache (make_room s) \<subseteq>\<^sub>m memory_cache s"
  using assms cleaned [OF assms] by (simp_all add: make_room_def)

lemma page_cache_ok_heap [simp]: "page_cache_ok E (s\<lparr>heap_next := h\<rparr>) = page_cache_ok E s"
proof -
  have "core (s\<lparr>heap_next := h\<rparr>) = core s" by simp
  note memory_of_cong [OF this] beyond_memory_cong [OF this] backing_ready_cong [OF this]
  then show ?thesis by (simp add: page_cache_ok_def entries_ok_def)
qed

definition heap_up :: "vmi \<Rightarrow> vmi" where
  "heap_up s = s\<lparr>heap_next := Suc (heap_next s)\<rparr>"

lemma heap_up_simps [simp]:
  "core (heap_up s) = core s" "memory_cache (heap_up s) = memory_cache s"
  "memory_cache_lru (heap_up s) = memory_cache_lru s"
  "memory_cache_size (heap_up s) = memory_cache_size s"
  "memory_cache_size_max (heap_up s) = memory_cache_size_max s"
  "page_size (heap_up s) = page_size s" "clock (heap_up s) = clock s"
  "page_cache_ok E (heap_up s) = page_cache_ok E s"
  "page_fetch E (heap_up s) = page_fetch E s"
  "beyond_memory (heap_up s) = beyond_memory s"
proof -
  have c: "core (s\<lparr>heap_next := Suc (heap_next s)\<rparr>) = core s" by simp
  show "page_fetch E (heap_up s) = page_fetch E s" "beyond_memory (heap_up s) = beyond_memory s"
    using memory_of_cong [OF c] beyond_memory_cong [OF c]
    by (simp_all add: heap_up_def page_fetch_def fun_eq_iff)
qed (simp_all add: heap_up_def)

lemma run_safe_malloc: "run_state safe_malloc s = (heap_next s, heap_up s)"
  by (simp add: safe_malloc_def heap_up_def)

lemma fetched_simps [simp]:
  "core (fetched p n s) = core s" "memory_cache (fetched p n s) = memory_cache s"
  "memory_cache_lru (fetched p n s) = memory_cache_lru s"
  "memory_cache_size (fetched p n s) = memory_cache_size s"
  "memory_cache_size_max (fetched p n s) = memory_cache_size_max s"
  "page_size (fetched p n s) = page_size s"
  "page_cache_ok E (fetched p n s) = page_cache_ok E s"
  "no_refresh (fetched p n s) = no_refresh s" "lru_exact (fetched p n s) = lru_exact s"
proof -
  have c: "core (s\<lparr>fault := b\<rparr>) = core s" for b by simp
  note memory_of_cong [OF c] beyond_memory_cong [OF c] backing_ready_cong [OF c]
  then show "page_cache_ok E (fetched p n s) = page_cache_ok E s"
    by (simp add: fetched_def page_cache_ok_def entries_ok_def)
qed (simp_all add: fetched_def no_refresh_def lru_exact_def)

lemma run_create_new_entry:
  assumes "page_cache_ok E s"
  shows "run_state (create_new_entry E k (page_size s)) s =
    (if beyond_memory s k (page_size s) then (None, s)
     else (Some \<lparr>mc_paddr = k, mc_length = page_size s, mc_last_updated = clock s,
       mc_last_used = clock s, mc_data = page_fetch E s k\<rparr>,
       make_room (fetched k (page_size s) (heap_up s))))"
proof -
  from assms have "page_cache_ok E (heap_up s)" by simp
  then have "backing_ready (heap_up s)" by (simp only: page_cache_ok_def)
  note run_get_memory_data [OF this]
  moreover have "memory_of E (heap_up s) = memory_of E s"
    using memory_of_cong [of "heap_up s" s] by (simp add: fun_eq_iff)
  ultimately show ?thesis
    by (simp add: create_new_entry_def run_safe_malloc page_fetch_def make_room_def case_prod_beta)
qed

subsection \<open>The contract of the cache\<close>

text \<open>What \<open>memory_cache_insert\<close> does, by cases, from a state that satisfies the invariant.\<close>

lemma run_insert_unaligned:
  "\<not> is_addr_aligned s k \<Longrightarrow> run_state (memory_cache_insert E k) s = (PNull, s)"
  by (simp add: memory_cache_insert_def is_addr_aligned_def aligned_addr_def Let_def)

lemma run_insert_hit:
  assumes "is_addr_aligned s k" "memory_cache s k = Some e"
  shows "run_state (memory_cache_insert E k) s = run_state (validate_and_return_data E k e) (heap_up s)"
  using assms by (simp add: memory_cache_insert_def is_addr_aligned_def aligned_addr_def Let_def
      run_safe_malloc)

lemma run_insert_beyond:
  assumes "page_cache_ok E s" "is_addr_aligned s k" "memory_cache s k = None"
    and "beyond_memory s k (page_size s)"
  shows "run_state (memory_cache_insert E k) s = (PNull, heap_up s)"
  using assms run_create_new_entry [of E "heap_up s" k]
  by (simp add: memory_cache_insert_def is_addr_aligned_def aligned_addr_def Let_def
      run_safe_malloc)

definition new_entry :: "env \<Rightarrow> vmi \<Rightarrow> addr_t \<Rightarrow> memory_cache_entry" where
  "new_entry E s k = \<lparr>mc_paddr = k, mc_length = page_size s, mc_last_updated = clock s,
     mc_last_used = clock s, mc_data = page_fetch E s k\<rparr>"

definition store_entry :: "addr_t \<Rightarrow> memory_cache_entry \<Rightarrow> vmi \<Rightarrow> vmi" where
  "store_entry k e s = s\<lparr>memory_cache := (memory_cache s)(k \<mapsto> e),
     memory_cache_lru := (heap_next s, k) # memory_cache_lru s,
     memory_cache_size := memory_cache_size s + 1, heap_next := Suc (heap_next s)\<rparr>"

lemma run_insert_miss:
  assumes "page_cache_ok E s" "is_addr_aligned s k" "memory_cache s k = None"
    and "\<not> beyond_memory s k (page_size s)"
  shows "run_state (memory_cache_insert E k) s =
    (page_fetch E s k, store_entry k (new_entry E s k) (make_room (fetched k (page_size s) (heap_up (heap_up s)))))"
proof -
  have "run_state (create_new_entry E k (page_size s)) (heap_up s) =
      (Some (new_entry E s k), make_room (fetched k (page_size s) (heap_up (heap_up s))))"
    using assms run_create_new_entry [of E "heap_up s" k]
    by (simp add: new_entry_def)
  then show ?thesis
    using assms by (simp add: memory_cache_insert_def is_addr_aligned_def aligned_addr_def Let_def
      run_safe_malloc) (simp add: store_entry_def heap_up_def new_entry_def)
qed

lemma page_cache_ok_store:
  assumes ok: "page_cache_ok E s" and "\<not> beyond_memory s k (page_size s)"
  shows "page_cache_ok E (store_entry k (new_entry E s k) s)"
proof -
  let ?t = "store_entry k (new_entry E s k) s"
  have c: "core ?t = core s" by (simp add: store_entry_def)
  have "unat (memory_cache_size s + 1) \<le> Suc (unat (memory_cache_size s))"
    using unat_word_ariths(1) [of "memory_cache_size s" 1] by (simp add: mod_less_eq_dividend)
  moreover have "entries_ok E ?t"
    using assms memory_of_cong [OF c] beyond_memory_cong [OF c] core_eqD(2) [OF c]
    by (auto simp: entries_ok_def page_cache_ok_def store_entry_def new_entry_def page_fetch_def)
  ultimately show ?thesis
    using ok backing_ready_cong [OF c]
    by (simp add: page_cache_ok_def) (simp add: store_entry_def)
qed

lemma page_fetch_cong: "core s = core t \<Longrightarrow> page_fetch E s = page_fetch E t"
  by (metis ext page_fetch_core)

lemma new_entry_cong:
  assumes "core s = core t"
  shows "new_entry E s k = new_entry E t k"
  unfolding new_entry_def page_fetch_cong [OF assms] core_eqD(2,19) [OF assms] ..

lemma page_cache_ok_insert:
  assumes ok: "page_cache_ok E s"
  shows "page_cache_ok E (snd (run_state (memory_cache_insert E k) s))
    \<and> core (snd (run_state (memory_cache_insert E k) s)) = core s
    \<and> fst (run_state (memory_cache_insert E k) s) =
      (if is_addr_aligned s k then page_fetch E s k else PNull)"
proof (cases "is_addr_aligned s k")
  case False
  then show ?thesis using ok by (simp add: run_insert_unaligned)
next
  case al: True
  show ?thesis
  proof (cases "memory_cache s k")
    case (Some e)
    from ok have ok': "page_cache_ok E (heap_up s)" by simp
    let ?s = "heap_up s"
    from Some have e: "memory_cache ?s k = Some e" by simp
    obtain e' l h b where run: "run_state (validate_and_return_data E k e) ?s = (page_fetch E ?s k,
        ?s\<lparr>fault := b, heap_next := h, memory_cache_lru := l, memory_cache := (memory_cache ?s)(k \<mapsto> e')\<rparr>)"
        (is "_ = (_, ?t)")
      and e': "mc_paddr e' = k" "mc_length e' = page_size ?s" "mc_data e' = page_fetch E ?s k"
      and len: "length (memory_cache_lru ?s) \<le> length l"
      by (rule run_validate_and_return_data [OF ok' e]) (rule that)
    have c: "core ?t = core s" by simp
    have old: "entries_ok E s" using ok by (simp add: page_cache_ok_def)
    have "\<not> beyond_memory s k (page_size s)" using entries_ok_D [OF old Some] by simp
    then have e'': "mc_data e' = memory_of E s k (page_size s)"
      using e' by (simp add: page_fetch_def)
    have "entries_ok E ?t"
      unfolding entries_ok_def memory_of_cong [OF c] beyond_memory_cong [OF c] core_eqD(2) [OF c]
      using old e' e'' entries_ok_D [OF old Some] unfolding entries_ok_def
      by (simp split: if_split)
    then have "page_cache_ok E ?t"
      using ok len backing_ready_cong [OF c] by (simp add: page_cache_ok_def)
    then show ?thesis
      using al Some c by (simp add: run_insert_hit run)
  next
    case None
    show ?thesis
    proof (cases "beyond_memory s k (page_size s)")
      case True
      then show ?thesis
        using ok al None by (simp add: run_insert_beyond page_fetch_def)
    next
      case False
      let ?r = "make_room (fetched k (page_size s) (heap_up (heap_up s)))"
      have okr: "page_cache_ok E ?r" and cr: "core ?r = core s"
        using make_room [of E "fetched k (page_size s) (heap_up (heap_up s))"] ok by simp_all
      have "\<not> beyond_memory ?r k (page_size ?r)"
        using False beyond_memory_cong [OF cr] core_eqD(2) [OF cr] by simp
      from page_cache_ok_store [OF okr this] new_entry_cong [OF cr, of E k]
      have "page_cache_ok E (store_entry k (new_entry E s k) ?r)" by simp
      moreover have "core (store_entry k (new_entry E s k) ?r) = core s"
        using cr by (simp add: store_entry_def)
      ultimately show ?thesis
        using ok al None False by (simp add: run_insert_miss)
    qed
  qed
qed

subsection \<open>The bound on the cache\<close>

lemma set_kept_dropped:
  assumes "distinct (map snd (memory_cache_lru s))"
  shows "snd ` set (kept s) = snd ` set (memory_cache_lru s) - snd ` set (dropped s)"
proof -
  have "distinct (map snd (kept s @ dropped s))"
    using assms by (simp only: kept_dropped [symmetric])
  then have "snd ` set (kept s) \<inter> snd ` set (dropped s) = {}" by simp
  moreover have "snd ` set (memory_cache_lru s) = snd ` set (kept s) \<union> snd ` set (dropped s)"
    by (simp add: kept_dropped [of s] image_Un)
  ultimately show ?thesis by blast
qed

lemma lru_exact_clean:
  assumes ex: "lru_exact s"
  shows "lru_exact (snd (run_state clean_cache s))"
    "unat (memory_cache_size (snd (run_state clean_cache s)))
      = unat (memory_cache_size s) - excess s"
proof -
  from ex have len: "unat (memory_cache_size s) = length (memory_cache_lru s)"
    and d: "distinct (map snd (memory_cache_lru s))"
    and s: "snd ` set (memory_cache_lru s) = dom (memory_cache s)"
    and mx: "memory_cache_size s \<le> memory_cache_size_max s"
    by (simp_all add: lru_exact_def)
  note run = run_clean_cache [OF eq_refl [OF len]]
  show n: "unat (memory_cache_size (snd (run_state clean_cache s)))
      = unat (memory_cache_size s) - excess s"
    by (simp add: run unat_size_minus_excess)
  have "distinct (map snd (kept s))"
    using d by (simp add: kept_def take_map [symmetric] distinct_take)
  moreover have "dom (\<lambda>k. if k \<in> snd ` set (dropped s) then None else memory_cache s k)
      = dom (memory_cache s) - snd ` set (dropped s)"
    by (auto simp: dom_def split: if_splits)
  moreover have "memory_cache_size s - of_nat (excess s) \<le> memory_cache_size_max s"
    using mx by (simp add: word_le_nat_alt unat_size_minus_excess)
  ultimately show "lru_exact (snd (run_state clean_cache s))"
    using len set_kept_dropped [OF d] s
    by (simp add: lru_exact_def run unat_size_minus_excess) (simp add: kept_def)
qed

lemma half_below:
  assumes "0 < (m :: u32)" and "m \<le> n"
  shows "unat n - (unat n - unat (m div 2)) < unat m"
proof -
  have "unat (m div 2) = unat m div 2" by (simp add: unat_div)
  moreover have "0 < unat m" using assms(1) by (simp add: word_less_nat_alt)
  ultimately show ?thesis using assms(2) by (simp add: word_le_nat_alt)
qed

lemma lru_exact_make_room:
  assumes "lru_exact s" "0 < memory_cache_size_max s"
  shows "lru_exact (make_room s)" "memory_cache_size (make_room s) < memory_cache_size_max s"
  using assms lru_exact_clean [OF assms(1)]
    half_below [of "memory_cache_size_max s" "memory_cache_size s"]
  by (auto simp: make_room_def excess_def word_less_nat_alt word_le_nat_alt)

lemma lru_exact_store:
  assumes ex: "lru_exact s" and new: "memory_cache s k = None"
    and room: "memory_cache_size s < memory_cache_size_max s"
  shows "lru_exact (store_entry k e s)"
proof -
  have "k \<notin> snd ` set (memory_cache_lru s)"
    using ex new by (simp add: lru_exact_def domIff)
  moreover have "unat (memory_cache_size s + 1) = Suc (unat (memory_cache_size s))"
    using room unat_lt_u32 [of "memory_cache_size_max s"]
      unat_word_ariths(1) [of "memory_cache_size s" 1] by (simp add: word_less_nat_alt)
  ultimately show ?thesis
    using ex room inc_le [OF room]
    by (simp add: lru_exact_def store_entry_def add.commute)
qed

lemma lru_exact_heap [simp]: "lru_exact (heap_up s) = lru_exact s"
  by (simp add: lru_exact_def)

lemma no_refresh_heap [simp]: "no_refresh (heap_up s) = no_refresh s"
  by (simp add: no_refresh_def) (simp add: heap_up_def)

lemma card_cached:
  assumes "lru_exact s"
  shows "card (dom (memory_cache s)) = unat (memory_cache_size s)"
  using assms distinct_card [of "map snd (memory_cache_lru s)"] by (simp add: lru_exact_def)

lemma lru_exact_insert:
  assumes ok: "page_cache_ok E s" and ex: "lru_exact s" and nr: "no_refresh s"
    and mx: "0 < memory_cache_size_max s"
  shows "lru_exact (snd (run_state (memory_cache_insert E k) s))"
proof (cases "is_addr_aligned s k")
  case False
  then show ?thesis using ex by (simp add: run_insert_unaligned)
next
  case al: True
  let ?s = "heap_up s"
  show ?thesis
  proof (cases "memory_cache s k")
    case (Some e)
    from ok have ok': "page_cache_ok E ?s" by simp
    from Some have e: "memory_cache ?s k = Some e" by simp
    obtain e' l h b where run: "run_state (validate_and_return_data E k e) ?s = (page_fetch E ?s k,
        ?s\<lparr>fault := b, heap_next := h, memory_cache_lru := l, memory_cache := (memory_cache ?s)(k \<mapsto> e')\<rparr>)"
      and l: "no_refresh ?s \<Longrightarrow> l = memory_cache_lru ?s"
      by (rule run_validate_and_return_data [OF ok' e]) (rule that)
    from e have "insert k (dom (memory_cache s)) = dom (memory_cache s)" by auto
    then show ?thesis
      using al Some ex l nr by (simp add: run_insert_hit run lru_exact_def)
  next
    case None
    show ?thesis
    proof (cases "beyond_memory s k (page_size s)")
      case True
      then show ?thesis using ok al None ex by (simp add: run_insert_beyond)
    next
      case False
      let ?r = "make_room (fetched k (page_size s) (heap_up (heap_up s)))"
      have "page_cache_ok E (fetched k (page_size s) (heap_up (heap_up s)))" using ok by simp
      note r = make_room(2,3) [OF this]
      have "memory_cache ?r k = None"
        using r(2) None by (auto simp: map_le_def dom_def)
      moreover have "memory_cache_size_max ?r = memory_cache_size_max s"
        using core_eqD(14) [OF r(1)] by simp
      ultimately have "lru_exact (store_entry k (new_entry E s k) ?r)"
        using lru_exact_make_room [of "fetched k (page_size s) (heap_up (heap_up s))"] ex mx by (simp add: lru_exact_store)
      then show ?thesis using ok al None False by (simp add: run_insert_miss)
    qed
  qed
qed

subsection \<open>Refreshing and destroying\<close>

definition lru_fresh :: "vmi \<Rightarrow> bool" where
  "lru_fresh s \<longleftrightarrow> (\<forall>x \<in> set (memory_cache_lru s). fst x < heap_next s)"

lemma g_list_remove_fresh:
  "(\<And>x. x \<in> set l \<Longrightarrow> fst x \<noteq> p) \<Longrightarrow> g_list_remove l p = l"
  by (induction l) auto

lemma insert_refresh_state:
  assumes ok: "page_cache_ok E s" and ex: "lru_exact s" and fr: "lru_fresh s"
    and al: "is_addr_aligned s k" and e: "memory_cache s k = Some e"
    and old: "memory_cache_age s \<noteq> 0" "uint (memory_cache_age s) < clock s - mc_last_updated e"
  defines "t \<equiv> snd (run_state (memory_cache_insert E k) s)"
  shows "memory_cache_lru t = (Suc (heap_next s), k) # memory_cache_lru s"
    and "memory_cache_size t = memory_cache_size s" and "dom (memory_cache t) = dom (memory_cache s)"
    and "k \<in> snd ` set (memory_cache_lru s)"
proof -
  have "backing_ready (heap_up s)" using ok 
    by (metis heap_up_simps(8) page_cache_ok_def)
  have o: "memory_cache_age (heap_up s) \<noteq> 0 \<and>
      uint (memory_cache_age (heap_up s)) < clock (heap_up s) - mc_last_updated e"
    using old by (simp add: heap_up_def)
  note run = run_validate_old [OF o \<open>backing_ready (heap_up s)\<close>, of E k]
  have g: "g_list_remove (memory_cache_lru s) (Suc (heap_next s)) = memory_cache_lru s"
    using fr by (intro g_list_remove_fresh) (auto simp: lru_fresh_def)
  have k: "mc_paddr e = k" using ok e by (simp add: page_cache_ok_def entries_ok_def)
  have h: "heap_next (heap_up s) = Suc (heap_next s)" by (simp add: heap_up_def)
  show "memory_cache_lru t = (Suc (heap_next s), k) # memory_cache_lru s"
    "memory_cache_size t = memory_cache_size s" "dom (memory_cache t) = dom (memory_cache s)"
    using e g k h by (auto simp: t_def run_insert_hit [OF al e] run)
  show "k \<in> snd ` set (memory_cache_lru s)"
    using ex e by (auto simp: lru_exact_def)
qed

lemma run_destroy:
  assumes ex: "lru_exact s"
  shows "run_state memory_cache_destroy s = ((), s\<lparr>memory_cache := Map.empty, memory_cache_lru := [],
    memory_cache_size := 0\<rparr>)"
proof -
  let ?s = "s\<lparr>memory_cache_size_max := 0\<rparr>"
  from ex have len: "unat (memory_cache_size s) = length (memory_cache_lru s)"
    and dom: "snd ` set (memory_cache_lru s) = dom (memory_cache s)" by (simp_all add: lru_exact_def)
  have x: "excess ?s = length (memory_cache_lru s)" using len by (simp add: excess_def)
  have d: "dropped ?s = memory_cache_lru s" and kk: "kept ?s = []"
    using x by (simp_all add: dropped_def kept_def)
  have "unat (memory_cache_size ?s) \<le> length (memory_cache_lru ?s)" using len by simp
  note run = run_clean_cache [OF this]
  have e: "(\<lambda>k. if k \<in> snd ` set (memory_cache_lru s) then None else memory_cache s k) = Map.empty"
    unfolding dom by (auto simp: domIff)
  have z: "memory_cache_size s - of_nat (length (memory_cache_lru s)) = 0"
    by (simp add: len [symmetric])
  show ?thesis
    using run by (simp add: memory_cache_destroy_def d kk x e z cong: if_cong)
qed

subsection \<open>Faults\<close>

lemma copy_out_of_bounds_wraps:
  assumes "backing_ready s" "copy_out_of_bounds s k n"
  shows "2 ^ 64 \<le> unat k + unat n"
proof (rule ccontr)
  assume "\<not> 2 ^ 64 \<le> unat k + unat n"
  then have "unat (k + ucast n) = unat k + unat n"
    by (simp add: unat_word_ariths unsigned_ucast_eq take_bit_eq_mod)
  moreover obtain bs where "file_map (fileinst s) = Some bs" "unat (vmi_size s) \<le> length bs"
    using assms by (auto simp: backing_ready_def copy_out_of_bounds_def)
  ultimately show False
    using assms(2) by (simp add: copy_out_of_bounds_def word_le_nat_alt)
qed

lemma fault_make_room: 
  assumes "page_cache_ok E s"
  shows "fault (make_room s) = fault s"
  using assms by (simp add: make_room_def page_cache_ok_def run_clean_cache)

lemma fault_insert:
  assumes ok: "page_cache_ok E s"
    and "fault (snd (run_state (memory_cache_insert E k) s))"
  shows "fault s \<or> copy_out_of_bounds s k (page_size s)"
proof (cases "is_addr_aligned s k")
  case False
  then show ?thesis using assms by (simp add: run_insert_unaligned)
next
  case al: True
  let ?s = "heap_up s"
  have h: "fault ?s = fault s" "copy_out_of_bounds ?s = copy_out_of_bounds s"
    by (simp_all add: heap_up_def copy_out_of_bounds_def fun_eq_iff)
  show ?thesis
  proof (cases "memory_cache s k")
    case (Some e)
    from ok have ok': "page_cache_ok E ?s" by simp
    from Some have e: "memory_cache ?s k = Some e" by simp
    obtain e' l h' b where run: "run_state (validate_and_return_data E k e) ?s = (page_fetch E ?s k,
        ?s\<lparr>fault := b, heap_next := h', memory_cache_lru := l, memory_cache := (memory_cache ?s)(k \<mapsto> e')\<rparr>)"
      and b: "b \<Longrightarrow> fault ?s \<or> copy_out_of_bounds ?s k (page_size ?s)"
      by (rule run_validate_and_return_data [OF ok' e]) (rule that)
    then show ?thesis
      using al Some assms(2) h by (simp add: run_insert_hit run)
  next
    case None
    show ?thesis
    proof (cases "beyond_memory s k (page_size s)")
      case True
      then show ?thesis using assms al None h by (simp add: run_insert_beyond)
    next
      case False
      have "page_cache_ok E (fetched k (page_size s) (heap_up ?s))" using ok by simp
      note fault_make_room [OF this]
      moreover have "fault (store_entry k e t) = fault t" for e t by (simp add: store_entry_def)
      ultimately show ?thesis
        using run_insert_miss [OF ok al None False] assms(2)
        by (simp add: fetched_def) (simp add: heap_up_def copy_out_of_bounds_def)
    qed
  qed
qed

subsection \<open>Sample states\<close>

text \<open>A file of the given bytes, mapped and with an empty cache.\<close>

definition file_vmi :: "u8 list \<Rightarrow> vmi" where
  "file_vmi bs = snd (run_state (memory_cache_init File 0xFFFFFFFFFFFFFFFF)
     (zeroed_vmi\<lparr>driver := Some File, page_shift := 12, page_size := 4096, vmi_size := of_nat (length bs),
       fileinst := \<lparr>file_fhandle = Some ''ram'', file_filename = Some ''ram'', file_map = Some bs\<rparr>\<rparr>))"

lemma file_vmi_fields [simp]:
  "page_shift (file_vmi bs) = 12" "page_size (file_vmi bs) = 4096"
  "vmi_size (file_vmi bs) = of_nat (length bs)" "hvm (file_vmi bs) = 0"
  "file_map (fileinst (file_vmi bs)) = Some bs" "get_data_callback (file_vmi bs) = Some File"
  "memory_cache (file_vmi bs) = Map.empty" "memory_cache_lru (file_vmi bs) = []"
  "memory_cache_size (file_vmi bs) = 0" "memory_cache_size_max (file_vmi bs) = 512"
  "memory_cache_age (file_vmi bs) = 0xFFFFFFFF" "fault (file_vmi bs) = False" "clock (file_vmi bs) = 0"
  "heap_next (file_vmi bs) = 0" "driver (file_vmi bs) = Some File"
  by (simp_all add: file_vmi_def memory_cache_init_def zeroed_vmi_def MAX_PAGE_CACHE_SIZE_def)

lemma file_vmi_ok: "page_cache_ok E (file_vmi bs)" "lru_exact (file_vmi bs)"
  "no_refresh (file_vmi bs)"
  by (simp_all add: page_cache_ok_def backing_ready_def entries_ok_def unat_of_nat
      lru_exact_def no_refresh_def)

lemma page_cache_ok_init:
  "backing_ready (s\<lparr>get_data_callback := Some cb\<rparr>) \<Longrightarrow>
    page_cache_ok E (snd (run_state (memory_cache_init cb age) s))"
  by (simp add: page_cache_ok_def backing_ready_def entries_ok_def memory_cache_init_def)

lemma lru_exact_init: "lru_exact (snd (run_state (memory_cache_init cb age) s))"
  by (simp add: lru_exact_def memory_cache_init_def MAX_PAGE_CACHE_SIZE_def)

lemma reads_insert: "reads (page_cache_ok E) core (memory_cache_insert E k)
    (\<lambda>s. if is_addr_aligned s k then page_fetch E s k else PNull)"
proof (rule readsI)
  fix s
  assume "page_cache_ok E s"
  moreover have "is_addr_aligned (core s) k = is_addr_aligned s k"
    by (simp add: is_addr_aligned_def aligned_addr_def)
  ultimately show "page_cache_ok E (snd (run_state (memory_cache_insert E k) s))
    \<and> core (snd (run_state (memory_cache_insert E k) s)) = core s
    \<and> fst (run_state (memory_cache_insert E k) s) =
      (if is_addr_aligned (core s) k then page_fetch E (core s) k else PNull)"
    using page_cache_ok_insert by simp
qed

text \<open>A page cached at time zero, looked at an hour later by a driver that refreshes every second.\<close>

definition stale_vmi :: vmi where
  "stale_vmi = (file_vmi (replicate 8192 7))\<lparr>memory_cache := [4096 \<mapsto>
     \<lparr>mc_paddr = 4096, mc_length = 4096, mc_last_updated = 0, mc_last_used = 0, mc_data = PNull\<rparr>],
   memory_cache_lru := [(0, 4096)], memory_cache_size := 1, heap_next := 1, memory_cache_age := 1,
   clock := 3600\<rparr>"

subsection \<open>Properties\<close>

text \<open>C5: A page obtained through the cache is the page a fresh fetch from the driver gives: whatever
the table holds, \<open>memory_cache_insert\<close> returns null for an address that is not page aligned and the
fetched page otherwise, keeps the cache consistent, changes nothing outside the caches, and runs
into an invalid access only for the last page of the 64-bit address space.\<close>

theorem page_cache_transparent:
  assumes "page_cache_ok E s" and "run_state (memory_cache_insert E k) s = (page, t)"
  shows "page = (if is_addr_aligned s k then page_fetch E s k else PNull)
    \<and> page_cache_ok E t \<and> core t = core s
    \<and> (fault t \<longrightarrow> fault s \<or> 2 ^ 64 \<le> unat k + unat (page_size s))"
  using assms page_cache_ok_insert [OF assms(1), of k] fault_insert [OF assms(1), of k]
    copy_out_of_bounds_wraps [of s k "page_size s"]
  by (auto simp: page_cache_ok_def)

lemma page_cache_transparent_witness:
  "fst (run_state (memory_cache_insert bare_env 4096) (file_vmi (replicate 9000 7)))
    = PCopy (replicate 4096 7)"
  using page_cache_transparent [OF file_vmi_ok(1) surjective_pairing,
      of bare_env 4096 "replicate 9000 7"]
  by (simp add: is_addr_aligned_def aligned_addr_def page_fetch_def beyond_memory_def memory_of_def)

text \<open>C10: As long as no entry is due for a refresh, the page cache stays exact and bounded: after
every \<open>memory_cache_insert\<close> the list holds each cached address once, the counter is the number of
cached pages, and that number is at most the maximum the cache was given.\<close>

theorem page_cache_bounded:
  assumes "page_cache_ok E s" and "lru_exact s" and "no_refresh s"
    and "0 < memory_cache_size_max s" and "run_state (memory_cache_insert E k) s = (page, t)"
  shows "lru_exact t \<and> card (dom (memory_cache t)) = length (memory_cache_lru t)
    \<and> card (dom (memory_cache t)) \<le> unat (memory_cache_size_max s)"
proof -
  have t: "lru_exact t" using lru_exact_insert [OF assms(1-4), of k] assms(5) by simp
  have "core t = core s" using page_cache_ok_insert [OF assms(1), of k] assms(5) by simp
  note core_eqD(14) [OF this]
  with t card_cached [OF t] show ?thesis by (simp add: lru_exact_def word_le_nat_alt)
qed

lemma page_cache_bounded_witness:
  "card (dom (memory_cache (snd (run_state (memory_cache_insert bare_env 4096)
      (file_vmi (replicate 9000 7)))))) \<le> 512"
  using page_cache_bounded [OF file_vmi_ok _ surjective_pairing, of "replicate 9000 7" bare_env 4096]
  by simp

text \<open>Refreshing an old entry corrupts the order list: \<open>g_list_remove\<close> compares pointers and is
given a pointer just allocated, so it removes nothing; the page is then listed twice and the list
is longer than the counter that bounds it.\<close>

theorem page_cache_refresh_drift:
  assumes "page_cache_ok E s" "lru_exact s" "lru_fresh s" "is_addr_aligned s k"
    and "memory_cache s k = Some e" and "memory_cache_age s \<noteq> 0"
    and "uint (memory_cache_age s) < clock s - mc_last_updated e"
    and "run_state (memory_cache_insert E k) s = (page, t)"
  shows "\<not> distinct (map snd (memory_cache_lru t))
    \<and> length (memory_cache_lru t) = Suc (unat (memory_cache_size t))"
proof -
  have t: "t = snd (run_state (memory_cache_insert E k) s)" by (simp add: assms(8))
  note st = insert_refresh_state [OF assms(1-7), folded t]
  show ?thesis using st assms(2) by (auto simp: lru_exact_def)
qed

lemma stale_vmi_ok:
  "page_cache_ok bare_env stale_vmi" "lru_exact stale_vmi" "lru_fresh stale_vmi"
  "is_addr_aligned stale_vmi 4096"
  by (auto simp: page_cache_ok_def lru_exact_def lru_fresh_def stale_vmi_def is_addr_aligned_def
      aligned_addr_def backing_ready_def entries_ok_def beyond_memory_def memory_of_def)

lemma page_cache_refresh_drift_witness:
  "length (memory_cache_lru (snd (run_state (memory_cache_insert bare_env 4096) stale_vmi)))
   = Suc (unat (memory_cache_size (snd (run_state (memory_cache_insert bare_env 4096) stale_vmi))))"
  by (rule page_cache_refresh_drift [OF stale_vmi_ok, where e = "the (memory_cache stale_vmi 4096)",
        OF _ _ _ surjective_pairing, THEN conjunct2])
    (simp_all add: stale_vmi_def)

text \<open>\<open>memory_cache_destroy\<close> of an exact cache empties the table, the list and the counter,
leaves the maximum as it was, and dereferences no null list element.\<close>

theorem page_cache_destroyed:
  assumes "lru_exact s"
  shows "run_state memory_cache_destroy s = ((), s\<lparr>memory_cache := Map.empty, memory_cache_lru := [],
    memory_cache_size := 0\<rparr>)"
  using assms by (rule run_destroy)

lemma page_cache_destroyed_witness:
  "memory_cache (snd (run_state memory_cache_destroy stale_vmi)) = Map.empty"
  by (simp add: page_cache_destroyed stale_vmi_ok)

end
