(* ===== verification/C_Strings.thy ===== *)
theory C_Strings
  imports Vmi_Prelude "HOL-Library.Char_ord"
begin

text \<open>
  The functions of the C library on strings that the code calls, with their documented behaviour
  in the C locale. A string is the list of its characters before the terminating zero.
\<close>

subsection \<open>Comparing and cutting\<close>

definition c_isspace :: "char \<Rightarrow> bool" where
  "c_isspace c \<longleftrightarrow> c = CHR '' '' \<or> (9 \<le> (of_char c :: nat) \<and> (of_char c :: nat) \<le> 13)"

text \<open>The string in a buffer: up to the first zero byte.\<close>

definition c_str :: "char list \<Rightarrow> string" where
  "c_str = takeWhile (\<lambda>c. c \<noteq> CHR 0x00)"

definition strndup :: "string \<Rightarrow> nat \<Rightarrow> string" where
  "strndup s n = take n s"

text \<open>\<open>strncmp\<close> is used only to test for zero, which is equality of the first \<open>n\<close> characters.\<close>

definition strncmp_eq :: "nat \<Rightarrow> string \<Rightarrow> string \<Rightarrow> bool" where
  "strncmp_eq n a b \<longleftrightarrow> take n a = take n b"

text \<open>
  \<open>strcmp\<close> orders strings by their first different byte, as unsigned numbers; a prefix comes first.
\<close>

fun strcmp :: "u8 list \<Rightarrow> u8 list \<Rightarrow> int" where
  "strcmp [] [] = 0"
| "strcmp [] (b # bs) = -1"
| "strcmp (a # as) [] = 1"
| "strcmp (a # as) (b # bs) = (if a = b then strcmp as bs else if a < b then -1 else 1)"

text \<open>
  \<open>fgets\<close> with a buffer of \<open>n\<close> bytes: what it stores before the terminating zero, and the rest of the
  file. It stops after a newline.
\<close>

definition fgets :: "nat \<Rightarrow> string \<Rightarrow> (string \<times> string) option" where
  "fgets n f = (if f = [] then None
     else let k = min (n - 1) (Suc (length (takeWhile (\<lambda>c. c \<noteq> CHR 0x0A) f)))
       in Some (take k f, drop k f))"

text \<open>The part after the last occurrence of a character, if there is one (\<open>strrchr\<close> plus one).\<close>

fun strrchr_after :: "char \<Rightarrow> string \<Rightarrow> string option" where
  "strrchr_after c [] = None"
| "strrchr_after c (x # xs) = (case strrchr_after c xs of
     Some r \<Rightarrow> Some r
   | None \<Rightarrow> if x = c then Some xs else None)"

definition bytes_of :: "string \<Rightarrow> u8 list" where
  "bytes_of s = map (\<lambda>c. of_nat (of_char c)) s"

definition chars_of :: "u8 list \<Rightarrow> char list" where
  "chars_of bs = map (\<lambda>b. char_of (unat b)) bs"

subsection \<open>Numbers\<close>

definition digit_val :: "nat \<Rightarrow> char \<Rightarrow> nat option" where
  "digit_val base c = (let x = of_char c :: nat;
     d = (if 48 \<le> x \<and> x \<le> 57 then x - 48
          else if 97 \<le> x \<and> x \<le> 122 then x - 87
          else if 65 \<le> x \<and> x \<le> 90 then x - 55 else base)
     in if d < base then Some d else None)"

fun digits_acc :: "nat \<Rightarrow> nat \<Rightarrow> string \<Rightarrow> nat" where
  "digits_acc base acc [] = acc"
| "digits_acc base acc (c # cs) = (case digit_val base c of
     None \<Rightarrow> acc
   | Some d \<Rightarrow> digits_acc base (acc * base + d) cs)"

definition sign_split :: "string \<Rightarrow> bool \<times> string" where
  "sign_split s = (case s of
     c # cs \<Rightarrow> if c = CHR ''-'' then (True, cs) else if c = CHR ''+'' then (False, cs) else (False, s)
   | [] \<Rightarrow> (False, s))"

text \<open>\<open>strtol(s, NULL, 10)\<close>: out of range values are clamped to those of a 64-bit \<open>long\<close>.\<close>

definition strtol10 :: "string \<Rightarrow> int" where
  "strtol10 s = (let (neg, r) = sign_split (dropWhile c_isspace s);
     n = int (digits_acc 10 0 r); v = (if neg then - n else n)
     in max (- (2 ^ 63)) (min (2 ^ 63 - 1) v))"

definition atoi :: "string \<Rightarrow> u32" where
  "atoi s = of_int (strtol10 s)"

text \<open>\<open>strtoull(s, NULL, 16)\<close>: an optional prefix \<open>0x\<close>, and the maximum if it does not fit.\<close>

definition hex_prefix :: "string \<Rightarrow> string" where
  "hex_prefix s = (case s of
     a # b # c # r \<Rightarrow> if a = CHR ''0'' \<and> (b = CHR ''x'' \<or> b = CHR ''X'') \<and> digit_val 16 c \<noteq> None
       then c # r else s
   | _ \<Rightarrow> s)"

definition strtoull16 :: "string \<Rightarrow> u64" where
  "strtoull16 s = (let (neg, r) = sign_split (dropWhile c_isspace s);
     n = digits_acc 16 0 (hex_prefix r)
     in if 2 ^ 64 \<le> n then - 1 else if neg then - of_nat n else of_nat n)"

text \<open>\<open>%d\<close> of \<open>printf\<close>: the argument is read as a 32-bit signed integer.\<close>

definition digit_char :: "nat \<Rightarrow> char" where
  "digit_char d = char_of (48 + d)"

fun dec_nat :: "nat \<Rightarrow> string" where
  "dec_nat n = (if n < 10 then [digit_char n] else dec_nat (n div 10) @ [digit_char (n mod 10)])"

declare dec_nat.simps [simp del]

definition fmt_d :: "u64 \<Rightarrow> string" where
  "fmt_d x = (let i = sint (ucast x :: u32)
     in if i < 0 then CHR ''-'' # dec_nat (nat (- i)) else dec_nat (nat i))"

subsection \<open>The order of strings\<close>

lemma strcmp_eq: "strcmp a b = 0 \<longleftrightarrow> a = b"
  by (induction a b rule: strcmp.induct) auto

lemma strcmp_swap: "strcmp b a = - strcmp a b"
  by (induction a b rule: strcmp.induct) auto

lemma strcmp_trans: "strcmp a b < 0 \<Longrightarrow> strcmp b c < 0 \<Longrightarrow> strcmp a c < 0"
proof (induction a b arbitrary: c rule: strcmp.induct)
  case (2 b bs)
  then show ?case by (cases c) auto
next
  case (4 a as b bs)
  then show ?case by (cases c) (auto split: if_splits)
qed auto

lemma fgets_shorter: "1 < n \<Longrightarrow> fgets n f = Some (l, r) \<Longrightarrow> length r < length f"
  by (cases f) (auto simp: fgets_def Let_def)

subsection \<open>Reading back a printed number\<close>

lemma digit_val_digit_char: "d < 10 \<Longrightarrow> digit_val 10 (digit_char d) = Some d"
  by (simp add: digit_val_def digit_char_def Let_def)

lemma digits_acc_append_digit:
  "(\<And>c. c \<in> set s \<Longrightarrow> digit_val b c \<noteq> None) \<Longrightarrow>
    digits_acc b acc (s @ t) = digits_acc b (digits_acc b acc s) t"
proof (induction s arbitrary: acc)
  case Nil
  then show ?case by simp
next
  case (Cons c s)
  from Cons.prems [of c] obtain d where "digit_val b c = Some d" by auto
  with Cons show ?case by simp
qed

lemma set_dec_nat: "c \<in> set (dec_nat n) \<Longrightarrow> \<exists>d < 10. c = digit_char d"
proof (induction n rule: dec_nat.induct)
  case (1 n)
  show ?case
  proof (cases "n < 10 \<or> c \<notin> set (dec_nat (n div 10))")
    case True
    with "1.prems" have "c = digit_char (n mod 10)"
      by (auto simp: dec_nat.simps [of n] split: if_splits)
    then show ?thesis by (intro exI [of _ "n mod 10"]) simp
  next
    case False
    with "1.IH" show ?thesis by simp
  qed
qed

lemma dec_nat_ne: "dec_nat n \<noteq> []"
  by (simp add: dec_nat.simps [of n])

lemma digits_acc_dec_nat: "digits_acc 10 0 (dec_nat n) = n"
proof (induction n rule: dec_nat.induct)
  case (1 n)
  show ?case
  proof (cases "n < 10")
    case True
    then show ?thesis by (simp add: dec_nat.simps [of n] digit_val_digit_char)
  next
    case False
    have "digit_val 10 c \<noteq> None" if "c \<in> set (dec_nat (n div 10))" for c
      using set_dec_nat [OF that] by (auto simp: digit_val_digit_char)
    note digits_acc_append_digit [OF this, of "dec_nat (n div 10)"]
    with False "1.IH" show ?thesis
      by (simp add: dec_nat.simps [of n] digit_val_digit_char)
  qed
qed

lemma digit_char_cases:
  assumes "d < 10"
  shows "\<not> c_isspace (digit_char d) \<and> digit_char d \<noteq> CHR ''-'' \<and> digit_char d \<noteq> CHR ''+''"
proof -
  have x: "(of_char (digit_char d) :: nat) = 48 + d" using assms by (simp add: digit_char_def)
  then have "digit_char d \<noteq> c" if "(of_char c :: nat) < 48" for c
    using that by auto
  then show ?thesis using x by (auto simp: c_isspace_def)
qed

lemma dec_nat_Cons: obtains d r where "dec_nat n = digit_char d # r" "d < 10"
  using set_dec_nat [of "hd (dec_nat n)" n] dec_nat_ne [of n] by (cases "dec_nat n") auto

lemma strtol10_dec_nat:
  assumes "n < 2 ^ 63"
  shows "strtol10 (dec_nat n) = int n"
proof -
  obtain d r where d: "dec_nat n = digit_char d # r" "d < 10" by (rule dec_nat_Cons)
  then have "sign_split (dropWhile c_isspace (dec_nat n)) = (False, dec_nat n)"
    using digit_char_cases [of d] by (simp add: sign_split_def)
  then show ?thesis using assms by (simp add: strtol10_def digits_acc_dec_nat)
qed

lemma strtol10_minus_dec_nat:
  assumes "n < 2 ^ 63"
  shows "strtol10 (CHR ''-'' # dec_nat n) = - int n"
proof -
  have "sign_split (dropWhile c_isspace (CHR ''-'' # dec_nat n)) = (True, dec_nat n)"
    by (simp add: c_isspace_def sign_split_def)
  then show ?thesis using assms by (simp add: strtol10_def digits_acc_dec_nat)
qed

text \<open>What \<open>%d\<close> prints, \<open>atoi\<close> reads back: the low 32 bits of the number.\<close>

lemma atoi_fmt_d: "atoi (fmt_d x) = ucast x"
proof -
  let ?i = "sint (ucast x :: u32)"
  have r: "- 2147483648 \<le> ?i" "?i < 2147483648"
    using sint_greater_eq [of "ucast x :: u32"] sint_less [of "ucast x :: u32"] by simp_all
  have "strtol10 (fmt_d x) = ?i"
  proof (cases "?i < 0")
    case True
    have "nat (- ?i) < 2 ^ 63" using True r by (simp add: nat_less_iff)
    from strtol10_minus_dec_nat [OF this] True show ?thesis by (simp add: fmt_d_def Let_def)
  next
    case False
    have "nat ?i < 2 ^ 63" using False r by (simp add: nat_less_iff)
    from strtol10_dec_nat [OF this] False show ?thesis by (simp add: fmt_d_def Let_def)
  qed
  then show ?thesis by (simp add: atoi_def)
qed

end
