(* ===== verification/Drivers.thy ===== *)
theory Drivers
  imports Page_Cache C_Strings
begin

text \<open>
  The back ends: \<^verbatim>\<open>driver/file.c\<close>, \<^verbatim>\<open>driver/xen.c\<close> and the stubs that stand for \<^verbatim>\<open>driver/kvm.c\<close> when
  KVM is not configured. An output parameter is passed in with its old value and returned with its
  new one.
\<close>

unbundle bit_operations_syntax

subsection \<open>driver/file.c\<close>

definition file_upd :: "(file_instance \<Rightarrow> file_instance) \<Rightarrow> unit vm" where
  "file_upd f = do { _ \<leftarrow> file_get_instance; modify (\<lambda>s. s\<lparr>fileinst := f (fileinst s)\<rparr>) }"

definition file_destroy :: "unit vm" where
  "file_destroy = do {
     file_upd (\<lambda>fi. fi\<lparr>file_map := None\<rparr>);
     file_upd (\<lambda>fi. fi\<lparr>file_fhandle := None\<rparr>) }"

text \<open>\<open>fi->fd\<close> is the descriptor of \<open>fhandle\<close>, and 0 when there is none.\<close>

definition file_get_memsize :: "env \<Rightarrow> u64 \<Rightarrow> (status_t \<times> u64) vm" where
  "file_get_memsize E sz = do {
     fi \<leftarrow> file_get_instance;
     return (case file_fhandle fi of
       None \<Rightarrow> (case stdin_size E of None \<Rightarrow> (VMI_FAILURE, sz) | Some n \<Rightarrow> (VMI_SUCCESS, n))
     | Some name \<Rightarrow> (case host_file E name of
         None \<Rightarrow> (VMI_FAILURE, sz)
       | Some bs \<Rightarrow> (VMI_SUCCESS, of_nat (length bs)))) }"

text \<open>
  \<open>fopen\<close> of a null name is an invalid access. The descriptor just opened can be examined, and
  mapping fails for an empty file.
\<close>

definition file_init :: "env \<Rightarrow> status_t vm" where
  "file_init E = do {
     fi \<leftarrow> file_get_instance;
     (case file_filename fi of
       None \<Rightarrow> raise_fault VMI_FAILURE
     | Some name \<Rightarrow> (case host_file E name of
         None \<Rightarrow> do { file_destroy; return VMI_FAILURE }
       | Some bs \<Rightarrow> do {
           file_upd (\<lambda>fi. fi\<lparr>file_fhandle := Some name\<rparr>);
           memory_cache_init File 0xFFFFFFFFFFFFFFFF;
           (st, sz) \<leftarrow> file_get_memsize E 0;
           if st = VMI_FAILURE then do { file_destroy; return VMI_FAILURE }
           else if sz = 0 \<or> \<not> host_mmap E name then do { file_destroy; return VMI_FAILURE }
           else do {
             file_upd (\<lambda>fi. fi\<lparr>file_map := Some bs\<rparr>);
             modify (\<lambda>s. s\<lparr>hvm := 0\<rparr>);
             return VMI_SUCCESS } })) }"

definition file_get_name :: "(status_t \<times> string option) vm" where
  "file_get_name = do {
     fi \<leftarrow> file_get_instance;
     (if file_filename fi = None then raise_fault () else return ());
     return (VMI_SUCCESS, file_filename fi) }"

definition file_set_name :: "string option \<Rightarrow> unit vm" where
  "file_set_name name = (case name of
     None \<Rightarrow> raise_fault ()
   | Some n \<Rightarrow> file_upd (\<lambda>fi. fi\<lparr>file_filename := Some (strndup n 500)\<rparr>))"

definition file_get_vcpureg :: "reg_t \<Rightarrow> registers_t \<Rightarrow> u64 \<Rightarrow> (status_t \<times> reg_t) vm" where
  "file_get_vcpureg v reg vcpu = do {
     s \<leftarrow> State_Monad.get;
     return (case reg of
       CR3 \<Rightarrow> if kpgd s \<noteq> 0 then (VMI_SUCCESS, kpgd s)
              else if cr3 s \<noteq> 0 then (VMI_SUCCESS, cr3 s)
              else (VMI_FAILURE, v)
     | _ \<Rightarrow> (VMI_FAILURE, v)) }"

definition file_read_page :: "env \<Rightarrow> addr_t \<Rightarrow> page_data vm" where
  "file_read_page E page = do {
     shift \<leftarrow> gets page_shift;
     let paddr = push_bit (unat shift) page;
     memory_cache_insert E paddr }"

definition file_write :: "addr_t \<Rightarrow> u8 list \<Rightarrow> u32 \<Rightarrow> status_t vm" where
  "file_write paddr buf len = return VMI_FAILURE"

definition file_is_pv :: "cint vm" where
  "file_is_pv = return 0"

text \<open>\<open>file_test\<close> asks whether the name is that of a file that can be opened and is not empty.\<close>

definition file_test :: "env \<Rightarrow> u64 \<Rightarrow> string option \<Rightarrow> status_t" where
  "file_test E did name = (case name of
     None \<Rightarrow> VMI_FAILURE
   | Some n \<Rightarrow> (case host_file E n of
       None \<Rightarrow> VMI_FAILURE
     | Some bs \<Rightarrow> if bs = [] then VMI_FAILURE else VMI_SUCCESS))"

definition file_pause_vm :: "status_t vm" where
  "file_pause_vm = return VMI_SUCCESS"

definition file_resume_vm :: "status_t vm" where
  "file_resume_vm = return VMI_SUCCESS"

subsection \<open>driver/xen.c: domains\<close>

definition xen_upd :: "(xen_instance \<Rightarrow> xen_instance) \<Rightarrow> unit vm" where
  "xen_upd f = do { _ \<leftarrow> xen_get_instance; modify (\<lambda>s. s\<lparr>xeninst := f (xeninst s)\<rparr>) }"

definition xen_set_domainid :: "u64 \<Rightarrow> unit vm" where
  "xen_set_domainid did = xen_upd (\<lambda>xi. xi\<lparr>xen_domainid := did\<rparr>)"

text \<open>
  The loop of \<open>xen_get_domainid_from_name\<close>. The path is cut to the size of \<open>tmp\<close>, and comparing with
  a null name is an invalid access.
\<close>

fun domain_loop :: "env \<Rightarrow> string option \<Rightarrow> string list \<Rightarrow> u64 vm" where
  "domain_loop E name [] = return 0"
| "domain_loop E name (did # dids) = (
     let tmp = take 99 (''/local/domain/'' @ did @ ''/name'')
     in case xs_read E tmp of
       None \<Rightarrow> domain_loop E name dids
     | Some candidate \<Rightarrow> (case name of
         None \<Rightarrow> raise_fault 0
       | Some n \<Rightarrow> if strncmp_eq 100 n candidate then return (scast (atoi did))
           else domain_loop E name dids))"

definition xen_get_domainid_from_name :: "env \<Rightarrow> string option \<Rightarrow> u64 vm" where
  "xen_get_domainid_from_name E name =
     (if \<not> xs_open E then return 0 else domain_loop E name (xs_directory E ''/local/domain''))"

definition xen_discover_guest_addr_width :: "env \<Rightarrow> status_t vm" where
  "xen_discover_guest_addr_width E = do {
     xen_upd (\<lambda>xi. xi\<lparr>xen_addr_width := 0\<rparr>);
     xi \<leftarrow> xen_get_instance;
     if xen_hvm xi \<noteq> 0 then
       (case hvm_ctx E (xen_domainid xi) 0 of
         None \<Rightarrow> return VMI_FAILURE
       | Some ctx \<Rightarrow> do {
           xen_upd (\<lambda>xi. xi\<lparr>xen_addr_width := (if vmi_get_bit (ctx ''msr_efer'') 8 = 0 then 4 else 8)\<rparr>);
           return VMI_SUCCESS })
     else
       (case xc_address_size E (xen_domainid xi) of
         None \<Rightarrow> return VMI_FAILURE
       | Some sz \<Rightarrow> do {
           xen_upd (\<lambda>xi. xi\<lparr>xen_addr_width := ucast (sz div 8)\<rparr>);
           xi \<leftarrow> xen_get_instance;
           if xen_addr_width xi \<noteq> 8 \<and> xen_addr_width xi \<noteq> 4 then return VMI_FAILURE
           else return VMI_SUCCESS }) }"

definition xen_init :: "env \<Rightarrow> status_t vm" where
  "xen_init E =
     (if \<not> xc_open E then return VMI_FAILURE
      else do {
        xen_upd (\<lambda>xi. xi\<lparr>xen_xchandle := True\<rparr>);
        domid \<leftarrow> xen_get_domainid;
        (case xc_getinfo_hvm E domid of
          None \<Rightarrow> return VMI_FAILURE
        | Some info_hvm \<Rightarrow> do {
            xen_upd (\<lambda>xi. xi\<lparr>xen_xshandle := xs_open E\<rparr>);
            if \<not> xs_open E then return VMI_FAILURE
            else do {
              xen_upd (\<lambda>xi. xi\<lparr>xen_hvm := info_hvm\<rparr>);
              modify (\<lambda>s. s\<lparr>hvm := info_hvm\<rparr>);
              memory_cache_init Xen 0;
              xen_discover_guest_addr_width E } }) })"

definition xen_destroy :: "unit vm" where
  "xen_destroy = xen_upd (\<lambda>xi. xi\<lparr>xen_domainid := 0\<rparr>)"

text \<open>
  \<open>xen_get_domainname\<close> tests its parameter \<open>name\<close> for null, not the pointer it has stored there,
  so it succeeds for a domain that does not exist.
\<close>

definition xen_get_domainname :: "env \<Rightarrow> (status_t \<times> string option) vm" where
  "xen_get_domainname E = do {
     domid \<leftarrow> xen_get_domainid;
     let tmp = take 99 (''/local/domain/'' @ fmt_d domid @ ''/name'');
     return (VMI_SUCCESS, xs_read E tmp) }"

definition xen_set_domainname :: "string option \<Rightarrow> unit vm" where
  "xen_set_domainname name = (case name of
     None \<Rightarrow> raise_fault ()
   | Some n \<Rightarrow> xen_upd (\<lambda>xi. xi\<lparr>xen_name := Some (strndup n 500)\<rparr>))"

definition xen_get_memsize :: "env \<Rightarrow> u64 \<Rightarrow> (status_t \<times> u64) vm" where
  "xen_get_memsize E sz = do {
     domid \<leftarrow> xen_get_domainid;
     let path = take 99 (''/local/domain/'' @ fmt_d domid @ ''/memory/target'');
     return (case xs_read E path of
       None \<Rightarrow> (VMI_FAILURE, sz)
     | Some tmp \<Rightarrow> (let sz = of_int (strtol10 tmp) * 1024
         in if errno_after E tmp then (VMI_FAILURE, sz) else (VMI_SUCCESS, sz))) }"

subsection \<open>driver/xen.c: registers\<close>

text \<open>
  The member of the saved context a register is read from. Every enumerator has one for an HVM
  guest, so the \<open>default\<close> branch is never taken there.
\<close>

definition hvm_field :: "env \<Rightarrow> registers_t \<Rightarrow> string option" where
  "hvm_field E reg = (case reg of
     RAX \<Rightarrow> Some ''rax''
   | RBX \<Rightarrow> Some ''rbx''
   | RCX \<Rightarrow> Some ''rcx''
   | RDX \<Rightarrow> Some ''rdx''
   | RBP \<Rightarrow> Some ''rbp''
   | RSI \<Rightarrow> Some ''rsi''
   | RDI \<Rightarrow> Some ''rdi''
   | RSP \<Rightarrow> Some ''rsp''
   | R8 \<Rightarrow> Some ''r8''
   | R9 \<Rightarrow> Some ''r9''
   | R10 \<Rightarrow> Some ''r10''
   | R11 \<Rightarrow> Some ''r11''
   | R12 \<Rightarrow> Some ''r12''
   | R13 \<Rightarrow> Some ''r13''
   | R14 \<Rightarrow> Some ''r14''
   | R15 \<Rightarrow> Some ''r15''
   | RIP \<Rightarrow> Some ''rip''
   | RFLAGS \<Rightarrow> Some ''rflags''
   | CR0 \<Rightarrow> Some ''cr0''
   | CR2 \<Rightarrow> Some ''cr2''
   | CR3 \<Rightarrow> Some ''cr3''
   | CR4 \<Rightarrow> Some ''cr4''
   | DR0 \<Rightarrow> Some ''dr0''
   | DR1 \<Rightarrow> Some ''dr1''
   | DR2 \<Rightarrow> Some ''dr2''
   | DR3 \<Rightarrow> Some ''dr3''
   | DR6 \<Rightarrow> Some ''dr6''
   | DR7 \<Rightarrow> Some ''dr7''
   | CS_SEL \<Rightarrow> Some ''cs_sel''
   | DS_SEL \<Rightarrow> Some ''ds_sel''
   | ES_SEL \<Rightarrow> Some ''es_sel''
   | FS_SEL \<Rightarrow> Some ''fs_sel''
   | GS_SEL \<Rightarrow> Some ''gs_sel''
   | SS_SEL \<Rightarrow> Some ''ss_sel''
   | TR_SEL \<Rightarrow> Some ''tr_sel''
   | LDTR_SEL \<Rightarrow> Some ''ldtr_sel''
   | CS_LIMIT \<Rightarrow> Some ''cs_limit''
   | DS_LIMIT \<Rightarrow> Some ''ds_limit''
   | ES_LIMIT \<Rightarrow> Some ''es_limit''
   | FS_LIMIT \<Rightarrow> Some ''fs_limit''
   | GS_LIMIT \<Rightarrow> Some ''gs_limit''
   | SS_LIMIT \<Rightarrow> Some ''ss_limit''
   | TR_LIMIT \<Rightarrow> Some ''tr_limit''
   | LDTR_LIMIT \<Rightarrow> Some ''ldtr_limit''
   | IDTR_LIMIT \<Rightarrow> Some ''idtr_limit''
   | GDTR_LIMIT \<Rightarrow> Some ''gdtr_limit''
   | CS_BASE \<Rightarrow> Some ''cs_base''
   | DS_BASE \<Rightarrow> Some ''ds_base''
   | ES_BASE \<Rightarrow> Some ''es_base''
   | FS_BASE \<Rightarrow> Some ''fs_base''
   | GS_BASE \<Rightarrow> Some ''gs_base''
   | SS_BASE \<Rightarrow> Some ''ss_base''
   | TR_BASE \<Rightarrow> Some ''tr_base''
   | LDTR_BASE \<Rightarrow> Some ''ldtr_base''
   | IDTR_BASE \<Rightarrow> Some ''idtr_base''
   | GDTR_BASE \<Rightarrow> Some ''gdtr_base''
   | CS_ARBYTES \<Rightarrow> Some ''cs_arbytes''
   | DS_ARBYTES \<Rightarrow> Some ''ds_arbytes''
   | ES_ARBYTES \<Rightarrow> Some ''es_arbytes''
   | FS_ARBYTES \<Rightarrow> Some ''fs_arbytes''
   | GS_ARBYTES \<Rightarrow> Some ''gs_arbytes''
   | SS_ARBYTES \<Rightarrow> Some ''ss_arbytes''
   | TR_ARBYTES \<Rightarrow> Some ''tr_arbytes''
   | LDTR_ARBYTES \<Rightarrow> Some ''ldtr_arbytes''
   | SYSENTER_CS \<Rightarrow> Some ''sysenter_cs''
   | SYSENTER_ESP \<Rightarrow> Some ''sysenter_esp''
   | SYSENTER_EIP \<Rightarrow> Some ''sysenter_eip''
   | SHADOW_GS \<Rightarrow> Some ''shadow_gs''
   | MSR_FLAGS \<Rightarrow> Some ''msr_flags''
   | MSR_LSTAR \<Rightarrow> Some ''msr_lstar''
   | MSR_CSTAR \<Rightarrow> Some ''msr_cstar''
   | MSR_SYSCALL_MASK \<Rightarrow> Some ''msr_syscall_mask''
   | MSR_EFER \<Rightarrow> Some ''msr_efer''
   | MSR_TSC_AUX \<Rightarrow> if hvm_compat E then Some ''msr_tsc_aux'' else None
   | TSC \<Rightarrow> Some ''tsc'')"


definition pv64_field :: "registers_t \<Rightarrow> string option" where
  "pv64_field reg = (case reg of
     RAX \<Rightarrow> Some ''user_regs.rax''
   | RBX \<Rightarrow> Some ''user_regs.rbx''
   | RCX \<Rightarrow> Some ''user_regs.rcx''
   | RDX \<Rightarrow> Some ''user_regs.rdx''
   | RBP \<Rightarrow> Some ''user_regs.rbp''
   | RSI \<Rightarrow> Some ''user_regs.rsi''
   | RDI \<Rightarrow> Some ''user_regs.rdi''
   | RSP \<Rightarrow> Some ''user_regs.rsp''
   | R8 \<Rightarrow> Some ''user_regs.r8''
   | R9 \<Rightarrow> Some ''user_regs.r9''
   | R10 \<Rightarrow> Some ''user_regs.r10''
   | R11 \<Rightarrow> Some ''user_regs.r11''
   | R12 \<Rightarrow> Some ''user_regs.r12''
   | R13 \<Rightarrow> Some ''user_regs.r13''
   | R14 \<Rightarrow> Some ''user_regs.r14''
   | R15 \<Rightarrow> Some ''user_regs.r15''
   | RIP \<Rightarrow> Some ''user_regs.rip''
   | RFLAGS \<Rightarrow> Some ''user_regs.rflags''
   | CR0 \<Rightarrow> Some ''ctrlreg[0]''
   | CR2 \<Rightarrow> Some ''ctrlreg[2]''
   | CR3 \<Rightarrow> Some ''ctrlreg[3]''
   | CR4 \<Rightarrow> Some ''ctrlreg[4]''
   | DR0 \<Rightarrow> Some ''debugreg[0]''
   | DR1 \<Rightarrow> Some ''debugreg[1]''
   | DR2 \<Rightarrow> Some ''debugreg[2]''
   | DR3 \<Rightarrow> Some ''debugreg[3]''
   | DR6 \<Rightarrow> Some ''debugreg[6]''
   | DR7 \<Rightarrow> Some ''debugreg[7]''
   | FS_BASE \<Rightarrow> Some ''fs_base''
   | GS_BASE \<Rightarrow> Some ''gs_base_kernel''
   | LDTR_BASE \<Rightarrow> Some ''ldt_base''
   | _ \<Rightarrow> None)"

definition pv32_field :: "registers_t \<Rightarrow> string option" where
  "pv32_field reg = (case reg of
     RAX \<Rightarrow> Some ''user_regs.eax''
   | RBX \<Rightarrow> Some ''user_regs.ebx''
   | RCX \<Rightarrow> Some ''user_regs.ecx''
   | RDX \<Rightarrow> Some ''user_regs.edx''
   | RBP \<Rightarrow> Some ''user_regs.ebp''
   | RSI \<Rightarrow> Some ''user_regs.esi''
   | RDI \<Rightarrow> Some ''user_regs.edi''
   | RSP \<Rightarrow> Some ''user_regs.esp''
   | RIP \<Rightarrow> Some ''user_regs.eip''
   | RFLAGS \<Rightarrow> Some ''user_regs.eflags''
   | CR0 \<Rightarrow> Some ''ctrlreg[0]''
   | CR2 \<Rightarrow> Some ''ctrlreg[2]''
   | CR3 \<Rightarrow> Some ''ctrlreg[3]''
   | CR4 \<Rightarrow> Some ''ctrlreg[4]''
   | DR0 \<Rightarrow> Some ''debugreg[0]''
   | DR1 \<Rightarrow> Some ''debugreg[1]''
   | DR2 \<Rightarrow> Some ''debugreg[2]''
   | DR3 \<Rightarrow> Some ''debugreg[3]''
   | DR6 \<Rightarrow> Some ''debugreg[6]''
   | DR7 \<Rightarrow> Some ''debugreg[7]''
   | LDTR_BASE \<Rightarrow> Some ''ldt_base''
   | _ \<Rightarrow> None)"

definition xen_get_vcpureg_hvm :: "env \<Rightarrow> reg_t \<Rightarrow> registers_t \<Rightarrow> u64 \<Rightarrow> (status_t \<times> reg_t) vm" where
  "xen_get_vcpureg_hvm E v reg vcpu = do {
     domid \<leftarrow> xen_get_domainid;
     return (case hvm_ctx E domid vcpu of
       None \<Rightarrow> (VMI_FAILURE, v)
     | Some ctx \<Rightarrow> (case hvm_field E reg of
         None \<Rightarrow> (VMI_FAILURE, v)
       | Some f \<Rightarrow> (VMI_SUCCESS, ctx f))) }"

text \<open>The conversions of \<^verbatim>\<open>driver/xen.h\<close> between a guest's saved CR3 and a frame number.\<close>

definition xen_cr3_to_pfn_x86_64 :: "u64 \<Rightarrow> u64" where
  "xen_cr3_to_pfn_x86_64 x = drop_bit 12 x"

definition xen_pfn_to_cr3_x86_64 :: "u64 \<Rightarrow> u64" where
  "xen_pfn_to_cr3_x86_64 pfn = push_bit 12 pfn"

definition xen_cr3_to_pfn_x86_32 :: "u64 \<Rightarrow> u32" where
  "xen_cr3_to_pfn_x86_32 x = drop_bit 12 (ucast x :: u32) OR push_bit 20 (ucast x :: u32)"

definition xen_pfn_to_cr3_x86_32 :: "u64 \<Rightarrow> u32" where
  "xen_pfn_to_cr3_x86_32 pfn = push_bit 12 (ucast pfn :: u32) OR drop_bit 20 (ucast pfn :: u32)"

definition xen_get_vcpureg_pv64 :: "env \<Rightarrow> reg_t \<Rightarrow> registers_t \<Rightarrow> u64 \<Rightarrow> (status_t \<times> reg_t) vm" where
  "xen_get_vcpureg_pv64 E v reg vcpu = do {
     domid \<leftarrow> xen_get_domainid;
     return (case pv_ctx E domid vcpu of
       None \<Rightarrow> (VMI_FAILURE, v)
     | Some ctx \<Rightarrow> (case pv64_field reg of
         None \<Rightarrow> (VMI_FAILURE, v)
       | Some f \<Rightarrow> (VMI_SUCCESS,
           if reg = CR3 then push_bit 12 (xen_cr3_to_pfn_x86_64 (ctx f)) else ctx f))) }"

definition xen_get_vcpureg_pv32 :: "env \<Rightarrow> reg_t \<Rightarrow> registers_t \<Rightarrow> u64 \<Rightarrow> (status_t \<times> reg_t) vm" where
  "xen_get_vcpureg_pv32 E v reg vcpu = do {
     domid \<leftarrow> xen_get_domainid;
     return (case pv_ctx E domid vcpu of
       None \<Rightarrow> (VMI_FAILURE, v)
     | Some ctx \<Rightarrow> (case pv32_field reg of
         None \<Rightarrow> (VMI_FAILURE, v)
       | Some f \<Rightarrow> (VMI_SUCCESS,
           if reg = CR3 then push_bit 12 (ucast (xen_cr3_to_pfn_x86_32 (ctx f))) else ctx f))) }"

definition xen_get_vcpureg :: "env \<Rightarrow> reg_t \<Rightarrow> registers_t \<Rightarrow> u64 \<Rightarrow> (status_t \<times> reg_t) vm" where
  "xen_get_vcpureg E v reg vcpu = do {
     xi \<leftarrow> xen_get_instance;
     if xen_hvm xi \<noteq> 0 then xen_get_vcpureg_hvm E v reg vcpu
     else if xen_addr_width xi = 8 then xen_get_vcpureg_pv64 E v reg vcpu
     else xen_get_vcpureg_pv32 E v reg vcpu }"

definition xen_get_address_width :: "u8 \<Rightarrow> (status_t \<times> u8) vm" where
  "xen_get_address_width width = do { xi \<leftarrow> xen_get_instance; return (VMI_SUCCESS, xen_addr_width xi) }"

subsection \<open>driver/xen.c: memory\<close>

text \<open>The bytes of the guest at a physical address, and the memory after a store.\<close>

definition mem_read :: "(addr_t \<Rightarrow> u8) \<Rightarrow> addr_t \<Rightarrow> nat \<Rightarrow> u8 list" where
  "mem_read m a n = map (\<lambda>i. m (a + of_nat i)) [0..<n]"

definition mem_write :: "addr_t \<Rightarrow> u8 list \<Rightarrow> (addr_t \<Rightarrow> u8) \<Rightarrow> addr_t \<Rightarrow> u8" where
  "mem_write a bs m = (\<lambda>x. if unat (x - a) < length bs then bs ! unat (x - a) else m x)"

text \<open>\<open>memcpy\<close> into a mapped frame: the source must hold as many bytes as are copied.\<close>

definition store_page :: "page_data \<Rightarrow> u64 \<Rightarrow> u8 list \<Rightarrow> nat \<Rightarrow> unit vm" where
  "store_page page off src n = (case page of
     PForeign pfn \<Rightarrow>
       if n \<le> length src then
         modify (\<lambda>s. s\<lparr>guest_mem := mem_write (push_bit 12 pfn + off) (take n src) (guest_mem s)\<rparr>)
       else raise_fault ()
   | _ \<Rightarrow> raise_fault ())"

text \<open>
  How many of \<open>count\<close> bytes lie in the page in which the current address has the given offset: the
  computation of \<open>write_len\<close> here and of \<open>read_len\<close> in \<^verbatim>\<open>read.c\<close>.
\<close>

definition chunk_len :: "u32 \<Rightarrow> u64 \<Rightarrow> u64 \<Rightarrow> u64" where
  "chunk_len sz offset count = (if ucast sz < offset + count then ucast sz - offset else count)"

text \<open>
  The loop of \<open>xen_put_memory\<close>, with a bound on the number of rounds; \<open>None\<close> means that the bound
  was reached.
\<close>

primrec xen_put_loop :: "env \<Rightarrow> nat \<Rightarrow> addr_t \<Rightarrow> u8 list \<Rightarrow> u32 \<Rightarrow> u64 \<Rightarrow> status_t option vm" where
  "xen_put_loop E 0 paddr buf count buf_offset = return None"
| "xen_put_loop E (Suc fuel) paddr buf count buf_offset =
     (if 0 < count then do {
        shift \<leftarrow> gets page_shift;
        sz \<leftarrow> gets page_size;
        let phys_address = paddr + buf_offset;
        let pfn = drop_bit (unat shift) phys_address;
        let offset = ucast (sz - 1) AND phys_address;
        memory \<leftarrow> xen_get_memory_pfn E pfn True;
        if memory = PNull then return (Some VMI_FAILURE)
        else do {
          let write_len = chunk_len sz offset (ucast count);
          store_page memory offset (drop (unat buf_offset) buf) (unat write_len);
          xen_put_loop E fuel paddr buf (count - ucast write_len) (buf_offset + write_len) } }
      else return (Some VMI_SUCCESS))"

text \<open>Every round writes at least one byte when pages are not empty, so \<open>count + 1\<close> rounds suffice.\<close>

definition xen_put_memory :: "env \<Rightarrow> addr_t \<Rightarrow> u32 \<Rightarrow> u8 list \<Rightarrow> status_t vm" where
  "xen_put_memory E paddr count buf = do {
     r \<leftarrow> xen_put_loop E (Suc (unat count)) paddr buf count 0;
     (case r of None \<Rightarrow> raise_fault VMI_FAILURE | Some st \<Rightarrow> return st) }"

definition xen_read_page :: "env \<Rightarrow> addr_t \<Rightarrow> page_data vm" where
  "xen_read_page E page = do {
     shift \<leftarrow> gets page_shift;
     let paddr = push_bit (unat shift) page;
     memory_cache_insert E paddr }"

definition xen_write :: "env \<Rightarrow> addr_t \<Rightarrow> u8 list \<Rightarrow> u32 \<Rightarrow> status_t vm" where
  "xen_write E paddr buf len = xen_put_memory E paddr len buf"

definition xen_is_pv :: "cint vm" where
  "xen_is_pv = do { xi \<leftarrow> xen_get_instance; return (if xen_hvm xi = 0 then 1 else 0) }"

definition xen_test :: "env \<Rightarrow> u64 \<Rightarrow> string option \<Rightarrow> status_t vm" where
  "xen_test E did name = do {
     did \<leftarrow> xen_get_domainid_from_name E name;
     return (if did = 0 then VMI_FAILURE else VMI_SUCCESS) }"

definition xen_pause_vm :: "env \<Rightarrow> status_t vm" where
  "xen_pause_vm E = do {
     domid \<leftarrow> xen_get_domainid;
     if \<not> xc_pause_ok E domid then return VMI_FAILURE
     else do { modify (\<lambda>s. s\<lparr>paused := True\<rparr>); return VMI_SUCCESS } }"

definition xen_resume_vm :: "env \<Rightarrow> status_t vm" where
  "xen_resume_vm E = do {
     domid \<leftarrow> xen_get_domainid;
     if \<not> xc_pause_ok E domid then return VMI_FAILURE
     else do { modify (\<lambda>s. s\<lparr>paused := False\<rparr>); return VMI_SUCCESS } }"

subsection \<open>driver/kvm.c without KVM\<close>

definition kvm_init :: "status_t vm" where "kvm_init = return VMI_FAILURE"
definition kvm_destroy :: "unit vm" where "kvm_destroy = return ()"
definition kvm_get_id_from_name :: "string option \<Rightarrow> u64 vm" where
  "kvm_get_id_from_name name = return 0"
definition kvm_get_id :: "u64 vm" where "kvm_get_id = return 0"
definition kvm_set_id :: "u64 \<Rightarrow> unit vm" where "kvm_set_id did = return ()"
definition kvm_get_name :: "string option \<Rightarrow> (status_t \<times> string option) vm" where
  "kvm_get_name name = return (VMI_FAILURE, name)"
definition kvm_set_name :: "string option \<Rightarrow> unit vm" where "kvm_set_name name = return ()"
definition kvm_get_memsize :: "u64 \<Rightarrow> (status_t \<times> u64) vm" where
  "kvm_get_memsize sz = return (VMI_FAILURE, sz)"
definition kvm_get_vcpureg :: "reg_t \<Rightarrow> registers_t \<Rightarrow> u64 \<Rightarrow> (status_t \<times> reg_t) vm" where
  "kvm_get_vcpureg v reg vcpu = return (VMI_FAILURE, v)"
definition kvm_read_page :: "addr_t \<Rightarrow> page_data vm" where "kvm_read_page page = return PNull"
definition kvm_write :: "addr_t \<Rightarrow> u8 list \<Rightarrow> u32 \<Rightarrow> status_t vm" where
  "kvm_write paddr buf len = return VMI_FAILURE"
definition kvm_is_pv :: "cint vm" where "kvm_is_pv = return 0"
definition kvm_test :: "u64 \<Rightarrow> string option \<Rightarrow> status_t" where "kvm_test did name = VMI_FAILURE"
definition kvm_pause_vm :: "status_t vm" where "kvm_pause_vm = return VMI_FAILURE"
definition kvm_resume_vm :: "status_t vm" where "kvm_resume_vm = return VMI_FAILURE"

subsection \<open>Pages\<close>

lemma unat_page_offset: "unat (4095 AND p :: u64) = unat p mod 4096"
  using unat_and_mask [of p 12] by (simp add: mask_eq_exp_minus_1 and.commute)

lemma page_base_offset: "push_bit 12 (drop_bit 12 p) + (4095 AND p) = (p :: u64)"
proof -
  have "push_bit 12 (drop_bit 12 p) + (p AND mask 12) = push_bit 12 (drop_bit 12 p) OR (p AND mask 12)"
    by (rule disjunctive_add_eq_or) (auto simp: bit_eq_iff bit_simps)
  also have "\<dots> = p"
    by (rule bit_word_eqI) (auto simp: bit_simps)
  finally show ?thesis by (simp add: mask_eq_exp_minus_1 and.commute)
qed

lemma unat_chunk_len:
  assumes "unat off < 4096" and "unat n < 2 ^ 63"
  shows "unat (chunk_len 4096 off n) = min (4096 - unat off) (unat n)"
proof -
  have "unat (off + n) = unat off + unat n"
    using assms by (simp add: unat_word_ariths)
  moreover have "unat (4096 - off) = 4096 - unat off"
    using assms(1) by (simp add: unat_sub word_le_nat_alt)
  ultimately show ?thesis
    using assms by (simp add: chunk_len_def word_less_nat_alt)
qed

declare unat_ucast_u32 [simp]

lemma unat_ucast_down: "unat (x :: u64) < 2 ^ 32 \<Longrightarrow> unat (ucast x :: u32) = unat x"
  by (simp add: unsigned_ucast_eq take_bit_nat_eq_self)

subsection \<open>Stores to guest memory\<close>

lemma mem_write_Nil [simp]: "mem_write a [] m = m"
  by (simp add: mem_write_def)

lemma mem_write_append:
  assumes "length xs + length ys \<le> 2 ^ 64"
  shows "mem_write (a + of_nat (length xs)) ys (mem_write a xs m) = mem_write a (xs @ ys) m"
proof (rule ext)
  fix x
  let ?d = "x - a" and ?k = "length xs"
  show "mem_write (a + of_nat ?k) ys (mem_write a xs m) x = mem_write a (xs @ ys) m x"
  proof (cases "?k = 2 ^ 64")
    case True
    then have "ys = []" using assms by simp
    then show ?thesis by (simp add: mem_write_def)
  next
    case False
    then have k: "?k < 2 ^ 64" using assms by simp
    have e: "x - (a + of_nat ?k) = ?d - of_nat ?k" by simp
    show ?thesis
    proof (cases "unat ?d < ?k")
      case True
      have "unat (?d - of_nat ?k) = 2 ^ 64 + unat ?d - ?k"
        using True k by (simp add: unat_sub_if' unat_of_nat)
      then have "\<not> unat (?d - of_nat ?k) < length ys" using assms True by simp
      with True show ?thesis by (simp add: mem_write_def e nth_append)
    next
      case False
      then have "unat (?d - of_nat ?k) = unat ?d - ?k"
        using k by (simp add: unat_sub_if' unat_of_nat)
      with False show ?thesis by (auto simp: mem_write_def e nth_append)
    qed
  qed
qed

lemma mem_read_mem_write:
  assumes "length xs = n" and "n \<le> 2 ^ 64"
  shows "mem_read (mem_write a xs m) a n = xs"
proof (rule nth_equalityI)
  fix i
  assume "i < length (mem_read (mem_write a xs m) a n)"
  then have "i < length xs" using assms(1) by (simp add: mem_read_def)
  with assms show "mem_read (mem_write a xs m) a n ! i = xs ! i"
    by (simp add: mem_read_def mem_write_def unat_of_nat)
qed (simp add: mem_read_def assms(1))

definition xen_geometry :: "vmi \<Rightarrow> bool" where
  "xen_geometry s \<longleftrightarrow> page_shift s = 12 \<and> page_size s = 4096 \<and> driver s = Some Xen"

lemma xen_put_loop_step:
  assumes geo: "xen_geometry s" and pos: "0 < count"
    and map: "xc_map_write E (xen_domainid (xeninst s)) (drop_bit 12 (paddr + bo))"
    and buf: "unat bo + unat count \<le> length buf"
  defines "wl \<equiv> chunk_len 4096 (4095 AND (paddr + bo)) (ucast count)"
  shows "run_state (xen_put_loop E (Suc fuel) paddr buf count bo) s =
    run_state (xen_put_loop E fuel paddr buf (count - ucast wl) (bo + wl))
      (s\<lparr>guest_mem := mem_write (paddr + bo) (take (unat wl) (drop (unat bo) buf)) (guest_mem s)\<rparr>)"
proof -
  have c: "unat (ucast count :: u64) < 2 ^ 63" using unat_lt_u32 [of count] by simp
  have "unat wl \<le> unat count"
    unfolding wl_def using unat_chunk_len [OF _ c, of "4095 AND (paddr + bo)"]
    by (simp add: unat_page_offset)
  then have "unat wl \<le> length buf - unat bo" using buf by simp
  then show ?thesis
    using geo pos map page_base_offset [of "paddr + bo"]
    by (simp add: xen_geometry_def xen_get_memory_pfn_def xen_get_domainid_def xen_get_instance_def
        store_page_def Let_def wl_def)
qed

text \<open>The frames that hold the bytes from \<open>a\<close> on can be mapped for writing.\<close>

definition writable :: "env \<Rightarrow> vmi \<Rightarrow> addr_t \<Rightarrow> nat \<Rightarrow> bool" where
  "writable E s a n \<longleftrightarrow>
     (\<forall>i < n. xc_map_write E (xen_domainid (xeninst s)) (drop_bit 12 (a + of_nat i)))"

lemma writable_later:
  "writable E s a n \<Longrightarrow> k \<le> n \<Longrightarrow> writable E s (a + of_nat k) (n - k)"
  unfolding writable_def
proof (intro allI impI)
  fix i
  assume all: "\<forall>i<n. xc_map_write E (xen_domainid (xeninst s)) (drop_bit 12 (a + of_nat i))"
    and "k \<le> n" "i < n - k"
  then have "k + i < n" by simp
  with all have "xc_map_write E (xen_domainid (xeninst s)) (drop_bit 12 (a + of_nat (k + i)))"
    by blast
  then show "xc_map_write E (xen_domainid (xeninst s)) (drop_bit 12 (a + of_nat k + of_nat i))"
    by (simp add: add.assoc)
qed

lemma xen_put_loop_ok:
  assumes "xen_geometry s" and "unat count < fuel" and "unat bo + unat count \<le> length buf"
    and "unat bo + unat count < 2 ^ 63" and "writable E s (paddr + bo) (unat count)"
  shows "run_state (xen_put_loop E fuel paddr buf count bo) s = (Some VMI_SUCCESS,
    s\<lparr>guest_mem := mem_write (paddr + bo) (take (unat count) (drop (unat bo) buf)) (guest_mem s)\<rparr>)"
  using assms
proof (induction fuel arbitrary: s count bo)
  case 0
  then show ?case by simp
next
  case (Suc fuel)
  show ?case
  proof (cases "count = 0")
    case True
    then show ?thesis by simp
  next
    case False
    then have pos: "0 < count" by (simp add: word_gt_0)
    define wl where "wl = chunk_len 4096 (4095 AND (paddr + bo)) (ucast count)"
    define n where "n = unat wl"
    let ?t = "s\<lparr>guest_mem := mem_write (paddr + bo) (take n (drop (unat bo) buf)) (guest_mem s)\<rparr>"
    have u: "n = min (4096 - unat (paddr + bo) mod 4096) (unat count)"
      using unat_chunk_len [of "4095 AND (paddr + bo)" "ucast count"] unat_lt_u32 [of count]
      by (simp add: n_def wl_def unat_page_offset)
    then have n: "0 < n" "n \<le> unat count" using pos by (simp_all add: word_less_nat_alt)
    have cw: "unat (ucast wl :: u32) = n"
      using n unat_lt_u32 [of count] by (simp add: unat_ucast_down n_def)
    then have cnt: "unat (count - ucast wl) = unat count - n"
      using n by (simp add: unat_sub word_le_nat_alt)
    have bo: "unat (bo + wl) = unat bo + n"
      using Suc.prems(4) n by (simp add: unat_word_ariths n_def)
    have wn: "wl = of_nat n" by (simp add: n_def)
    have "xc_map_write E (xen_domainid (xeninst s)) (drop_bit 12 (paddr + bo))"
      using Suc.prems(5) n by (auto simp: writable_def dest: spec [of _ 0])
    note step = xen_put_loop_step [OF Suc.prems(1) pos this Suc.prems(3), folded wl_def, folded n_def]
    have "writable E ?t (paddr + (bo + wl)) (unat (count - ucast wl))"
      unfolding cnt using writable_later [OF Suc.prems(5) n(2)]
      unfolding wn by (simp add: add.assoc writable_def)
    moreover have "xen_geometry ?t" using Suc.prems(1) by (simp add: xen_geometry_def)
    ultimately have IH: "run_state (xen_put_loop E fuel paddr buf (count - ucast wl) (bo + wl)) ?t =
      (Some VMI_SUCCESS, ?t\<lparr>guest_mem := mem_write (paddr + (bo + wl))
        (take (unat count - n) (drop (unat bo + n) buf)) (guest_mem ?t)\<rparr>)"
      using Suc.IH [of ?t "count - ucast wl" "bo + wl"] Suc.prems(2-4) n by (simp add: cnt bo)
    let ?xs = "take n (drop (unat bo) buf)" and ?ys = "take (unat count - n) (drop (unat bo + n) buf)"
    have len: "length ?xs = n" using Suc.prems(3) n by simp
    have "mem_write (paddr + bo + of_nat (length ?xs)) ?ys (mem_write (paddr + bo) ?xs (guest_mem s))
        = mem_write (paddr + bo) (?xs @ ?ys) (guest_mem s)"
      using Suc.prems(4) n by (intro mem_write_append) (simp only: len, simp)
    moreover have "?xs @ ?ys = take (unat count) (drop (unat bo) buf)"
      using take_add [of n "unat count - n" "drop (unat bo) buf"] n by (simp add: add.commute)
    ultimately show ?thesis
      using step IH len by (simp add: wn add.assoc)
  qed
qed

lemma xen_put_memory_run:
  assumes "xen_geometry s" and "unat count \<le> length buf" and "writable E s paddr (unat count)"
  shows "run_state (xen_put_memory E paddr count buf) s =
    (VMI_SUCCESS, s\<lparr>guest_mem := mem_write paddr (take (unat count) buf) (guest_mem s)\<rparr>)"
  using xen_put_loop_ok [OF assms(1), of count "Suc (unat count)" 0 buf E paddr] assms(2,3)
    unat_lt_u32 [of count]
  by (simp add: xen_put_memory_def)

text \<open>C15: Writing physical memory through Xen stores exactly the bytes asked for, across page
borders, and nothing else: the loop of \<open>xen_put_memory\<close> ends, succeeds, and changes only guest
memory.\<close>

theorem xen_put_memory_stores:
  assumes "xen_geometry s" and "unat count \<le> length buf" and "writable E s paddr (unat count)"
  shows "run_state (xen_put_memory E paddr count buf) s =
    (VMI_SUCCESS, s\<lparr>guest_mem := mem_write paddr (take (unat count) buf) (guest_mem s)\<rparr>)"
  using assms by (rule xen_put_memory_run)

definition xen_vmi :: vmi where
  "xen_vmi = zeroed_vmi\<lparr>mode := VMI_XEN, driver := Some Xen, page_shift := 12, page_size := 4096,
     get_data_callback := Some Xen, memory_cache_size_max := 512\<rparr>"

definition xen_env :: env where
  "xen_env = bare_env\<lparr>xc_map := (\<lambda>_ _. True), xc_map_write := (\<lambda>_ _. True),
     host_file := (\<lambda>_. Some (bytes_of (''00405000 d init_task'' @ [CHR 0x0A])))\<rparr>"

lemma xen_put_memory_stores_witness:
  "mem_read (guest_mem (snd (run_state (xen_put_memory xen_env 4094 4 [1, 2, 3, 4]) xen_vmi))) 4094 4
    = [1, 2, 3, 4]"
proof -
  have "xen_geometry xen_vmi" by (simp add: xen_geometry_def xen_vmi_def)
  moreover have "writable xen_env xen_vmi 4094 (unat (4 :: u32))"
    by (simp add: writable_def xen_env_def)
  ultimately show ?thesis
    using xen_put_memory_stores [of xen_vmi 4 "[1, 2, 3, 4]" xen_env 4094]
      mem_read_mem_write [of "[1, 2, 3, 4]" 4 4094 "guest_mem xen_vmi"] by simp
qed

lemma unat_page_number: "unat (drop_bit 12 p :: u64) = unat p div 4096"
  by (simp add: drop_bit_eq_div unat_div)

lemma div_mod_add_small:
  assumes "n mod m + k < (m :: nat)"
  shows "(n + k) div m = n div m" and "(n + k) mod m = n mod m + k"
proof -
  have "n + k = m * (n div m) + (n mod m + k)" by simp
  then show "(n + k) div m = n div m" "(n + k) mod m = n mod m + k"
    using assms by (metis div_mult_self4 div_less add.right_neutral less_nat_zero_code not_gr_zero,
      metis mod_less mod_mult_self4)
qed

lemma page_add:
  assumes "unat (4095 AND p) + k < 4096"
  shows "drop_bit 12 (p + of_nat k) = (drop_bit 12 p :: u64)"
    and "4095 AND (p + of_nat k) = (4095 AND p) + of_nat k"
proof -
  have m: "unat p mod 4096 + k < 4096" using assms by (simp add: unat_page_offset)
  have "unat p = 4096 * (unat p div 4096) + unat p mod 4096" by simp
  moreover have "unat p div 4096 \<le> 4503599627370495" using unat_lt_u64 [of p] by simp
  ultimately have lt: "unat p + k < 18446744073709551616" using m by linarith
  then have u: "unat (p + of_nat k) = unat p + k"
    by (simp add: unat_word_ariths unat_of_nat)
  have k: "unat (of_nat k :: u64) = k" using m by (simp add: unat_of_nat)
  have "unat (drop_bit 12 (p + of_nat k)) = unat (drop_bit 12 p)"
    by (simp only: unat_page_number u div_mod_add_small(1) [OF m])
  then show "drop_bit 12 (p + of_nat k) = drop_bit 12 p" by (rule word_unat_eq_iff [THEN iffD2])
  have "unat ((4095 AND p) + of_nat k) = unat p mod 4096 + k"
    using m by (simp add: unat_word_ariths k unat_page_offset)
  then have "unat (4095 AND (p + of_nat k)) = unat ((4095 AND p) + of_nat k)"
    by (simp only: unat_page_offset u div_mod_add_small(2) [OF m])
  then show "4095 AND (p + of_nat k) = (4095 AND p) + of_nat k"
    by (rule word_unat_eq_iff [THEN iffD2])
qed

end
