(* ===== verification/Interface.thy ===== *)
theory Interface
  imports Drivers
begin

text \<open>
  The dispatch table of \<^verbatim>\<open>driver/interface.c\<close>: one static table of function pointers, filled on the
  first call made through an instance whose \<open>driver\<close> is null, and the functions that call through
  it.
\<close>

subsection \<open>The table\<close>

definition uninitialised_table :: driver_instance where
  "uninitialised_table = \<lparr>init_ptr = FWild, destroy_ptr = FWild, get_id_from_name_ptr = FWild, get_id_ptr = FWild,
     set_id_ptr = FWild, get_name_ptr = FWild, set_name_ptr = FWild, get_memsize_ptr = FWild,
     get_vcpureg_ptr = FWild, get_address_width_ptr = FWild, read_page_ptr = FWild, write_ptr
     = FWild, is_pv_ptr = FWild, pause_vm_ptr = FWild, resume_vm_ptr = FWild\<rparr>"

text \<open>The setup functions store through \<open>instance\<close>, which must have been allocated.\<close>

definition set_table :: "(driver_instance \<Rightarrow> driver_instance) \<Rightarrow> unit vm" where
  "set_table f = do {
     t \<leftarrow> gets instance_ptrs;
     (case t of
       None \<Rightarrow> raise_fault ()
     | Some p \<Rightarrow> modify (\<lambda>s. s\<lparr>instance_ptrs := Some (f p)\<rparr>)) }"

definition driver_xen_setup :: "unit vm" where
  "driver_xen_setup = do {
     modify (\<lambda>s. s\<lparr>driver := Some Xen\<rparr>);
     set_table (\<lambda>p. p\<lparr>
       init_ptr := Fn Xen, destroy_ptr := Fn Xen, get_id_from_name_ptr := Fn Xen,
       get_id_ptr := Fn Xen, set_id_ptr := Fn Xen, get_name_ptr := Fn Xen,
       set_name_ptr := Fn Xen, get_memsize_ptr := Fn Xen, get_vcpureg_ptr := Fn Xen,
       get_address_width_ptr := Fn Xen, read_page_ptr := Fn Xen, write_ptr := Fn Xen,
       is_pv_ptr := Fn Xen, pause_vm_ptr := Fn Xen, resume_vm_ptr := Fn Xen\<rparr>) }"

definition driver_kvm_setup :: "unit vm" where
  "driver_kvm_setup = do {
     modify (\<lambda>s. s\<lparr>driver := Some Kvm\<rparr>);
     set_table (\<lambda>p. p\<lparr>
       init_ptr := Fn Kvm, destroy_ptr := Fn Kvm, get_id_from_name_ptr := Fn Kvm,
       get_id_ptr := Fn Kvm, set_id_ptr := Fn Kvm, get_name_ptr := Fn Kvm,
       set_name_ptr := Fn Kvm, get_memsize_ptr := Fn Kvm, get_vcpureg_ptr := Fn Kvm,
       get_address_width_ptr := FNull, read_page_ptr := Fn Kvm, write_ptr := Fn Kvm,
       is_pv_ptr := Fn Kvm, pause_vm_ptr := Fn Kvm, resume_vm_ptr := Fn Kvm\<rparr>) }"

definition driver_file_setup :: "unit vm" where
  "driver_file_setup = do {
     modify (\<lambda>s. s\<lparr>driver := Some File\<rparr>);
     set_table (\<lambda>p. p\<lparr>
       init_ptr := Fn File, destroy_ptr := Fn File, get_id_from_name_ptr := FNull,
       get_id_ptr := FNull, set_id_ptr := FNull, get_name_ptr := Fn File,
       set_name_ptr := Fn File, get_memsize_ptr := Fn File, get_vcpureg_ptr := Fn File,
       get_address_width_ptr := FNull, read_page_ptr := Fn File, write_ptr := Fn File,
       is_pv_ptr := Fn File, pause_vm_ptr := Fn File, resume_vm_ptr := Fn File\<rparr>) }"

text \<open>\<open>driver_null_setup\<close> does not set \<open>write_ptr\<close>.\<close>

definition driver_null_setup :: "unit vm" where
  "driver_null_setup = do {
     modify (\<lambda>s. s\<lparr>driver := None\<rparr>);
     set_table (\<lambda>p. p\<lparr>
       init_ptr := FNull, destroy_ptr := FNull, get_id_from_name_ptr := FNull,
       get_id_ptr := FNull, set_id_ptr := FNull, get_name_ptr := FNull,
       set_name_ptr := FNull, get_memsize_ptr := FNull, get_vcpureg_ptr := FNull,
       get_address_width_ptr := FNull, read_page_ptr := FNull, is_pv_ptr := FNull,
       pause_vm_ptr := FNull, resume_vm_ptr := FNull\<rparr>) }"

text \<open>Calling \<open>safe_malloc\<close> never returns null, so the result is a table.\<close>

definition driver_get_instance :: "driver_instance option vm" where
  "driver_get_instance = do {
     s \<leftarrow> State_Monad.get;
     (if driver s = None \<or> instance_ptrs s = None then do {
        (if instance_ptrs s = None then do {
           _ \<leftarrow> safe_malloc;
           modify (\<lambda>s. s\<lparr>instance_ptrs := Some uninitialised_table\<rparr>) }
         else return ());
        if mode s = VMI_XEN then driver_xen_setup
        else if mode s = VMI_KVM then driver_kvm_setup
        else if mode s = VMI_FILE then driver_file_setup
        else driver_null_setup }
      else return ());
     gets instance_ptrs }"

text \<open>Calling through the table: an unset pointer is an invalid jump.\<close>

definition dispatch :: "(driver_instance \<Rightarrow> fptr) \<Rightarrow> 'a \<Rightarrow> (backend \<Rightarrow> 'a vm) \<Rightarrow> 'a vm" where
  "dispatch sel failed impl = do {
     ptrs \<leftarrow> driver_get_instance;
     (case ptrs of
       None \<Rightarrow> return failed
     | Some p \<Rightarrow> (case sel p of
         FNull \<Rightarrow> return failed
       | FWild \<Rightarrow> raise_fault failed
       | Fn b \<Rightarrow> impl b)) }"

subsection \<open>The calls\<close>

text \<open>
  Where a back end has no such function its pointer is null, so the case for it below is never
  reached; it is an invalid jump.
\<close>

text \<open>
  \<open>driver_init_mode\<close> counts the systems that answer and keeps the last one; anything but exactly
  one is an error.
\<close>

definition driver_init_mode :: "env \<Rightarrow> u64 \<Rightarrow> string option \<Rightarrow> status_t vm" where
  "driver_init_mode E vmid name = do {
     let count = (0 :: nat);
     xt \<leftarrow> xen_test E vmid name;
     count \<leftarrow> (if xt = VMI_SUCCESS then do { modify (\<lambda>s. s\<lparr>mode := VMI_XEN\<rparr>); return (count + 1) }
               else return count);
     count \<leftarrow> (if kvm_test vmid name = VMI_SUCCESS then
                 do { modify (\<lambda>s. s\<lparr>mode := VMI_KVM\<rparr>); return (count + 1) }
               else return count);
     count \<leftarrow> (if file_test E vmid name = VMI_SUCCESS then
                 do { modify (\<lambda>s. s\<lparr>mode := VMI_FILE\<rparr>); return (count + 1) }
               else return count);
     if count = 0 then return VMI_FAILURE
     else if 1 < count then return VMI_FAILURE
     else return VMI_SUCCESS }"

definition driver_init :: "env \<Rightarrow> status_t vm" where
  "driver_init E = dispatch init_ptr VMI_FAILURE (\<lambda>b. case b of
     Xen \<Rightarrow> xen_init E
   | Kvm \<Rightarrow> kvm_init
   | File \<Rightarrow> file_init E)"

definition driver_destroy :: "unit vm" where
  "driver_destroy = dispatch destroy_ptr () (\<lambda>b. case b of
     Xen \<Rightarrow> xen_destroy
   | Kvm \<Rightarrow> kvm_destroy
   | File \<Rightarrow> file_destroy)"

definition driver_get_id_from_name :: "env \<Rightarrow> string option \<Rightarrow> u64 vm" where
  "driver_get_id_from_name E name = dispatch get_id_from_name_ptr 0 (\<lambda>b. case b of
     Xen \<Rightarrow> xen_get_domainid_from_name E name
   | Kvm \<Rightarrow> kvm_get_id_from_name name
   | File \<Rightarrow> raise_fault 0)"

definition driver_get_id :: "u64 vm" where
  "driver_get_id = dispatch get_id_ptr 0 (\<lambda>b. case b of
     Xen \<Rightarrow> xen_get_domainid
   | Kvm \<Rightarrow> kvm_get_id
   | File \<Rightarrow> raise_fault 0)"

definition driver_set_id :: "u64 \<Rightarrow> unit vm" where
  "driver_set_id vmid = dispatch set_id_ptr () (\<lambda>b. case b of
     Xen \<Rightarrow> xen_set_domainid vmid
   | Kvm \<Rightarrow> kvm_set_id vmid
   | File \<Rightarrow> raise_fault ())"

definition driver_get_name :: "env \<Rightarrow> string option \<Rightarrow> (status_t \<times> string option) vm" where
  "driver_get_name E name = dispatch get_name_ptr (VMI_FAILURE, name) (\<lambda>b. case b of
     Xen \<Rightarrow> xen_get_domainname E
   | Kvm \<Rightarrow> kvm_get_name name
   | File \<Rightarrow> file_get_name)"

definition driver_set_name :: "string option \<Rightarrow> unit vm" where
  "driver_set_name name = dispatch set_name_ptr () (\<lambda>b. case b of
     Xen \<Rightarrow> xen_set_domainname name
   | Kvm \<Rightarrow> kvm_set_name name
   | File \<Rightarrow> file_set_name name)"

definition driver_get_memsize :: "env \<Rightarrow> u64 \<Rightarrow> (status_t \<times> u64) vm" where
  "driver_get_memsize E sz = dispatch get_memsize_ptr (VMI_FAILURE, sz) (\<lambda>b. case b of
     Xen \<Rightarrow> xen_get_memsize E sz
   | Kvm \<Rightarrow> kvm_get_memsize sz
   | File \<Rightarrow> file_get_memsize E sz)"

definition driver_get_vcpureg :: "env \<Rightarrow> reg_t \<Rightarrow> registers_t \<Rightarrow> u64 \<Rightarrow> (status_t \<times> reg_t) vm" where
  "driver_get_vcpureg E v reg vcpu = dispatch get_vcpureg_ptr (VMI_FAILURE, v) (\<lambda>b. case b of
     Xen \<Rightarrow> xen_get_vcpureg E v reg vcpu
   | Kvm \<Rightarrow> kvm_get_vcpureg v reg vcpu
   | File \<Rightarrow> file_get_vcpureg v reg vcpu)"

definition driver_get_address_width :: "u8 \<Rightarrow> (status_t \<times> u8) vm" where
  "driver_get_address_width width = dispatch get_address_width_ptr (VMI_FAILURE, width) (\<lambda>b. case b of
     Xen \<Rightarrow> xen_get_address_width width
   | Kvm \<Rightarrow> raise_fault (VMI_FAILURE, width)
   | File \<Rightarrow> raise_fault (VMI_FAILURE, width))"

definition driver_read_page :: "env \<Rightarrow> addr_t \<Rightarrow> page_data vm" where
  "driver_read_page E page = dispatch read_page_ptr PNull (\<lambda>b. case b of
     Xen \<Rightarrow> xen_read_page E page
   | Kvm \<Rightarrow> kvm_read_page page
   | File \<Rightarrow> file_read_page E page)"

definition driver_write :: "env \<Rightarrow> addr_t \<Rightarrow> u8 list \<Rightarrow> u32 \<Rightarrow> status_t vm" where
  "driver_write E paddr buf len = dispatch write_ptr VMI_FAILURE (\<lambda>b. case b of
     Xen \<Rightarrow> xen_write E paddr buf len
   | Kvm \<Rightarrow> kvm_write paddr buf len
   | File \<Rightarrow> file_write paddr buf len)"

definition driver_is_pv :: "cint vm" where
  "driver_is_pv = dispatch is_pv_ptr 0 (\<lambda>b. case b of
     Xen \<Rightarrow> xen_is_pv
   | Kvm \<Rightarrow> kvm_is_pv
   | File \<Rightarrow> file_is_pv)"

definition driver_pause_vm :: "env \<Rightarrow> status_t vm" where
  "driver_pause_vm E = dispatch pause_vm_ptr VMI_FAILURE (\<lambda>b. case b of
     Xen \<Rightarrow> xen_pause_vm E
   | Kvm \<Rightarrow> kvm_pause_vm
   | File \<Rightarrow> file_pause_vm)"

definition driver_resume_vm :: "env \<Rightarrow> status_t vm" where
  "driver_resume_vm E = dispatch resume_vm_ptr VMI_FAILURE (\<lambda>b. case b of
     Xen \<Rightarrow> xen_resume_vm E
   | Kvm \<Rightarrow> kvm_resume_vm
   | File \<Rightarrow> file_resume_vm)"

subsection \<open>Attached drivers\<close>

definition table_of :: "backend \<Rightarrow> driver_instance" where
  "table_of b = (let f = Fn b; g = (if b = File then FNull else f);
     w = (if b = Xen then f else FNull)
   in \<lparr>init_ptr = f, destroy_ptr = f, get_id_from_name_ptr = g, get_id_ptr = g, set_id_ptr = g,
     get_name_ptr = f, set_name_ptr = f, get_memsize_ptr = f, get_vcpureg_ptr = f,
     get_address_width_ptr = w, read_page_ptr = f, write_ptr = f, is_pv_ptr = f,
     pause_vm_ptr = f, resume_vm_ptr = f\<rparr>)"

lemma table_of_fields [simp]:
  "init_ptr (table_of b) = (Fn b)"
  "destroy_ptr (table_of b) = (Fn b)"
  "get_id_from_name_ptr (table_of b) = (if b = File then FNull else Fn b)"
  "get_id_ptr (table_of b) = (if b = File then FNull else Fn b)"
  "set_id_ptr (table_of b) = (if b = File then FNull else Fn b)"
  "get_name_ptr (table_of b) = (Fn b)"
  "set_name_ptr (table_of b) = (Fn b)"
  "get_memsize_ptr (table_of b) = (Fn b)"
  "get_vcpureg_ptr (table_of b) = (Fn b)"
  "get_address_width_ptr (table_of b) = (if b = Xen then Fn b else FNull)"
  "read_page_ptr (table_of b) = (Fn b)"
  "write_ptr (table_of b) = (Fn b)"
  "is_pv_ptr (table_of b) = (Fn b)"
  "pause_vm_ptr (table_of b) = (Fn b)"
  "resume_vm_ptr (table_of b) = (Fn b)"
  by (simp_all add: table_of_def Let_def)

definition attached :: "backend \<Rightarrow> vmi \<Rightarrow> bool" where
  "attached b s \<longleftrightarrow> driver s = Some b \<and> instance_ptrs s = Some (table_of b)"

definition backend_of_mode :: "vmi_mode_t \<Rightarrow> backend option" where
  "backend_of_mode m = (if m = VMI_XEN then Some Xen else if m = VMI_KVM then Some Kvm
     else if m = VMI_FILE then Some File else None)"

lemma mode_constants: "VMI_XEN = 2" "VMI_KVM = 4" "VMI_FILE = 8" "VMI_AUTO = 1"
  by (simp_all add: VMI_XEN_def VMI_KVM_def VMI_FILE_def VMI_AUTO_def)

lemma run_driver_get_instance:
  assumes "attached b s"
  shows "run_state driver_get_instance s = (Some (table_of b), s)"
  using assms by (simp add: driver_get_instance_def attached_def)

lemma run_set_table:
  "instance_ptrs s = Some p \<Longrightarrow>
    run_state (set_table f) s = ((), s\<lparr>instance_ptrs := Some (f p)\<rparr>)"
  by (simp add: set_table_def)

lemma run_setup:
  assumes "instance_ptrs s = Some p"
  shows "run_state driver_xen_setup s = ((), s\<lparr>driver := Some Xen, instance_ptrs := Some (table_of Xen)\<rparr>)"
    "run_state driver_kvm_setup s = ((), s\<lparr>driver := Some Kvm, instance_ptrs := Some (table_of Kvm)\<rparr>)"
    "run_state driver_file_setup s = ((), s\<lparr>driver := Some File, instance_ptrs := Some (table_of File)\<rparr>)"
  by (cases p; simp add: assms driver_xen_setup_def driver_kvm_setup_def driver_file_setup_def
      run_set_table table_of_def Let_def)+

text \<open>The first call through an instance attaches the driver its mode names.\<close>

definition attach :: "backend \<Rightarrow> vmi \<Rightarrow> vmi" where
  "attach b s = s\<lparr>driver := Some b, instance_ptrs := Some (table_of b),
     heap_next := (if instance_ptrs s = None then Suc (heap_next s) else heap_next s)\<rparr>"

lemma run_first_driver_get_instance:
  assumes "driver s = None \<or> instance_ptrs s = None" and "backend_of_mode (mode s) = Some b"
  shows "run_state driver_get_instance s = (Some (table_of b), attach b s)"
proof -
  from assms(2) consider "mode s = 2" "b = Xen" | "mode s = 4" "b = Kvm" | "mode s = 8" "b = File"
    by (auto simp: backend_of_mode_def mode_constants split: if_splits)
  then have fill: "run_state (if mode s = VMI_XEN then driver_xen_setup
      else if mode s = VMI_KVM then driver_kvm_setup
      else if mode s = VMI_FILE then driver_file_setup else driver_null_setup) t
    = ((), t\<lparr>driver := Some b, instance_ptrs := Some (table_of b)\<rparr>)"
    if "instance_ptrs t = Some p" for t p
    by cases (simp_all add: run_setup [OF that] mode_constants)
  show ?thesis
  proof (cases "instance_ptrs s")
    case None
    let ?s = "s\<lparr>heap_next := Suc (heap_next s), instance_ptrs := Some uninitialised_table\<rparr>"
    have "instance_ptrs ?s = Some uninitialised_table" by simp
    from fill [OF this] None show ?thesis
      by (simp add: driver_get_instance_def safe_malloc_def attach_def del: run_state_if)
  next
    case (Some p)
    with assms(1) fill [OF Some] show ?thesis
      by (simp add: driver_get_instance_def attach_def del: run_state_if)
  qed
qed

lemma attached_attach [simp]: "attached b (attach b s)"
  by (simp add: attached_def attach_def)

lemma attached_core [simp]: "attached b (core s) = attached b s"
  by (simp add: attached_def)

lemma run_dispatch:
  assumes "attached b s"
  shows "run_state (dispatch sel failed impl) s = (case sel (table_of b) of
     FNull \<Rightarrow> (failed, s) | FWild \<Rightarrow> (failed, s\<lparr>fault := True\<rparr>) | Fn c \<Rightarrow> run_state (impl c) s)"
  using run_driver_get_instance [OF assms]
  by (simp add: dispatch_def raise_fault_def split: fptr.split)

lemma run_driver_read_page:
  "attached Xen s \<Longrightarrow> run_state (driver_read_page E page) s = run_state (xen_read_page E page) s"
  "attached File s \<Longrightarrow> run_state (driver_read_page E page) s = run_state (file_read_page E page) s"
  by (simp_all add: driver_read_page_def run_dispatch)

subsection \<open>The contract of reading a page\<close>

text \<open>What every function that reads guest memory relies on.\<close>

definition vm_ok :: "env \<Rightarrow> vmi \<Rightarrow> bool" where
  "vm_ok E s \<longleftrightarrow> page_cache_ok E s \<and> (\<exists>b. attached b s) \<and> page_shift s = 12 \<and> page_size s = 4096"

definition frame_page :: "env \<Rightarrow> addr_t \<Rightarrow> vmi \<Rightarrow> page_data" where
  "frame_page E pfn s = page_fetch E s (push_bit 12 pfn)"

lemma push_bit_and_not_mask: "push_bit n p AND NOT (mask n) = (push_bit n p :: 'a::len word)"
  by (rule bit_word_eqI) (auto simp: bit_simps)

lemma frame_aligned: "page_size s = 4096 \<Longrightarrow> is_addr_aligned s (push_bit 12 pfn)"
proof -
  assume "page_size s = 4096"
  then have "(ucast (page_size s) - 1 :: u64) = mask 12" by (simp add: mask_eq_exp_minus_1)
  then show ?thesis
    by (simp only: is_addr_aligned_def aligned_addr_def Let_def push_bit_and_not_mask)
qed

lemma vm_ok_frame:
  assumes "vm_ok E s" and "core t = core s" and "page_cache_ok E t"
  shows "vm_ok E t"
  using assms core_eqD(1,2) [OF assms(2)] by (metis attached_core vm_ok_def)

lemma run_driver_read_page_insert:
  assumes "vm_ok E s"
  shows "run_state (driver_read_page E pfn) s = run_state (memory_cache_insert E (push_bit 12 pfn)) s"
proof -
  from assms have "page_cache_ok E s" "page_shift s = 12" by (simp_all add: vm_ok_def)
  then have "driver s = Some Xen \<or> driver s = Some File"
    by (auto simp: page_cache_ok_def backing_ready_def)
  with assms have "attached Xen s \<or> attached File s" by (auto simp: vm_ok_def attached_def)
  then show ?thesis
    using \<open>page_shift s = 12\<close> run_driver_read_page [of s E pfn]
    by (auto simp: xen_read_page_def file_read_page_def Let_def)
qed

lemma reads_driver_read_page [vmi_reads]:
  "reads (vm_ok E) core (driver_read_page E pfn) (frame_page E pfn)"
proof (rule readsI)
  fix s
  assume ok: "vm_ok E s"
  then have "page_cache_ok E s" "page_size s = 4096" by (simp_all add: vm_ok_def)
  note page_cache_ok_insert [OF this(1), of "push_bit 12 pfn"] frame_aligned [OF this(2), of pfn]
  then show "vm_ok E (snd (run_state (driver_read_page E pfn) s))
    \<and> core (snd (run_state (driver_read_page E pfn) s)) = core s
    \<and> fst (run_state (driver_read_page E pfn) s) = frame_page E pfn (core s)"
    using vm_ok_frame [OF ok] by (simp add: run_driver_read_page_insert [OF ok] frame_page_def)
qed

subsection \<open>Choosing the mode\<close>

definition names_domain :: "env \<Rightarrow> string \<Rightarrow> string \<Rightarrow> bool" where
  "names_domain E n did = (case xs_read E (take 99 (''/local/domain/'' @ did @ ''/name'')) of
     None \<Rightarrow> False | Some candidate \<Rightarrow> strncmp_eq 100 n candidate)"

definition domain_named :: "env \<Rightarrow> string \<Rightarrow> u64" where
  "domain_named E n = (if \<not> xs_open E then 0
     else case find (names_domain E n) (xs_directory E ''/local/domain'') of
       None \<Rightarrow> 0 | Some did \<Rightarrow> scast (atoi did))"

lemma run_domain_loop:
  "run_state (domain_loop E (Some n) dids) s =
    ((case find (names_domain E n) dids of None \<Rightarrow> 0 | Some did \<Rightarrow> scast (atoi did)), s)"
  by (induction dids) (auto simp: names_domain_def Let_def split: option.split)

lemma run_xen_get_domainid_from_name:
  "run_state (xen_get_domainid_from_name E (Some n)) s = (domain_named E n, s)"
  by (simp add: xen_get_domainid_from_name_def domain_named_def run_domain_loop)

lemma run_xen_test:
  "run_state (xen_test E vmid (Some n)) s =
    (if domain_named E n = 0 then VMI_FAILURE else VMI_SUCCESS, s)"
  by (simp add: xen_test_def run_xen_get_domainid_from_name)

text \<open>\<open>driver_init_mode\<close> succeeds exactly when the name belongs to one system, a running Xen
domain or a non-empty file, and then sets the mode of that system; with both or neither it fails.\<close>

theorem driver_init_mode_decides:
  "run_state (driver_init_mode E vmid (Some n)) s =
    (let xen = domain_named E n \<noteq> 0; file = file_test E vmid (Some n) = VMI_SUCCESS
     in (if xen \<noteq> file then VMI_SUCCESS else VMI_FAILURE,
         if file then s\<lparr>mode := VMI_FILE\<rparr> else if xen then s\<lparr>mode := VMI_XEN\<rparr> else s))"
  by (simp add: driver_init_mode_def run_xen_test kvm_test_def Let_def)

text \<open>A domain found by its name has that name: \<open>xen_get_domainname\<close> of the number
\<open>xen_get_domainid_from_name\<close> returns gives a string that agrees with the name asked for on the
first hundred characters, when xenstore lists domains by their decimal numbers.\<close>

theorem domain_name_roundtrip:
  assumes listed: "\<forall>did \<in> set (xs_directory E ''/local/domain''). \<exists>k. did = dec_nat k \<and> k < 2 ^ 31"
    and found: "run_state (xen_get_domainid_from_name E (Some n)) s = (d, t)" "d \<noteq> 0"
    and "driver s = Some Xen" and set: "run_state (xen_set_domainid d) t = (u, s')"
  shows "\<exists>name. fst (run_state (xen_get_domainname E) s') = (VMI_SUCCESS, Some name)
    \<and> strncmp_eq 100 n name"
proof -
  have t: "t = s" and d: "d = domain_named E n"
    using found(1) by (simp_all add: run_xen_get_domainid_from_name)
  with found(2) obtain did where did: "find (names_domain E n) (xs_directory E ''/local/domain'') = Some did"
    and dd: "d = scast (atoi did)"
    by (auto simp: domain_named_def split: if_splits option.splits)
  from did have nm: "names_domain E n did" "did \<in> set (xs_directory E ''/local/domain'')"
    by (auto simp: find_Some_iff)
  with listed obtain k where k: "did = dec_nat k" "k < 2147483648" by auto
  have "strtol10 did = int k" using strtol10_dec_nat [of k] k by simp
  then have a: "atoi did = of_nat k" by (simp add: atoi_def)
  have "sint (of_nat k :: u32) = int k"
    using k(2) by (simp add: signed_of_nat signed_take_bit_int_eq_self)
  moreover have "(ucast (scast w :: u64) :: u32) = w" for w :: u32
  proof (rule bit_word_eqI)
    fix i
    assume i: "i < LENGTH(32)"
    then have "min i 31 = i" by simp
    with i show "bit (ucast (scast w :: u64) :: u32) i = bit w i" by (simp add: bit_simps)
  qed
  ultimately have "sint (ucast d :: u32) = int k"
    by (simp add: dd a)
  then have f: "fmt_d d = did" by (simp add: fmt_d_def k(1))
  have "driver s' = Some Xen" "xen_domainid (xeninst s') = d"
    using set assms(4) by (auto simp: t xen_set_domainid_def xen_upd_def xen_get_instance_def)
  then show ?thesis
    using nm(1) f by (auto simp: xen_get_domainname_def xen_get_domainid_def xen_get_instance_def
        names_domain_def Let_def split: option.splits)
qed

definition two_domains :: env where
  "two_domains = bare_env\<lparr>xs_open := True, xs_directory := (\<lambda>_. [''0'', ''7'']),
     xs_read := [''/local/domain/0/name'' \<mapsto> ''Domain-0'', ''/local/domain/7/name'' \<mapsto> ''guest'']\<rparr>"

lemma domain_name_roundtrip_witness:
  "\<exists>name. fst (run_state (xen_get_domainname two_domains)
      (snd (run_state (xen_set_domainid 7) xen_vmi))) = (VMI_SUCCESS, Some name)
    \<and> strncmp_eq 100 ''guest'' name"
proof (rule domain_name_roundtrip)
  have "dec_nat 0 = ''0''" "dec_nat 7 = ''7''" by code_simp+
  then show "\<forall>did \<in> set (xs_directory two_domains ''/local/domain''). \<exists>k. did = dec_nat k \<and> k < 2 ^ 31"
    by (auto simp: two_domains_def intro: exI [of _ 0] exI [of _ 7])
  show "run_state (xen_get_domainid_from_name two_domains (Some ''guest'')) xen_vmi = (7, xen_vmi)"
    by (simp add: run_xen_get_domainid_from_name domain_named_def two_domains_def names_domain_def
        strncmp_eq_def atoi_def strtol10_def sign_split_def c_isspace_def digit_val_def)
  show "driver xen_vmi = Some Xen" by (simp add: xen_vmi_def)
  show "run_state (xen_set_domainid 7) xen_vmi = ((), snd (run_state (xen_set_domainid 7) xen_vmi))"
    by (rule prod_eqI) simp_all
qed simp

text \<open>\<open>driver_null_setup\<close> leaves \<open>write_ptr\<close> as the allocator gave it: the first
\<open>driver_write\<close> of an instance without a usable mode jumps through an uninitialised pointer.\<close>

theorem null_driver_write_wild:
  assumes "instance_ptrs s = None" and "backend_of_mode (mode s) = None"
  shows "fault (snd (run_state (driver_write E paddr buf len) s))"
proof -
  from assms(2) have m: "mode s \<noteq> VMI_XEN" "mode s \<noteq> VMI_KVM" "mode s \<noteq> VMI_FILE"
    by (auto simp: backend_of_mode_def split: if_splits)
  let ?t = "s\<lparr>heap_next := Suc (heap_next s), instance_ptrs := Some uninitialised_table\<rparr>"
  obtain p where "run_state driver_null_setup ?t = ((), ?t\<lparr>driver := None, instance_ptrs := Some p\<rparr>)"
    and p: "write_ptr p = FWild"
    by (simp add: driver_null_setup_def set_table_def uninitialised_table_def)
  then show ?thesis
    using assms(1) m
    by (simp add: driver_write_def dispatch_def driver_get_instance_def safe_malloc_def raise_fault_def)
qed

lemma null_driver_write_wild_witness:
  "fault (snd (run_state (driver_write bare_env 0 [] 0) (zeroed_vmi\<lparr>mode := VMI_AUTO\<rparr>)))"
  by (rule null_driver_write_wild) (simp_all add: zeroed_vmi_def backend_of_mode_def mode_constants)

text \<open>One instance's structure beside the static variables another one has left.\<close>

definition with_statics_of :: "vmi \<Rightarrow> vmi \<Rightarrow> vmi" where
  "with_statics_of a b = a\<lparr>instance_ptrs := instance_ptrs b, xeninst := xeninst b,
     fileinst := fileinst b, get_data_callback := get_data_callback b, heap_next := heap_next b,
     clock := clock b, guest_mem := guest_mem b, paused := paused b, fault := fault b\<rparr>"

text \<open>The dispatch table is shared by all instances and keyed on no instance: once another
instance has attached the file driver, an instance whose driver is Xen reads its pages through the
file driver's function.\<close>

theorem dispatch_table_shared:
  assumes "attached Xen a" and "mode b = VMI_FILE" and "driver b = None"
    and "run_state driver_get_instance b = (p, b')"
  shows "run_state (driver_read_page E pfn) (with_statics_of a b') =
    run_state (file_read_page E pfn) (with_statics_of a b')"
proof -
  have "b' = attach File b"
    using run_first_driver_get_instance [of b File] assms(2-4)
    by (simp add: backend_of_mode_def mode_constants)
  then have "driver (with_statics_of a b') = Some Xen"
    and "instance_ptrs (with_statics_of a b') = Some (table_of File)"
    using assms(1) by (simp_all add: with_statics_of_def attached_def attach_def)
  then show ?thesis
    by (simp add: driver_read_page_def dispatch_def driver_get_instance_def)
qed

lemma dispatch_table_shared_witness:
  "run_state (driver_read_page bare_env 1) (with_statics_of (attach Xen xen_vmi)
      (snd (run_state driver_get_instance (zeroed_vmi\<lparr>mode := VMI_FILE\<rparr>))))
   = run_state (file_read_page bare_env 1) (with_statics_of (attach Xen xen_vmi)
      (snd (run_state driver_get_instance (zeroed_vmi\<lparr>mode := VMI_FILE\<rparr>))))"
  by (rule dispatch_table_shared [OF _ _ _ surjective_pairing]) (simp_all add: zeroed_vmi_def)

end
