(* ===== verification/Phys_Access.thy ===== *)
theory Phys_Access
  imports Interface
begin

text \<open>
  Physical memory: \<^verbatim>\<open>vmi_read_page\<close> of \<^verbatim>\<open>memory.c\<close>, the \<open>_pa\<close> functions of \<^verbatim>\<open>read.c\<close> and \<^verbatim>\<open>write.c\<close>,
  and the copy loop that reading physical and virtual memory share. A read function returns the
  bytes it stored in the caller's buffer; the C function returns how many they are.
\<close>

unbundle bit_operations_syntax

subsection \<open>Reading\<close>

text \<open>Frame 0 is never read: its number is taken for the absence of one.\<close>

definition vmi_read_page :: "env \<Rightarrow> addr_t \<Rightarrow> page_data vm" where
  "vmi_read_page E frame_num = (if frame_num = 0 then return PNull else driver_read_page E frame_num)"

text \<open>\<open>memcpy\<close> out of a page; the bytes asked for must lie in it.\<close>

definition page_bytes :: "page_data \<Rightarrow> u64 \<Rightarrow> nat \<Rightarrow> u8 list vm" where
  "page_bytes page off n = (case page of
     PNull \<Rightarrow> raise_fault []
   | PCopy bs \<Rightarrow> if unat off + n \<le> length bs then return (take n (drop (unat off) bs))
       else raise_fault (take n (drop (unat off) bs))
   | PForeign pfn \<Rightarrow> do {
       bs \<leftarrow> gets (\<lambda>s. mem_read (guest_mem s) (push_bit 12 pfn + off) n);
       if unat off + n \<le> 4096 then return bs else raise_fault bs })"

text \<open>
  The loop of \<open>vmi_read_pa\<close> and \<open>vmi_read_va\<close>. \<open>tr\<close> gives the physical address of the byte at an
  offset of the buffer, or \<open>None\<close> where the code stops because it has none. The result is \<open>None\<close>
  only if the bound on the number of rounds was reached.
\<close>

primrec copy_loop :: "env \<Rightarrow> (u64 \<Rightarrow> addr_t option vm) \<Rightarrow> nat \<Rightarrow> u64 \<Rightarrow> u64 \<Rightarrow> u8 list option vm" where
  "copy_loop E tr 0 count buf_offset = return None"
| "copy_loop E tr (Suc fuel) count buf_offset =
     (if 0 < count then do {
        p \<leftarrow> tr buf_offset;
        (case p of
          None \<Rightarrow> return (Some [])
        | Some paddr \<Rightarrow> do {
            shift \<leftarrow> gets page_shift;
            sz \<leftarrow> gets page_size;
            let pfn = drop_bit (unat shift) paddr;
            let offset = ucast (sz - 1) AND paddr;
            memory \<leftarrow> vmi_read_page E pfn;
            if memory = PNull then return (Some [])
            else do {
              let read_len = chunk_len sz offset count;
              bs \<leftarrow> page_bytes memory offset (unat read_len);
              rest \<leftarrow> copy_loop E tr fuel (count - read_len) (buf_offset + read_len);
              return (map_option ((@) bs) rest) } }) }
      else return (Some []))"

definition run_copy_loop :: "env \<Rightarrow> (u64 \<Rightarrow> addr_t option vm) \<Rightarrow> u64 \<Rightarrow> u8 list vm" where
  "run_copy_loop E tr count = do {
     r \<leftarrow> copy_loop E tr (Suc (unat count)) count 0;
     (case r of None \<Rightarrow> raise_fault [] | Some bs \<Rightarrow> return bs) }"

definition vmi_read_pa :: "env \<Rightarrow> addr_t \<Rightarrow> u64 \<Rightarrow> u8 list vm" where
  "vmi_read_pa E paddr count = run_copy_loop E (\<lambda>buf_offset. return (Some (paddr + buf_offset))) count"

text \<open>
  A read into a variable: the status, and the variable's bytes, of which only those that were read
  have changed.
\<close>

definition read_status :: "u8 list \<Rightarrow> nat \<Rightarrow> status_t" where
  "read_status bs n = (if length bs = n then VMI_SUCCESS else VMI_FAILURE)"

definition vmi_read_X_pa :: "env \<Rightarrow> addr_t \<Rightarrow> 'a::len word \<Rightarrow> (status_t \<times> 'a word) vm" where
  "vmi_read_X_pa E paddr v = do {
     bs \<leftarrow> vmi_read_pa E paddr (of_nat (LENGTH('a) div 8));
     return (read_status bs (LENGTH('a) div 8), le_word (overlay (word_bytes v) bs)) }"

definition vmi_read_8_pa :: "env \<Rightarrow> addr_t \<Rightarrow> u8 \<Rightarrow> (status_t \<times> u8) vm" where
  "vmi_read_8_pa E paddr v = vmi_read_X_pa E paddr v"

definition vmi_read_16_pa :: "env \<Rightarrow> addr_t \<Rightarrow> u16 \<Rightarrow> (status_t \<times> u16) vm" where
  "vmi_read_16_pa E paddr v = vmi_read_X_pa E paddr v"

definition vmi_read_32_pa :: "env \<Rightarrow> addr_t \<Rightarrow> u32 \<Rightarrow> (status_t \<times> u32) vm" where
  "vmi_read_32_pa E paddr v = vmi_read_X_pa E paddr v"

definition vmi_read_64_pa :: "env \<Rightarrow> addr_t \<Rightarrow> u64 \<Rightarrow> (status_t \<times> u64) vm" where
  "vmi_read_64_pa E paddr v = vmi_read_X_pa E paddr v"

definition vmi_read_addr_pa :: "env \<Rightarrow> addr_t \<Rightarrow> addr_t \<Rightarrow> (status_t \<times> addr_t) vm" where
  "vmi_read_addr_pa E paddr v = do {
     pm \<leftarrow> gets page_mode;
     if pm = VMI_PM_IA32E then vmi_read_64_pa E paddr v
     else do {
       (ret, tmp) \<leftarrow> vmi_read_32_pa E paddr 0;
       return (ret, ucast tmp) } }"

text \<open>
  \<open>vmi_read_str_pa\<close> reads chunks until one holds a zero byte; the caller of the model gives the
  number of chunks. The inner \<open>None\<close> is the null pointer returned when a chunk cannot be read.
\<close>

definition strnlen :: "u8 list \<Rightarrow> nat" where
  "strnlen bs = length (takeWhile (\<lambda>b. b \<noteq> 0) bs)"

primrec str_pa_loop :: "env \<Rightarrow> nat \<Rightarrow> addr_t \<Rightarrow> u64 \<Rightarrow> u8 list \<Rightarrow> u8 list option option vm" where
  "str_pa_loop E 0 paddr chunk_size buf = return None"
| "str_pa_loop E (Suc fuel) paddr chunk_size buf =
     (if strnlen buf = length buf then do {
        bs \<leftarrow> vmi_read_pa E (paddr + of_nat (length buf)) chunk_size;
        if length bs \<noteq> unat chunk_size then return (Some None)
        else str_pa_loop E fuel paddr chunk_size (buf @ bs) }
      else return (Some (Some (take (strnlen buf) buf))))"

definition vmi_read_str_pa :: "env \<Rightarrow> nat \<Rightarrow> addr_t \<Rightarrow> u8 list option option vm" where
  "vmi_read_str_pa E fuel paddr = do {
     sz \<leftarrow> gets page_size;
     let chunk_size = ucast sz - (ucast (sz - 1) AND paddr);
     bs \<leftarrow> vmi_read_pa E paddr chunk_size;
     if length bs \<noteq> unat chunk_size then return (Some None)
     else str_pa_loop E fuel paddr chunk_size bs }"

subsection \<open>Writing\<close>

text \<open>The count is passed on as a 32-bit length. \<open>None\<close> for the buffer is the null pointer.\<close>

definition vmi_write_pa :: "env \<Rightarrow> addr_t \<Rightarrow> u8 list option \<Rightarrow> u64 \<Rightarrow> u64 vm" where
  "vmi_write_pa E paddr buf count = (case buf of
     None \<Rightarrow> return 0
   | Some bs \<Rightarrow> do {
       st \<leftarrow> driver_write E paddr bs (ucast count);
       return (if st = VMI_SUCCESS then count else 0) })"

definition vmi_write_X_pa :: "env \<Rightarrow> addr_t \<Rightarrow> 'a::len word \<Rightarrow> status_t vm" where
  "vmi_write_X_pa E paddr v = do {
     len_write \<leftarrow> vmi_write_pa E paddr (Some (word_bytes v)) (of_nat (LENGTH('a) div 8));
     return (if len_write = of_nat (LENGTH('a) div 8) then VMI_SUCCESS else VMI_FAILURE) }"

definition vmi_write_8_pa :: "env \<Rightarrow> addr_t \<Rightarrow> u8 \<Rightarrow> status_t vm" where
  "vmi_write_8_pa E paddr v = vmi_write_X_pa E paddr v"

definition vmi_write_16_pa :: "env \<Rightarrow> addr_t \<Rightarrow> u16 \<Rightarrow> status_t vm" where
  "vmi_write_16_pa E paddr v = vmi_write_X_pa E paddr v"

definition vmi_write_32_pa :: "env \<Rightarrow> addr_t \<Rightarrow> u32 \<Rightarrow> status_t vm" where
  "vmi_write_32_pa E paddr v = vmi_write_X_pa E paddr v"

definition vmi_write_64_pa :: "env \<Rightarrow> addr_t \<Rightarrow> u64 \<Rightarrow> status_t vm" where
  "vmi_write_64_pa E paddr v = vmi_write_X_pa E paddr v"

subsection \<open>Memory as a partial map of bytes\<close>

text \<open>
  The specification side: the byte at a physical address, if its frame can be read, and the
  longest readable prefix of a range.
\<close>

definition frame_read :: "env \<Rightarrow> vmi \<Rightarrow> addr_t \<Rightarrow> page_data" where
  "frame_read E s pfn = (if pfn = 0 then PNull else frame_page E pfn s)"

definition page_byte :: "vmi \<Rightarrow> page_data \<Rightarrow> u64 \<Rightarrow> u8 option" where
  "page_byte s page off = (case page of
     PNull \<Rightarrow> None
   | PCopy bs \<Rightarrow> if unat off < length bs then Some (bs ! unat off) else None
   | PForeign pfn \<Rightarrow> Some (guest_mem s (push_bit 12 pfn + off)))"

definition phys_byte :: "env \<Rightarrow> vmi \<Rightarrow> addr_t \<Rightarrow> u8 option" where
  "phys_byte E s pa = page_byte s (frame_read E s (drop_bit 12 pa)) (4095 AND pa)"

fun prefix_from :: "(nat \<Rightarrow> u8 option) \<Rightarrow> nat \<Rightarrow> nat \<Rightarrow> u8 list" where
  "prefix_from f i 0 = []"
| "prefix_from f i (Suc n) = (case f i of None \<Rightarrow> [] | Some b \<Rightarrow> b # prefix_from f (Suc i) n)"

lemma prefix_from_None: "f i = None \<Longrightarrow> prefix_from f i n = []"
  by (cases n) simp_all

lemma prefix_from_append:
  assumes "length xs \<le> n" and "\<And>j. j < length xs \<Longrightarrow> f (i + j) = Some (xs ! j)"
  shows "prefix_from f i n = xs @ prefix_from f (i + length xs) (n - length xs)"
  using assms
proof (induction xs arbitrary: i n)
  case Nil
  then show ?case by simp
next
  case (Cons x xs)
  from Cons.prems(1) obtain m where n: "n = Suc m" by (cases n) auto
  have "f i = Some x" using Cons.prems(2) [of 0] by simp
  moreover have "f (Suc i + j) = Some (xs ! j)" if "j < length xs" for j
    using Cons.prems(2) [of "Suc j"] that by simp
  ultimately show ?case using Cons.IH [of m "Suc i"] Cons.prems(1) n by simp
qed

lemma length_prefix_from: "length (prefix_from f i n) \<le> n"
  by (induction n arbitrary: i) (auto split: option.split)

text \<open>A prefix of full length means that every byte is readable, and the prefix lists them.\<close>

lemma prefix_from_full:
  "length (prefix_from f i n) = n \<longleftrightarrow> (\<forall>j < n. f (i + j) \<noteq> None)"
proof (induction n arbitrary: i)
  case 0
  then show ?case by simp
next
  case (Suc n)
  show ?case
  proof (cases "f i")
    case None
    then show ?thesis by (auto intro: exI [of _ 0])
  next
    case (Some b)
    then show ?thesis using Suc.IH [of "Suc i"] by (auto simp: All_less_Suc2)
  qed
qed

lemma prefix_from_nth:
  "j < length (prefix_from f i n) \<Longrightarrow> f (i + j) = Some (prefix_from f i n ! j)"
proof (induction n arbitrary: i j)
  case 0
  then show ?case by simp
next
  case (Suc n)
  then show ?case
    by (cases "f i"; cases j) (auto simp flip: add_Suc)
qed

lemma frame_read_core [simp]: "frame_read E (core s) pfn = frame_read E s pfn"
  by (simp add: frame_read_def frame_page_def)

lemma page_byte_core [simp]: "page_byte (core s) page off = page_byte s page off"
  by (simp add: page_byte_def split: page_data.split)

lemma phys_byte_core [simp]: "phys_byte E (core s) pa = phys_byte E s pa"
  by (simp add: phys_byte_def)

lemma phys_byte_cong: "core s = core t \<Longrightarrow> phys_byte E s = phys_byte E t"
  by (metis ext phys_byte_core)

lemma frame_read_length:
  assumes "vm_ok E s" and "frame_read E s pfn = PCopy bs"
  shows "length bs = 4096"
proof -
  from assms(1) have "page_size s = 4096" by (simp add: vm_ok_def)
  then show ?thesis
    using assms(2) by (auto simp: frame_read_def frame_page_def page_fetch_def memory_of_def Let_def
      split: if_splits option.splits backend.splits)
qed

text \<open>Copying out of a page that was read returns the bytes the specification has there.\<close>

lemma run_page_bytes:
  assumes ok: "vm_ok E s" and page: "frame_read E s pfn \<noteq> PNull" and n: "unat off + n \<le> 4096"
  obtains xs where "run_state (page_bytes (frame_read E s pfn) off n) s = (xs, s)" "length xs = n"
    "\<And>j. j < n \<Longrightarrow> page_byte s (frame_read E s pfn) (off + of_nat j) = Some (xs ! j)"
proof -
  have u: "unat (off + of_nat j) = unat off + j" if "j < n" for j
    using n that by (simp add: unat_word_ariths unat_of_nat)
  show thesis
  proof (cases "frame_read E s pfn")
    case PNull
    with page show thesis by simp
  next
    case (PCopy bs)
    have len: "length bs = 4096" by (rule frame_read_length [OF ok PCopy])
    show thesis
      by (rule that [of "take n (drop (unat off) bs)"])
        (use n u in \<open>simp_all add: PCopy page_bytes_def page_byte_def len\<close>)
  next
    case (PForeign p)
    show thesis
      by (rule that [of "mem_read (guest_mem s) (push_bit 12 p + off) n"])
        (use n in \<open>simp_all add: PForeign page_bytes_def page_byte_def mem_read_def add.assoc\<close>)
  qed
qed

subsection \<open>Where pages come from\<close>

text \<open>
  What the copy loop asks of the state: an invariant under which pages are read as the
  specification says. \<open>page_source\<close> is met by \<open>vm_ok\<close>, and by the stronger invariants of the
  address-translation components.
\<close>

locale page_source =
  fixes E :: env and I :: "vmi \<Rightarrow> bool"
  assumes source_ok: "I s \<Longrightarrow> vm_ok E s"
    and source_read: "reads I core (vmi_read_page E pfn) (\<lambda>s. frame_read E s pfn)"
begin

lemma read_page_run:
  assumes "I s"
  obtains t where "run_state (vmi_read_page E pfn) s = (frame_read E s pfn, t)" "I t"
    "core t = core s"
proof -
  from reads_run [OF source_read assms surjective_pairing, of pfn] that
  show thesis by (metis frame_read_core prod.collapse)
qed

lemma geometry: "I s \<Longrightarrow> page_shift s = 12 \<and> page_size s = 4096"
  using source_ok by (simp add: vm_ok_def)

end

text \<open>
  A translator gives the physical address of each byte of a buffer; within a page the addresses
  are consecutive, so translating once for each page is enough.
\<close>

locale translator = page_source +
  fixes tr :: "u64 \<Rightarrow> addr_t option vm" and at :: "vmi \<Rightarrow> u64 \<Rightarrow> addr_t option"
  assumes tr_reads: "reads I core (tr off) (\<lambda>s. at s off)"
    and at_core: "at (core s) = at s"
    and at_page: "I s \<Longrightarrow> at s off = Some pa \<Longrightarrow> unat (4095 AND pa) + k < 4096 \<Longrightarrow>
      at s (off + of_nat k) = Some (pa + of_nat k)"
begin

definition byte_at :: "vmi \<Rightarrow> nat \<Rightarrow> u8 option" where
  "byte_at s i = (case at s (of_nat i) of None \<Rightarrow> None | Some pa \<Rightarrow> phys_byte E s pa)"

lemma byte_at_cong: "core s = core t \<Longrightarrow> byte_at s = byte_at t"
  unfolding byte_at_def using at_core phys_byte_cong by metis

lemma copy_loop_prefix:
  assumes "I s" and "unat count < fuel" and "unat off + unat count < 2 ^ 63"
  shows "\<exists>t. run_state (copy_loop E tr fuel count off) s =
      (Some (prefix_from (byte_at s) (unat off) (unat count)), t) \<and> I t \<and> core t = core s"
  using assms
proof (induction fuel arbitrary: s count off)
  case 0
  then show ?case by simp
next
  case (Suc fuel)
  show ?case
  proof (cases "count = 0")
    case True
    with Suc.prems(1) show ?thesis by simp
  next
    case False
    then have pos: "0 < count" by (simp add: word_gt_0)
    obtain t1 where t1: "run_state (tr off) s = (at s off, t1)" "I t1" "core t1 = core s"
      using reads_run [OF tr_reads Suc.prems(1) surjective_pairing, of off]
      by (metis at_core prod.collapse)
    show ?thesis
    proof (cases "at s off")
      case None
      then have "byte_at s (unat off) = None" by (simp add: byte_at_def)
      then show ?thesis using None t1 pos by (simp add: prefix_from_None)
    next
      case (Some pa)
      let ?pfn = "drop_bit 12 pa" and ?o = "4095 AND pa"
      obtain t2 where t2: "run_state (vmi_read_page E ?pfn) t1 = (frame_read E t1 ?pfn, t2)"
        "I t2" "core t2 = core t1" by (rule read_page_run [OF t1(2)])
      have fr: "frame_read E t1 = frame_read E s" "frame_read E t2 = frame_read E s"
        using t1(3) t2(3) by (metis ext frame_read_core)+
      note g = geometry [OF t1(2)]
      show ?thesis
      proof (cases "frame_read E s ?pfn = PNull")
        case True
        then have "byte_at s (unat off) = None"
          by (simp add: byte_at_def Some phys_byte_def page_byte_def)
        then show ?thesis using t1 t2 Some pos True g fr by (simp add: prefix_from_None Let_def)
      next
        case nonnull: False
        define len where "len = chunk_len 4096 ?o count"
        define n where "n = unat len"
        have o: "unat ?o < 4096" by (simp add: unat_page_offset)
        have u: "n = min (4096 - unat ?o) (unat count)"
          using unat_chunk_len [OF o, of count] Suc.prems(3) by (simp add: n_def len_def)
        then have n: "0 < n" "n \<le> unat count" "unat ?o + n \<le> 4096"
          using pos o by (simp_all add: word_less_nat_alt)
        obtain xs where xs: "run_state (page_bytes (frame_read E t2 ?pfn) ?o n) t2 = (xs, t2)"
          "length xs = n"
          "\<And>j. j < n \<Longrightarrow> page_byte t2 (frame_read E t2 ?pfn) (?o + of_nat j) = Some (xs ! j)"
          by (rule run_page_bytes [OF source_ok [OF t2(2)], of ?pfn ?o n])
            (use nonnull n fr in auto)
        have cnt: "unat (count - len) = unat count - n"
          using n by (simp add: unat_sub word_le_nat_alt n_def)
        have off: "unat (off + len) = unat off + n"
          using Suc.prems(3) n by (simp add: unat_word_ariths n_def)
        obtain t3 where t3: "run_state (copy_loop E tr fuel (count - len) (off + len)) t2 =
            (Some (prefix_from (byte_at t2) (unat off + n) (unat count - n)), t3)"
          "I t3" "core t3 = core t2"
        proof -
          have "unat (count - len) < fuel" "unat (off + len) + unat (count - len) < 2 ^ 63"
            using Suc.prems(2,3) n by (simp_all add: cnt off)
          from Suc.IH [OF t2(2) this] that show thesis by (auto simp: cnt off)
        qed
        have c2: "core t2 = core s" using t2 t1 by simp
        have bytes: "byte_at s (unat off + j) = Some (xs ! j)" if "j < length xs" for j
        proof -
          have j: "unat ?o + j < 4096" using that xs(2) n by simp
          have "at s (of_nat (unat off + j)) = Some (pa + of_nat j)"
            using at_page [OF Suc.prems(1) Some j] by simp
          then have "byte_at s (unat off + j) = phys_byte E s (pa + of_nat j)"
            by (simp only: byte_at_def option.case)
          also have "\<dots> = phys_byte E t2 (pa + of_nat j)"
            by (simp only: phys_byte_cong [OF c2])
          also have "\<dots> = page_byte t2 (frame_read E t2 ?pfn) (?o + of_nat j)"
            by (simp only: phys_byte_def page_add [OF j])
          finally show ?thesis using xs(2,3) that by simp
        qed
        have "prefix_from (byte_at s) (unat off) (unat count)
          = xs @ prefix_from (byte_at s) (unat off + n) (unat count - n)"
          using prefix_from_append [of xs "unat count" "byte_at s" "unat off"] bytes xs(2) n by simp
        then show ?thesis
          using t1 t2 t3 xs Some pos nonnull g fr byte_at_cong [OF c2]
          by (simp add: Let_def len_def [symmetric] n_def [symmetric])
      qed
    qed
  qed
qed

lemma reads_run_copy_loop:
  assumes "unat count < 2 ^ 63"
  shows "reads I core (run_copy_loop E tr count) (\<lambda>s. prefix_from (byte_at s) 0 (unat count))"
proof (rule readsI)
  fix s
  assume I: "I s"
  have "unat count < Suc (unat count)" "unat (0 :: u64) + unat count < 2 ^ 63"
    using assms by simp_all
  from copy_loop_prefix [OF I this] obtain t where
    "run_state (copy_loop E tr (Suc (unat count)) count 0) s =
      (Some (prefix_from (byte_at s) 0 (unat count)), t)" "I t" "core t = core s"
    by auto
  then show "I (snd (run_state (run_copy_loop E tr count) s))
    \<and> core (snd (run_state (run_copy_loop E tr count) s)) = core s
    \<and> fst (run_state (run_copy_loop E tr count) s) = prefix_from (byte_at (core s)) 0 (unat count)"
    using byte_at_cong [of "core s" s] by (simp add: run_copy_loop_def del: copy_loop.simps)
qed

end

subsection \<open>Reading physical memory\<close>

lemma reads_vmi_read_page:
  "reads (vm_ok E) core (vmi_read_page E pfn) (\<lambda>s. frame_read E s pfn)"
proof (cases "pfn = 0")
  case True
  then show ?thesis by (simp add: vmi_read_page_def frame_read_def reads_return)
next
  case False
  then have "vmi_read_page E pfn = driver_read_page E pfn" by (simp add: vmi_read_page_def)
  moreover have "frame_page E pfn s = frame_read E s pfn" for s
    using False by (simp add: frame_read_def)
  ultimately show ?thesis
    using reads_driver_read_page [of E pfn] by (simp add: reads_def)
qed

definition phys_bytes :: "env \<Rightarrow> vmi \<Rightarrow> addr_t \<Rightarrow> nat \<Rightarrow> u8 list" where
  "phys_bytes E s paddr n = prefix_from (\<lambda>i. phys_byte E s (paddr + of_nat i)) 0 n"

lemma phys_bytes_core [simp]: "phys_bytes E (core s) = phys_bytes E s"
  by (simp add: phys_bytes_def fun_eq_iff)

sublocale page_source \<subseteq> pa: translator E I "\<lambda>off. return (Some (paddr + off))"
    "\<lambda>_ off. Some (paddr + off)" for paddr :: addr_t
  by unfold_locales (simp_all add: reads_return add.assoc)

context page_source
begin

lemma pa_byte_at: "pa.byte_at paddr s = (\<lambda>i. phys_byte E s (paddr + of_nat i))"
  by (simp add: pa.byte_at_def fun_eq_iff)

lemma reads_vmi_read_pa:
  assumes "unat count < 2 ^ 63"
  shows "reads I core (vmi_read_pa E paddr count) (\<lambda>s. phys_bytes E s paddr (unat count))"
  using pa.reads_run_copy_loop [OF assms, of paddr]
  by (simp add: vmi_read_pa_def phys_bytes_def pa_byte_at)

end

lemma length_phys_bytes: "length (phys_bytes E s paddr n) \<le> n"
  by (simp add: phys_bytes_def length_prefix_from)

lemma phys_bytes_full:
  "length (phys_bytes E s paddr n) = n \<longleftrightarrow> (\<forall>i < n. phys_byte E s (paddr + of_nat i) \<noteq> None)"
  using prefix_from_full [of "\<lambda>i. phys_byte E s (paddr + of_nat i)" 0 n] by (simp add: phys_bytes_def)

text \<open>What a read into a variable of a given width returns.\<close>

definition phys_word :: "env \<Rightarrow> vmi \<Rightarrow> addr_t \<Rightarrow> 'a::len word \<Rightarrow> status_t \<times> 'a word" where
  "phys_word E s paddr v = (let bs = phys_bytes E s paddr (LENGTH('a) div 8)
     in (read_status bs (LENGTH('a) div 8), le_word (overlay (word_bytes v) bs)))"

lemma phys_word_core [simp]: "phys_word E (core s) paddr v = phys_word E s paddr v"
  by (simp add: phys_word_def)

context page_source
begin

lemma reads_vmi_read_X_pa:
  fixes v :: "'a::len word"
  assumes "LENGTH('a) < 2 ^ 63"
  shows "reads I core (vmi_read_X_pa E paddr v) (\<lambda>s. phys_word E s paddr v)"
proof -
  have u: "unat (of_nat (LENGTH('a) div 8) :: u64) = LENGTH('a) div 8"
    using assms by (simp add: unat_of_nat)
  have "unat (of_nat (LENGTH('a) div 8) :: u64) < 2 ^ 63" using assms by (simp add: u)
  from reads_bind [OF reads_vmi_read_pa [OF this, unfolded u] reads_return]
  show ?thesis by (simp add: vmi_read_X_pa_def phys_word_def Let_def)
qed

lemma reads_vmi_read_width_pa:
  "reads I core (vmi_read_8_pa E paddr v8) (\<lambda>s. phys_word E s paddr v8)"
  "reads I core (vmi_read_16_pa E paddr v16) (\<lambda>s. phys_word E s paddr v16)"
  "reads I core (vmi_read_32_pa E paddr v32) (\<lambda>s. phys_word E s paddr v32)"
  "reads I core (vmi_read_64_pa E paddr v64) (\<lambda>s. phys_word E s paddr v64)"
  by (simp_all add: vmi_read_8_pa_def vmi_read_16_pa_def vmi_read_32_pa_def vmi_read_64_pa_def
      reads_vmi_read_X_pa)

lemma reads_vmi_read_addr_pa:
  "reads I core (vmi_read_addr_pa E paddr v)
    (\<lambda>s. if page_mode s = VMI_PM_IA32E then phys_word E s paddr v
         else map_prod id ucast (phys_word E s paddr (0 :: u32)))"
  using reads_vmi_read_width_pa(3) [of paddr 0] reads_vmi_read_width_pa(4) [of paddr v]
  by (simp add: reads_def vmi_read_addr_pa_def case_prod_beta map_prod_def)

end

interpretation phys: page_source E "vm_ok E" for E
  by unfold_locales (simp_all add: reads_vmi_read_page)

lemma prefix_from_shift: "prefix_from f (i + k) n = prefix_from (\<lambda>j. f (j + k)) i n"
  by (induction n arbitrary: i) (simp_all flip: add_Suc split: option.split)

lemma take_prefix_from: "m \<le> n \<Longrightarrow> take m (prefix_from f i n) = prefix_from f i m"
proof (induction m arbitrary: i n)
  case 0
  then show ?case by simp
next
  case (Suc m)
  then obtain n' where "n = Suc n'" by (cases n) auto
  with Suc show ?case by (simp split: option.split)
qed

lemma phys_bytes_append:
  assumes "length (phys_bytes E s p a) = a"
  shows "phys_bytes E s p (a + b) = phys_bytes E s p a @ phys_bytes E s (p + of_nat a) b"
proof -
  let ?f = "\<lambda>i. phys_byte E s (p + of_nat i)" and ?xs = "phys_bytes E s p a"
  have "?f (0 + j) = Some (?xs ! j)" if "j < length ?xs" for j
    using prefix_from_nth [of j ?f 0 a] that by (simp add: phys_bytes_def)
  from prefix_from_append [of ?xs "a + b" ?f 0, OF _ this] assms
  have "phys_bytes E s p (a + b) = ?xs @ prefix_from ?f a b"
    by (simp add: phys_bytes_def)
  then show ?thesis
    using prefix_from_shift [of ?f 0 a b] by (simp add: phys_bytes_def add.commute add.left_commute)
qed

lemma phys_bytes_nth:
  "i < length (phys_bytes E s p n) \<Longrightarrow> phys_byte E s (p + of_nat i) = Some (phys_bytes E s p n ! i)"
  using prefix_from_nth [of i "\<lambda>i. phys_byte E s (p + of_nat i)" 0 n] by (simp add: phys_bytes_def)

lemma prefix_from_stops:
  "length (prefix_from f i n) < n \<Longrightarrow> f (i + length (prefix_from f i n)) = None"
  by (induction n arbitrary: i) (auto split: option.splits simp flip: add_Suc)

text \<open>The string at an address: its bytes are readable and not zero, and a zero follows.\<close>

definition string_at :: "env \<Rightarrow> vmi \<Rightarrow> addr_t \<Rightarrow> nat \<Rightarrow> bool" where
  "string_at E s p n \<longleftrightarrow> (\<forall>i < n. \<exists>b. phys_byte E s (p + of_nat i) = Some b \<and> b \<noteq> 0)
     \<and> phys_byte E s (p + of_nat n) = Some 0"

lemma strnlen_phys_bytes:
  assumes str: "string_at E s p n" and full: "length (phys_bytes E s p L) = L"
  shows "strnlen (phys_bytes E s p L) = min L n"
proof -
  let ?xs = "phys_bytes E s p L"
  have nth: "phys_byte E s (p + of_nat i) = Some (?xs ! i)" if "i < L" for i
    using phys_bytes_nth [of i E s p L] that full by simp
  have nz: "?xs ! i \<noteq> 0" if "i < L" "i < n" for i
    using str nth [OF that(1)] that(2) by (auto simp: string_at_def)
  show ?thesis
  proof (cases "L \<le> n")
    case True
    then have "takeWhile (\<lambda>b. b \<noteq> 0) ?xs = ?xs"
      using nz full by (auto simp: takeWhile_eq_all_conv in_set_conv_nth)
    then have "strnlen ?xs = length ?xs" by (simp only: strnlen_def)
    with True full show ?thesis by simp
  next
    case False
    then have z: "?xs ! n = 0" using nth [of n] str by (simp add: string_at_def)
    have "length (takeWhile (\<lambda>b. b \<noteq> 0) ?xs) = n"
      using takeWhile_eq_take_P_nth [of n ?xs "\<lambda>b. b \<noteq> 0"] False nz z full by simp
    then show ?thesis using False by (simp add: strnlen_def)
  qed
qed

lemma str_pa_loop_finds:
  assumes "vm_ok E s" and "string_at E s p n" and c: "0 < c" "unat c \<le> 4096"
    and "\<And>i. i < n + unat c \<Longrightarrow> phys_byte E s (p + of_nat i) \<noteq> None"
    and "length (phys_bytes E s p L) = L" and "n + 1 - L < fuel"
  shows "\<exists>t. run_state (str_pa_loop E fuel p c (phys_bytes E s p L)) s =
    (Some (Some (phys_bytes E s p n)), t) \<and> vm_ok E t \<and> core t = core s"
  using assms(1,2,5-7)
proof (induction fuel arbitrary: s L)
  case 0
  then show ?case by simp
next
  case (Suc fuel)
  let ?buf = "phys_bytes E s p L"
  note sl = strnlen_phys_bytes [OF Suc.prems(2,4)]
  show ?case
  proof (cases "n < L")
    case True
    then have "take n ?buf = phys_bytes E s p n" by (simp add: phys_bytes_def take_prefix_from)
    with True sl Suc.prems(1,4) show ?thesis by simp
  next
    case False
    let ?bs = "phys_bytes E s (p + of_nat L) (unat c)"
    have len: "length ?bs = unat c"
      unfolding phys_bytes_full using Suc.prems(3) [of "L + i" for i] False
      by (auto simp: add.assoc)
    have "unat c < 2 ^ 63" using c by simp
    obtain t where t: "run_state (vmi_read_pa E (p + of_nat L) c) s = (?bs, t)" "vm_ok E t"
      "core t = core s"
      using reads_run [OF phys.reads_vmi_read_pa [OF \<open>unat c < 2 ^ 63\<close>] Suc.prems(1) surjective_pairing]
      by (metis phys_bytes_core prod.collapse)
    have eq: "phys_bytes E t = phys_bytes E s" "phys_byte E t = phys_byte E s"
      using t(3) phys_byte_cong [OF t(3)] by (simp_all add: phys_bytes_def fun_eq_iff)
    have app: "phys_bytes E s p (L + unat c) = ?buf @ ?bs"
      by (rule phys_bytes_append [OF Suc.prems(4)])
    have "length (phys_bytes E t p (L + unat c)) = L + unat c"
      using app len Suc.prems(4) by (simp add: eq)
    moreover have "string_at E t p n" using Suc.prems(2) by (simp add: string_at_def eq)
    moreover have "n + 1 - (L + unat c) < fuel"
      using c Suc.prems(5) False by (simp add: word_less_nat_alt)
    ultimately obtain t' where
      "run_state (str_pa_loop E fuel p c (phys_bytes E t p (L + unat c))) t =
        (Some (Some (phys_bytes E t p n)), t') \<and> vm_ok E t' \<and> core t' = core t"
      using Suc.IH [OF t(2), of "L + unat c"] Suc.prems(3) by (auto simp: eq)
    moreover have "strnlen ?buf = length ?buf" using sl Suc.prems(4) False by simp
    ultimately show ?thesis
      using t len Suc.prems(4) by (simp add: eq app)
  qed
qed

lemma vmi_read_str_pa_finds:
  assumes ok: "vm_ok E s" and str: "string_at E s p n"
    and r: "\<And>i. i < n + 4096 \<Longrightarrow> phys_byte E s (p + of_nat i) \<noteq> None" and f: "n + 1 < fuel"
  shows "\<exists>t. run_state (vmi_read_str_pa E fuel p) s =
    (Some (Some (phys_bytes E s p n)), t) \<and> vm_ok E t \<and> core t = core s"
proof -
  define c where "c = 4096 - (4095 AND p)"
  have u: "unat c = 4096 - unat p mod 4096"
    by (simp add: c_def unat_sub word_le_nat_alt unat_page_offset)
  then have c: "0 < c" "unat c \<le> 4096" by (simp_all add: word_less_nat_alt)
  let ?bs = "phys_bytes E s p (unat c)"
  have len: "length ?bs = unat c"
    unfolding phys_bytes_full using r c by auto
  have "unat c < 2 ^ 63" using c by simp
  obtain t where t: "run_state (vmi_read_pa E p c) s = (?bs, t)" "vm_ok E t" "core t = core s"
    using reads_run [OF phys.reads_vmi_read_pa [OF \<open>unat c < 2 ^ 63\<close>] ok surjective_pairing]
    by (metis phys_bytes_core prod.collapse)
  have eq: "phys_bytes E t = phys_bytes E s" "phys_byte E t = phys_byte E s"
    using t(3) phys_byte_cong [OF t(3)] by (simp_all add: phys_bytes_def fun_eq_iff)
  have "string_at E t p n" using str by (simp add: string_at_def eq)
  moreover have "n + 1 - unat c < fuel" using f by simp
  ultimately have "\<exists>t'. run_state (str_pa_loop E fuel p c (phys_bytes E t p (unat c))) t =
      (Some (Some (phys_bytes E t p n)), t') \<and> vm_ok E t' \<and> core t' = core t"
    using r c len by (intro str_pa_loop_finds [OF t(2) _ c]) (auto simp: eq)
  then
  obtain t' where "run_state (str_pa_loop E fuel p c ?bs) t =
      (Some (Some (phys_bytes E s p n)), t') \<and> vm_ok E t' \<and> core t' = core t"
    by (auto simp: eq)
  moreover have "page_size s = 4096" using ok by (simp add: vm_ok_def)
  ultimately show ?thesis
    using t len by (simp add: vmi_read_str_pa_def c_def [symmetric] Let_def)
qed

subsection \<open>Writing, then reading\<close>

lemma push_drop_drop: "drop_bit 12 (push_bit 12 (drop_bit 12 a)) = (drop_bit 12 a :: u64)"
  by (rule bit_word_eqI) (auto simp: bit_simps dest: bit_imp_le_length)

lemma xen_callback: "vm_ok E s \<Longrightarrow> driver s = Some Xen \<Longrightarrow> get_data_callback s = Some Xen"
  by (auto simp: vm_ok_def page_cache_ok_def backing_ready_def)

lemma phys_byte_xen:
  assumes "vm_ok E s" and "driver s = Some Xen"
  shows "phys_byte E s a = None \<or> phys_byte E s a = Some (guest_mem s a)"
proof -
  have "page_shift s = 12" using assms(1) by (simp add: vm_ok_def)
  then show ?thesis
    using xen_callback [OF assms] page_base_offset [of a]
    by (simp add: phys_byte_def frame_read_def frame_page_def page_fetch_def memory_of_def Let_def
        page_byte_def push_drop_drop)
qed

lemma guest_mem_upd:
  "vm_ok E (s\<lparr>guest_mem := m\<rparr>) = vm_ok E s"
  "frame_read E (s\<lparr>guest_mem := m\<rparr>) = frame_read E s"
proof -
  have m: "memory_of E (s\<lparr>guest_mem := m\<rparr>) = memory_of E s"
    "beyond_memory (s\<lparr>guest_mem := m\<rparr>) = beyond_memory s"
    by (simp_all add: memory_of_def beyond_memory_def fun_eq_iff split: option.split backend.split)
  show "frame_read E (s\<lparr>guest_mem := m\<rparr>) = frame_read E s"
    by (simp add: frame_read_def frame_page_def page_fetch_def m fun_eq_iff)
  show "vm_ok E (s\<lparr>guest_mem := m\<rparr>) = vm_ok E s"
    by (simp add: vm_ok_def page_cache_ok_def entries_ok_def m backing_ready_def attached_def)
qed

lemma readable_after_write:
  assumes "vm_ok E s" and "driver s = Some Xen" and "phys_byte E s a \<noteq> None"
  shows "phys_byte E (s\<lparr>guest_mem := m\<rparr>) a = Some (m a)"
proof -
  have "phys_byte E (s\<lparr>guest_mem := m\<rparr>) a \<noteq> None"
    using assms(3) by (auto simp: phys_byte_def guest_mem_upd page_byte_def split: page_data.splits if_splits)
  then show ?thesis
    using phys_byte_xen [of E "s\<lparr>guest_mem := m\<rparr>" a] assms(1,2) by (auto simp: guest_mem_upd)
qed

lemma run_vmi_write_pa:
  assumes "vm_ok E s" and "driver s = Some Xen" and "unat count < 2 ^ 32"
    and "unat count \<le> length buf" and "writable E s paddr (unat count)"
  shows "run_state (vmi_write_pa E paddr (Some buf) count) s =
    (count, s\<lparr>guest_mem := mem_write paddr (take (unat count) buf) (guest_mem s)\<rparr>)"
proof -
  have "attached Xen s" using assms(1,2) by (auto simp: vm_ok_def attached_def)
  moreover have "xen_geometry s" using assms(1,2) by (simp add: vm_ok_def xen_geometry_def)
  moreover have u: "unat (ucast count :: u32) = unat count" using assms(3) by (rule unat_ucast_down)
  ultimately show ?thesis
    using xen_put_memory_run [of s "ucast count" buf E paddr] assms(4,5)
    by (simp add: vmi_write_pa_def driver_write_def run_dispatch xen_write_def)
qed

lemma phys_bytes_written:
  assumes "vm_ok E s" and "driver s = Some Xen" and "length bs \<le> 2 ^ 64"
    and "\<And>i. i < length bs \<Longrightarrow> phys_byte E s (paddr + of_nat i) \<noteq> None"
  shows "phys_bytes E (s\<lparr>guest_mem := mem_write paddr bs (guest_mem s)\<rparr>) paddr (length bs) = bs"
proof -
  let ?t = "s\<lparr>guest_mem := mem_write paddr bs (guest_mem s)\<rparr>"
  have b: "phys_byte E ?t (paddr + of_nat i) = Some (bs ! i)" if "i < length bs" for i
    using readable_after_write [OF assms(1,2) assms(4) [OF that]] that assms(3)
    by (simp add: mem_write_def unat_of_nat)
  have len: "length (phys_bytes E ?t paddr (length bs)) = length bs"
    unfolding phys_bytes_full using b by simp
  show ?thesis
    by (rule nth_equalityI) (use len b phys_bytes_nth [of _ E ?t paddr "length bs"] in auto)
qed

subsection \<open>Properties\<close>

text \<open>C6: \<open>vmi_read_pa\<close> copies the longest readable prefix of the range: the loop over page-sized
chunks ends, each byte it stored is the guest's byte at that address, and if it stops early the
next byte is not readable. Only caches change.\<close>

theorem vmi_read_pa_prefix:
  assumes "vm_ok E s" and "unat count < 2 ^ 63" and "run_state (vmi_read_pa E paddr count) s = (bs, t)"
  shows "length bs \<le> unat count
    \<and> (\<forall>i < length bs. phys_byte E s (paddr + of_nat i) = Some (bs ! i))
    \<and> (length bs < unat count \<longrightarrow> phys_byte E s (paddr + of_nat (length bs)) = None)
    \<and> vm_ok E t \<and> core t = core s
    \<and> (\<exists>u. run_state (copy_loop E (\<lambda>off. return (Some (paddr + off))) (Suc (unat count)) count 0) s
         = (Some bs, u))"
proof -
  let ?f = "\<lambda>i. phys_byte E s (paddr + of_nat i)"
  note r = reads_run [OF phys.reads_vmi_read_pa [OF assms(2)] assms(1,3)]
  have bs: "bs = prefix_from ?f 0 (unat count)" using r by (simp add: phys_bytes_def)
  have "unat count < Suc (unat count)" "unat (0 :: u64) + unat count < 2 ^ 63"
    using assms(2) by simp_all
  from phys.pa.copy_loop_prefix [OF assms(1) this, of paddr] have loop:
    "\<exists>u. run_state (copy_loop E (\<lambda>off. return (Some (paddr + off))) (Suc (unat count)) count 0) s
      = (Some bs, u)" by (auto simp: bs phys.pa_byte_at simp del: copy_loop.simps)
  moreover have "?f (length bs) = None" if "length bs < unat count"
    using that prefix_from_stops [of ?f 0 "unat count"] by (simp add: bs)
  moreover have "?f i = Some (bs ! i)" if "i < length bs" for i
    using that prefix_from_nth [of i ?f 0 "unat count"] by (simp add: bs)
  ultimately show ?thesis
    using r length_prefix_from [of ?f 0 "unat count"] bs by auto
qed

text \<open>A Xen guest whose frames can all be mapped, with the driver attached and an empty cache.\<close>

definition xen_guest :: "(addr_t \<Rightarrow> u8) \<Rightarrow> vmi" where
  "xen_guest m = (attach Xen xen_vmi)\<lparr>guest_mem := m\<rparr>"

lemma xen_guest_ok: "vm_ok xen_env (xen_guest m)" "driver (xen_guest m) = Some Xen"
  by (simp_all add: vm_ok_def page_cache_ok_def backing_ready_def entries_ok_def xen_guest_def
      attach_def attached_def xen_vmi_def zeroed_vmi_def)

lemma xen_guest_byte: "drop_bit 12 a \<noteq> 0 \<Longrightarrow> phys_byte xen_env (xen_guest m) a = Some (m a)"
  using page_base_offset [of a]
  by (simp add: phys_byte_def frame_read_def frame_page_def page_fetch_def memory_of_def Let_def
      page_byte_def push_drop_drop xen_guest_def attach_def xen_vmi_def zeroed_vmi_def xen_env_def
      beyond_memory_def)

lemma vmi_read_pa_prefix_witness:
  "\<exists>bs. fst (run_state (vmi_read_pa xen_env 8190 4) (xen_guest (\<lambda>a. ucast a))) = bs \<and> length bs \<le> 4
    \<and> (\<forall>i < length bs. phys_byte xen_env (xen_guest (\<lambda>a. ucast a)) (8190 + of_nat i) = Some (bs ! i))"
  using vmi_read_pa_prefix [OF xen_guest_ok(1) _ surjective_pairing, of 4 8190 "\<lambda>a. ucast a"] by simp

text \<open>C7: What is written to the physical memory of a Xen guest is what is read back: if the range
can be written and read, \<open>vmi_write_pa\<close> returns the count, and \<open>vmi_read_pa\<close> then returns the
bytes of the buffer.\<close>

theorem write_read_pa_roundtrip:
  assumes "vm_ok E s" and "driver s = Some Xen" and "unat count < 2 ^ 32" and "unat count \<le> length buf"
    and "writable E s paddr (unat count)"
    and "\<forall>i < unat count. phys_byte E s (paddr + of_nat i) \<noteq> None"
    and "run_state (vmi_write_pa E paddr (Some buf) count) s = (n, t)"
  shows "n = count \<and> fst (run_state (vmi_read_pa E paddr count) t) = take (unat count) buf"
proof -
  let ?bs = "take (unat count) buf"
  have len: "length ?bs = unat count" using assms(4) by simp
  have t: "n = count" "t = s\<lparr>guest_mem := mem_write paddr ?bs (guest_mem s)\<rparr>"
    using run_vmi_write_pa [OF assms(1-5)] assms(7) by simp_all
  have "unat count < 2 ^ 63" using assms(3) by simp
  moreover have "vm_ok E t" using assms(1) by (simp add: t guest_mem_upd)
  ultimately have "fst (run_state (vmi_read_pa E paddr count) t) = phys_bytes E t paddr (unat count)"
    using reads_value [OF phys.reads_vmi_read_pa] by simp
  moreover have "length ?bs \<le> 2 ^ 64" using len assms(3) by simp
  ultimately show ?thesis
    using phys_bytes_written [OF assms(1,2), of ?bs paddr] assms(6) len by (simp add: t)
qed

lemma write_read_pa_roundtrip_witness:
  "fst (run_state (vmi_read_pa xen_env 8190 4)
      (snd (run_state (vmi_write_pa xen_env 8190 (Some [1, 2, 3, 4]) 4) (xen_guest (\<lambda>_. 0)))))
    = [1, 2, 3, 4]"
proof -
  have "drop_bit 12 (8190 + of_nat i :: u64) \<noteq> 0" if "i < 4" for i
  proof -
    have "i = 0 \<or> i = 1 \<or> i = 2 \<or> i = 3" using that by auto
    then show ?thesis by auto
  qed
  then have "\<forall>i < unat (4 :: u64). phys_byte xen_env (xen_guest (\<lambda>_. 0)) (8190 + of_nat i) \<noteq> None"
    by (simp add: xen_guest_byte)
  moreover have "writable xen_env (xen_guest (\<lambda>_. 0)) 8190 (unat (4 :: u64))"
    by (simp add: writable_def xen_env_def)
  ultimately show ?thesis
    using write_read_pa_roundtrip [OF xen_guest_ok _ _ _ _ surjective_pairing, of 4 "[1, 2, 3, 4]" _ 8190]
    by simp
qed

text \<open>C14: \<open>vmi_read_str_pa\<close> returns the bytes up to the first zero when the string and the page
after it are readable, for every bound on the number of chunks above its length.\<close>

theorem vmi_read_str_pa_string:
  assumes "vm_ok E s" and "string_at E s p n"
    and "\<forall>i < n + 4096. phys_byte E s (p + of_nat i) \<noteq> None" and "n + 1 < fuel"
  shows "\<exists>str. fst (run_state (vmi_read_str_pa E fuel p) s) = Some (Some str) \<and> length str = n
    \<and> (\<forall>i < n. phys_byte E s (p + of_nat i) = Some (str ! i))"
proof -
  have "length (phys_bytes E s p n) = n" unfolding phys_bytes_full using assms(3) by simp
  with vmi_read_str_pa_finds [OF assms(1,2) _ assms(4)] assms(3) phys_bytes_nth [of _ E s p n]
  show ?thesis by fastforce
qed

lemma vmi_read_str_pa_string_witness:
  "\<exists>str. fst (run_state (vmi_read_str_pa xen_env 5 4096)
      (xen_guest (\<lambda>a. if a = 4097 then 0 else 65))) = Some (Some str) \<and> length str = 1"
proof -
  have "drop_bit 12 (4096 + of_nat i :: u64) \<noteq> 0" if "i < 4097" for i
  proof -
    have "unat (4096 + of_nat i :: u64) = 4096 + i" using that by (simp add: unat_word_ariths unat_of_nat)
    then have "unat (drop_bit 12 (4096 + of_nat i :: u64)) \<noteq> 0" by (simp add: unat_page_number)
    then show ?thesis by (metis unsigned_0)
  qed
  then show ?thesis
    using vmi_read_str_pa_string [OF xen_guest_ok(1), of "\<lambda>a. if a = 4097 then 0 else 65" 4096 1 5]
    by (auto simp: xen_guest_byte string_at_def)
qed

end
