(* ===== verification/Addr_Cache.thy ===== *)
theory Addr_Cache
  imports Vmi_Instance
begin

text \<open>
  The three address caches of \<^verbatim>\<open>cache.c\<close>: process number to page directory, symbol to virtual
  address, virtual to physical address. A hash table is a map from the value its keys are compared
  by: a number, a string, and for the third cache the 64-bit hash the code computes itself. A
  symbol is cached under the caller's own string, which the model takes not to change. Memory is
  allocated for keys and entries, whose addresses nothing compares; it is not modelled.
\<close>

unbundle bit_operations_syntax

subsection \<open>PID to DTB\<close>

definition pid_cache_entry_create :: "vmi \<Rightarrow> cint \<Rightarrow> addr_t \<Rightarrow> pid_cache_entry" where
  "pid_cache_entry_create s pid dtb = \<lparr>pid_pid = pid, pid_dtb = dtb, pid_last_used = clock s\<rparr>"

definition pid_cache_init :: "unit vm" where
  "pid_cache_init = modify (\<lambda>s. s\<lparr>pid_cache := Map.empty\<rparr>)"

definition pid_cache_destroy :: "unit vm" where
  "pid_cache_destroy = modify (\<lambda>s. s\<lparr>pid_cache := Map.empty\<rparr>)"

definition pid_cache_get :: "cint \<Rightarrow> addr_t \<Rightarrow> (status_t \<times> addr_t) vm" where
  "pid_cache_get pid dtb = do {
     s \<leftarrow> State_Monad.get;
     (case pid_cache s pid of
       Some entry \<Rightarrow> do {
         modify (\<lambda>s. s\<lparr>pid_cache := (pid_cache s)(pid \<mapsto> entry\<lparr>pid_last_used := clock s\<rparr>)\<rparr>);
         return (VMI_SUCCESS, pid_dtb entry) }
     | None \<Rightarrow> return (VMI_FAILURE, dtb)) }"

definition pid_cache_set :: "cint \<Rightarrow> addr_t \<Rightarrow> unit vm" where
  "pid_cache_set pid dtb =
     modify (\<lambda>s. s\<lparr>pid_cache := (pid_cache s)(pid \<mapsto> pid_cache_entry_create s pid dtb)\<rparr>)"

definition pid_cache_del :: "cint \<Rightarrow> status_t vm" where
  "pid_cache_del pid = do {
     s \<leftarrow> State_Monad.get;
     modify (\<lambda>s. s\<lparr>pid_cache := (pid_cache s)(pid := None)\<rparr>);
     return (if pid_cache s pid \<noteq> None then VMI_SUCCESS else VMI_FAILURE) }"

definition pid_cache_flush :: "unit vm" where
  "pid_cache_flush = modify (\<lambda>s. s\<lparr>pid_cache := Map.empty\<rparr>)"

subsection \<open>Symbol to virtual address\<close>

definition sym_cache_entry_create :: "vmi \<Rightarrow> string \<Rightarrow> addr_t \<Rightarrow> sym_cache_entry" where
  "sym_cache_entry_create s symb va = \<lparr>sym_sym = symb, sym_va = va, sym_last_used = clock s\<rparr>"

definition sym_cache_init :: "unit vm" where
  "sym_cache_init = modify (\<lambda>s. s\<lparr>sym_cache := Map.empty\<rparr>)"

definition sym_cache_destroy :: "unit vm" where
  "sym_cache_destroy = modify (\<lambda>s. s\<lparr>sym_cache := Map.empty\<rparr>)"

definition sym_cache_get :: "string \<Rightarrow> addr_t \<Rightarrow> (status_t \<times> addr_t) vm" where
  "sym_cache_get symb va = do {
     s \<leftarrow> State_Monad.get;
     (case sym_cache s symb of
       Some entry \<Rightarrow> do {
         modify (\<lambda>s. s\<lparr>sym_cache := (sym_cache s)(symb \<mapsto> entry\<lparr>sym_last_used := clock s\<rparr>)\<rparr>);
         return (VMI_SUCCESS, sym_va entry) }
     | None \<Rightarrow> return (VMI_FAILURE, va)) }"

text \<open>
  The table keeps the caller's pointer as the key (\<^verbatim>\<open>g_hash_table_insert\<close>, and not the copy that the entry holds) and compares
  what it points to when it is looked up. The model takes the characters at the time of the call. That is the code's
  behaviour as long as the caller neither changes nor frees the string, which holds for the callers in the library's own
  examples, who pass literals and program arguments; for others nothing is claimed.
\<close>

definition sym_cache_set :: "string \<Rightarrow> addr_t \<Rightarrow> unit vm" where
  "sym_cache_set symb va =
     modify (\<lambda>s. s\<lparr>sym_cache := (sym_cache s)(symb \<mapsto> sym_cache_entry_create s symb va)\<rparr>)"

definition sym_cache_del :: "string \<Rightarrow> status_t vm" where
  "sym_cache_del symb = do {
     s \<leftarrow> State_Monad.get;
     modify (\<lambda>s. s\<lparr>sym_cache := (sym_cache s)(symb := None)\<rparr>);
     return (if sym_cache s symb \<noteq> None then VMI_SUCCESS else VMI_FAILURE) }"

definition sym_cache_flush :: "unit vm" where
  "sym_cache_flush = modify (\<lambda>s. s\<lparr>sym_cache := Map.empty\<rparr>)"

subsection \<open>Virtual to physical address\<close>

definition v2p_cache_entry_create :: "vmi \<Rightarrow> addr_t \<Rightarrow> addr_t \<Rightarrow> addr_t \<Rightarrow> v2p_cache_entry" where
  "v2p_cache_entry_create s va dtb pa =
     \<lparr>v2p_va = va, v2p_dtb = dtb, v2p_pa = pa, v2p_last_used = clock s\<rparr>"

definition hash128to64 :: "u64 \<Rightarrow> u64 \<Rightarrow> u64" where
  "hash128to64 low high = (
     let kMul = 0x9ddfea08eb382d69;
         a = (low XOR high) * kMul;
         a = a XOR drop_bit 47 a;
         b = (high XOR a) * kMul;
         b = b XOR drop_bit 47 b;
         b = b * kMul
     in b)"

text \<open>
  \<open>page_size\<close> is a \<open>uint32_t\<close>, so \<open>~(page_size - 1)\<close> has 32 bits and widening it clears the upper
  half of the address it is applied to.
\<close>

definition page_mask :: "vmi \<Rightarrow> u64" where
  "page_mask s = ucast (NOT (page_size s - 1))"

definition v2p_build_key :: "vmi \<Rightarrow> addr_t \<Rightarrow> addr_t \<Rightarrow> u64" where
  "v2p_build_key s va dtb = hash128to64 dtb (va AND page_mask s)"

definition v2p_cache_init :: "unit vm" where
  "v2p_cache_init = modify (\<lambda>s. s\<lparr>v2p_cache := Map.empty\<rparr>)"

definition v2p_cache_destroy :: "unit vm" where
  "v2p_cache_destroy = modify (\<lambda>s. s\<lparr>v2p_cache := Map.empty\<rparr>)"

definition v2p_cache_get :: "addr_t \<Rightarrow> addr_t \<Rightarrow> addr_t \<Rightarrow> (status_t \<times> addr_t) vm" where
  "v2p_cache_get va dtb pa = do {
     s \<leftarrow> State_Monad.get;
     let key = v2p_build_key s va dtb;
     (case v2p_cache s key of
       Some entry \<Rightarrow>
         if v2p_va entry AND page_mask s \<noteq> va AND page_mask s \<or> v2p_dtb entry \<noteq> dtb
         then return (VMI_FAILURE, pa)
         else do {
           modify (\<lambda>s. s\<lparr>v2p_cache := (v2p_cache s)(key \<mapsto> entry\<lparr>v2p_last_used := clock s\<rparr>)\<rparr>);
           return (VMI_SUCCESS, v2p_pa entry OR (ucast (page_size s - 1) AND va)) }
     | None \<Rightarrow> return (VMI_FAILURE, pa)) }"

definition v2p_cache_set :: "addr_t \<Rightarrow> addr_t \<Rightarrow> addr_t \<Rightarrow> unit vm" where
  "v2p_cache_set va dtb pa =
     (if va = 0 \<or> dtb = 0 \<or> pa = 0 then return ()
      else modify (\<lambda>s. let key = v2p_build_key s va dtb; pa = pa AND page_mask s
        in s\<lparr>v2p_cache := (v2p_cache s)(key \<mapsto> v2p_cache_entry_create s va dtb pa)\<rparr>))"

definition v2p_cache_del :: "addr_t \<Rightarrow> addr_t \<Rightarrow> status_t vm" where
  "v2p_cache_del va dtb = do {
     s \<leftarrow> State_Monad.get;
     let key = v2p_build_key s va dtb;
     modify (\<lambda>s. s\<lparr>v2p_cache := (v2p_cache s)(key := None)\<rparr>);
     return (if v2p_cache s key \<noteq> None then VMI_SUCCESS else VMI_FAILURE) }"

definition v2p_cache_flush :: "unit vm" where
  "v2p_cache_flush = modify (\<lambda>s. s\<lparr>v2p_cache := Map.empty\<rparr>)"

subsection \<open>External interface\<close>

definition vmi_pidcache_add :: "cint \<Rightarrow> addr_t \<Rightarrow> unit vm" where
  "vmi_pidcache_add pid dtb = pid_cache_set pid dtb"

definition vmi_pidcache_flush :: "unit vm" where
  "vmi_pidcache_flush = pid_cache_flush"

definition vmi_symcache_add :: "string \<Rightarrow> addr_t \<Rightarrow> unit vm" where
  "vmi_symcache_add symb va = sym_cache_set symb va"

definition vmi_symcache_flush :: "unit vm" where
  "vmi_symcache_flush = sym_cache_flush"

definition vmi_v2pcache_add :: "addr_t \<Rightarrow> addr_t \<Rightarrow> addr_t \<Rightarrow> unit vm" where
  "vmi_v2pcache_add va dtb pa = v2p_cache_set va dtb pa"

definition vmi_v2pcache_flush :: "unit vm" where
  "vmi_v2pcache_flush = v2p_cache_flush"

subsection \<open>The contract of a cache\<close>

text \<open>
  A cache may forget, but what it answers is what was stored last. Keys with the same
  representative \<open>rep\<close> are not told apart, and a value is stored in the form \<open>form\<close>.
\<close>

locale lossy_cache =
  fixes rep :: "vmi \<Rightarrow> 'k \<Rightarrow> 'k" and form :: "vmi \<Rightarrow> 'v \<Rightarrow> 'v"
    and storable :: "'k \<Rightarrow> 'v \<Rightarrow> bool" and lookup :: "vmi \<Rightarrow> 'k \<Rightarrow> 'v option"
    and store :: "'k \<Rightarrow> 'v \<Rightarrow> vmi \<Rightarrow> vmi" and delete :: "'k \<Rightarrow> vmi \<Rightarrow> vmi" and flush :: "vmi \<Rightarrow> vmi"
  assumes lookup_store: "storable k v \<Longrightarrow> rep s k = rep s k' \<Longrightarrow>
      lookup (store k v s) k' = Some (form s v)"
    and lookup_store_other: "rep s k \<noteq> rep s k' \<Longrightarrow>
      lookup (store k v s) k' = lookup s k' \<or> lookup (store k v s) k' = None"
    and store_nothing: "\<not> storable k v \<Longrightarrow> store k v s = s"
    and lookup_delete: "lookup (delete k s) k = None"
    and lookup_delete_other: "lookup (delete k s) k' = lookup s k' \<or> lookup (delete k s) k' = None"
    and lookup_flush: "lookup (flush s) k = None"
    and core_store: "core (store k v s) = core s"
    and core_delete: "core (delete k s) = core s"
    and core_flush: "core (flush s) = core s"
    and rep_core: "rep (core s) = rep s"
begin

text \<open>All answers agree with a function of the representatives.\<close>

definition sound :: "('k \<Rightarrow> 'v option) \<Rightarrow> vmi \<Rightarrow> bool" where
  "sound F s \<longleftrightarrow> (\<forall>k v. lookup s k = Some v \<longrightarrow> F (rep s k) = Some v)"

lemma rep_cong: "core s = core t \<Longrightarrow> rep s = rep t"
  by (metis rep_core)

lemma sound_store:
  assumes "sound F s" and "storable k v \<Longrightarrow> F (rep s k) = Some (form s v)"
  shows "sound F (store k v s)"
proof (cases "storable k v")
  case False
  then show ?thesis using assms(1) by (simp add: store_nothing)
next
  case True
  show ?thesis
    unfolding sound_def
  proof (intro allI impI)
    fix k' v'
    assume l: "lookup (store k v s) k' = Some v'"
    show "F (rep (store k v s) k') = Some v'"
    proof (cases "rep s k = rep s k'")
      case same: True
      then show ?thesis
        using l assms(2) True lookup_store [OF True same] rep_cong [OF core_store] by simp
    next
      case False
      with l lookup_store_other [OF False, of v] have "lookup s k' = Some v'" by auto
      then show ?thesis using assms(1) rep_cong [OF core_store] by (simp add: sound_def)
    qed
  qed
qed

lemma sound_delete: "sound F s \<Longrightarrow> sound F (delete k s)"
  unfolding sound_def rep_cong [OF core_delete] using lookup_delete_other by (metis option.distinct(1))

lemma sound_flush: "sound F (flush s)"
  by (simp add: sound_def lookup_flush)

end

text \<open>A cache that forgets nothing by itself is a map.\<close>

locale exact_cache = lossy_cache +
  assumes rep_id: "rep s k = k"
    and keeps_store: "k \<noteq> k' \<Longrightarrow> lookup (store k v s) k' = lookup s k'"
    and keeps_delete: "k \<noteq> k' \<Longrightarrow> lookup (delete k s) k' = lookup s k'"
begin

lemma store_is_update: "storable k v \<Longrightarrow> lookup (store k v s) = (lookup s)(k \<mapsto> form s v)"
  using lookup_store keeps_store rep_id by (auto simp: fun_eq_iff)

lemma delete_is_update: "lookup (delete k s) = (lookup s)(k := None)"
  using lookup_delete keeps_delete by (auto simp: fun_eq_iff)

end

subsection \<open>The caches meet the contract\<close>

definition pid_lookup :: "vmi \<Rightarrow> cint \<Rightarrow> addr_t option" where
  "pid_lookup s pid = map_option pid_dtb (pid_cache s pid)"

definition sym_lookup :: "vmi \<Rightarrow> string \<Rightarrow> addr_t option" where
  "sym_lookup s symb = map_option sym_va (sym_cache s symb)"

text \<open>What \<open>v2p_cache_get\<close> finds: the frame stored for the page, not another page of the same hash.\<close>

definition v2p_lookup :: "vmi \<Rightarrow> addr_t \<times> addr_t \<Rightarrow> addr_t option" where
  "v2p_lookup s = (\<lambda>(va, dtb). case v2p_cache s (v2p_build_key s va dtb) of
     None \<Rightarrow> None
   | Some e \<Rightarrow> if v2p_va e AND page_mask s = va AND page_mask s \<and> v2p_dtb e = dtb
       then Some (v2p_pa e) else None)"

interpretation pidc: exact_cache "\<lambda>_ k. k" "\<lambda>_ v. v" "\<lambda>_ _. True" pid_lookup
    "\<lambda>pid dtb s. snd (run_state (pid_cache_set pid dtb) s)"
    "\<lambda>pid s. snd (run_state (pid_cache_del pid) s)" "\<lambda>s. snd (run_state pid_cache_flush s)"
  by unfold_locales (auto simp: pid_lookup_def pid_cache_set_def pid_cache_del_def pid_cache_flush_def
      pid_cache_entry_create_def)

interpretation symc: exact_cache "\<lambda>_ k. k" "\<lambda>_ v. v" "\<lambda>_ _. True" sym_lookup
    "\<lambda>symb va s. snd (run_state (sym_cache_set symb va) s)"
    "\<lambda>symb s. snd (run_state (sym_cache_del symb) s)" "\<lambda>s. snd (run_state sym_cache_flush s)"
  by unfold_locales (auto simp: sym_lookup_def sym_cache_set_def sym_cache_del_def sym_cache_flush_def
      sym_cache_entry_create_def)

lemma page_mask_idem: "x AND page_mask s AND page_mask s = x AND page_mask s"
  by (simp add: and.assoc)

lemma page_mask_core [simp]: "page_mask (core s) = page_mask s"
  and page_mask_v2p [simp]: "page_mask (s\<lparr>v2p_cache := c\<rparr>) = page_mask s"
  by (simp_all add: page_mask_def)

lemma build_key_v2p [simp]: "v2p_build_key (s\<lparr>v2p_cache := c\<rparr>) va dtb = v2p_build_key s va dtb"
  by (simp add: v2p_build_key_def)

lemma v2p_set_state:
  "va \<noteq> 0 \<Longrightarrow> dtb \<noteq> 0 \<Longrightarrow> pa \<noteq> 0 \<Longrightarrow> snd (run_state (v2p_cache_set va dtb pa) s) =
    s\<lparr>v2p_cache := (v2p_cache s)(v2p_build_key s va dtb \<mapsto>
      \<lparr>v2p_va = va, v2p_dtb = dtb, v2p_pa = pa AND page_mask s, v2p_last_used = clock s\<rparr>)\<rparr>"
  by (simp add: v2p_cache_set_def v2p_cache_entry_create_def Let_def)

lemma v2p_lookup_table: "v2p_lookup (s\<lparr>v2p_cache := c\<rparr>) (va, dtb) =
    (case c (v2p_build_key s va dtb) of None \<Rightarrow> None
     | Some e \<Rightarrow> if v2p_va e AND page_mask s = va AND page_mask s \<and> v2p_dtb e = dtb
         then Some (v2p_pa e) else None)"
  by (simp add: v2p_lookup_def cong: option.case_cong)

lemma v2p_set_nothing:
  "va = 0 \<or> dtb = 0 \<or> pa = 0 \<Longrightarrow> snd (run_state (v2p_cache_set va dtb pa) s) = s"
  by (simp add: v2p_cache_set_def)

lemma v2p_del_state: "snd (run_state (v2p_cache_del va dtb) s) =
    s\<lparr>v2p_cache := (v2p_cache s)(v2p_build_key s va dtb := None)\<rparr>"
  by (simp add: v2p_cache_del_def Let_def)

interpretation v2pc: lossy_cache "\<lambda>s (va, dtb). (va AND page_mask s, dtb)" "\<lambda>s pa. pa AND page_mask s"
    "\<lambda>(va, dtb) pa. va \<noteq> 0 \<and> dtb \<noteq> 0 \<and> pa \<noteq> 0" v2p_lookup
    "\<lambda>(va, dtb) pa s. snd (run_state (v2p_cache_set va dtb pa) s)"
    "\<lambda>(va, dtb) s. snd (run_state (v2p_cache_del va dtb) s)" "\<lambda>s. snd (run_state v2p_cache_flush s)"
proof (unfold_locales, goal_cases)
  case (1 k v s k')
  then show ?case by (auto simp: v2p_lookup_def v2p_set_state v2p_build_key_def split: prod.splits)
next
  case (2 s k k' v)
  obtain va dtb va' dtb' where k: "k = (va, dtb)" "k' = (va', dtb')" by fastforce
  show ?case
  proof (cases "va = 0 \<or> dtb = 0 \<or> v = 0")
    case True
    then show ?thesis by (simp add: k v2p_set_nothing)
  next
    case False
    with 2 show ?thesis by (auto simp: k v2p_lookup_table v2p_set_state) (simp_all add: v2p_lookup_def)
  qed
next
  case (3 k v s)
  then show ?case by (auto simp: v2p_set_nothing split: prod.splits)
next
  case (4 k s)
  then show ?case by (auto simp: v2p_lookup_def v2p_del_state split: prod.splits)
next
  case (5 k s k')
  obtain va dtb va' dtb' where k: "k = (va, dtb)" "k' = (va', dtb')" by fastforce
  show ?case by (auto simp: k v2p_lookup_table v2p_del_state) (simp_all add: v2p_lookup_def)
next
  case (7 k v s)
  obtain va dtb where k: "k = (va, dtb)" by fastforce
  then show ?case
    by (cases "va = 0 \<or> dtb = 0 \<or> v = 0") (simp_all add: v2p_set_nothing v2p_set_state)
qed (auto simp: v2p_lookup_def v2p_cache_flush_def v2p_del_state split: prod.splits)

subsection \<open>Getting\<close>

text \<open>A successful get answers from the table and only notes the time.\<close>

definition answer :: "'a \<Rightarrow> 'a option \<Rightarrow> status_t \<times> 'a" where
  "answer old r = (case r of None \<Rightarrow> (VMI_FAILURE, old) | Some v \<Rightarrow> (VMI_SUCCESS, v))"

lemma answer_simps [simp]:
  "answer d None = (VMI_FAILURE, d)" "answer d (Some v) = (VMI_SUCCESS, v)"
  by (simp_all add: answer_def)

text \<open>What a get leaves alone: the core, all answers, and the page cache.\<close>

definition page_part :: "vmi \<Rightarrow> (addr_t \<rightharpoonup> memory_cache_entry) \<times> (nat \<times> addr_t) list \<times> u32" where
  "page_part s = (memory_cache s, memory_cache_lru s, memory_cache_size s)"

definition same_answers :: "vmi \<Rightarrow> vmi \<Rightarrow> bool" where
  "same_answers s t \<longleftrightarrow> core t = core s \<and> pid_lookup t = pid_lookup s \<and> sym_lookup t = sym_lookup s
     \<and> v2p_lookup t = v2p_lookup s \<and> page_part t = page_part s"

lemma same_answers_refl [simp]: "same_answers s s"
  by (simp add: same_answers_def)

lemma v2p_lookup_other [simp]:
  "v2p_lookup (s\<lparr>pid_cache := a\<rparr>) = v2p_lookup s" "v2p_lookup (s\<lparr>sym_cache := b\<rparr>) = v2p_lookup s"
  by (simp_all add: v2p_lookup_def v2p_build_key_def page_mask_def fun_eq_iff cong: option.case_cong)

lemma touch_pid: "pid_cache s pid = Some e \<Longrightarrow>
    same_answers s (s\<lparr>pid_cache := (pid_cache s)(pid \<mapsto> e\<lparr>pid_last_used := c\<rparr>)\<rparr>)"
  by (auto simp: same_answers_def pid_lookup_def sym_lookup_def page_part_def fun_eq_iff)

lemma touch_sym: "sym_cache s symb = Some e \<Longrightarrow>
    same_answers s (s\<lparr>sym_cache := (sym_cache s)(symb \<mapsto> e\<lparr>sym_last_used := c\<rparr>)\<rparr>)"
  by (auto simp: same_answers_def pid_lookup_def sym_lookup_def page_part_def fun_eq_iff)

lemma touch_v2p: "v2p_cache s key = Some e \<Longrightarrow>
    same_answers s (s\<lparr>v2p_cache := (v2p_cache s)(key \<mapsto> e\<lparr>v2p_last_used := c\<rparr>)\<rparr>)"
  by (auto simp: same_answers_def pid_lookup_def sym_lookup_def v2p_lookup_table page_part_def
      fun_eq_iff) (auto simp: v2p_lookup_def split: option.split)

lemma run_pid_cache_get:
  "\<exists>t. run_state (pid_cache_get pid d) s = (answer d (pid_lookup s pid), t) \<and> same_answers s t"
  by (auto simp: pid_cache_get_def pid_lookup_def touch_pid split: option.split)

lemma run_sym_cache_get:
  "\<exists>t. run_state (sym_cache_get symb d) s = (answer d (sym_lookup s symb), t) \<and> same_answers s t"
  by (auto simp: sym_cache_get_def sym_lookup_def touch_sym split: option.split)

lemma run_v2p_cache_get:
  "\<exists>t. run_state (v2p_cache_get va dtb d) s =
      (answer d (map_option (\<lambda>f. f OR (ucast (page_size s - 1) AND va)) (v2p_lookup s (va, dtb))), t)
    \<and> same_answers s t"
  by (auto simp: v2p_cache_get_def v2p_lookup_def touch_v2p Let_def split: option.split)

subsection \<open>Properties\<close>

lemma page_mask_4096: "page_size s = 4096 \<Longrightarrow> page_mask s = 0xFFFFF000"
  by (simp add: page_mask_def)

lemma bit_small:
  assumes "unat (a :: u64) < 2 ^ n" and "bit a i"
  shows "i < n"
proof -
  have "take_bit n a = a"
    using assms(1) by (simp add: word_unat_eq_iff unsigned_take_bit_eq take_bit_nat_eq_self)
  then have "bit (take_bit n a) i" using assms(2) by simp
  then show ?thesis by (simp add: bit_take_bit_iff)
qed

lemma mask32_bits: "bit (0xFFFFF000 :: u64) i \<longleftrightarrow> 12 \<le> i \<and> i < 32"
proof -
  have e: "(0xFFFFF000 :: u64) = push_bit 12 (mask 20)" by (simp add: mask_eq_exp_minus_1)
  show ?thesis unfolding e by (auto simp only: bit_push_bit_iff bit_mask_iff possible_bit_word) auto
qed

lemma mask12_bits: "bit (4095 :: u64) i \<longleftrightarrow> i < 12"
proof -
  have e: "(4095 :: u64) = mask 12" by (simp add: mask_eq_exp_minus_1)
  show ?thesis unfolding e by (auto simp only: bit_mask_iff possible_bit_word) auto
qed

text \<open>On 32-bit addresses the cache's mask is what it is meant to be.\<close>

lemma mask32_small:
  assumes "unat (a :: u64) < 2 ^ 32"
  shows "a AND 0xFFFFF000 = push_bit 12 (drop_bit 12 a)"
  using bit_small [OF assms]
  by (intro bit_word_eqI, simp only: bit_and_iff bit_push_bit_iff bit_drop_bit_eq,
      simp only: mask32_bits) auto

lemma mask32_same_page:
  assumes "unat (a :: u64) < 2 ^ 32" "unat b < 2 ^ 32"
  shows "a AND 0xFFFFF000 = b AND 0xFFFFF000 \<longleftrightarrow> drop_bit 12 a = drop_bit 12 b"
proof
  assume "a AND 0xFFFFF000 = b AND 0xFFFFF000"
  then have "drop_bit 12 (push_bit 12 (drop_bit 12 a)) = drop_bit 12 (push_bit 12 (drop_bit 12 b))"
    by (simp only: mask32_small [OF assms(1)] mask32_small [OF assms(2)])
  moreover have "drop_bit 12 (push_bit 12 (drop_bit 12 x)) = drop_bit 12 x" for x :: u64
    by (rule bit_word_eqI) (auto simp: bit_simps dest: bit_imp_le_length)
  ultimately show "drop_bit 12 a = drop_bit 12 b" by simp
next
  assume "drop_bit 12 a = drop_bit 12 b"
  then show "a AND 0xFFFFF000 = b AND 0xFFFFF000"
    by (simp only: mask32_small [OF assms(1)] mask32_small [OF assms(2)])
qed

text \<open>The address cache answers for a page what was stored for it, for addresses below 4 GiB:
after \<open>v2p_cache_set\<close>, a get of any address of the same page and address space succeeds with the
stored frame and the offset of the address asked for.\<close>

theorem v2p_cache_hit:
  assumes "page_size s = 4096" and "va \<noteq> 0" "dtb \<noteq> 0" "pa \<noteq> 0"
    and "unat va < 2 ^ 32" "unat va' < 2 ^ 32" "unat pa < 2 ^ 32" and "drop_bit 12 va' = drop_bit 12 va"
  shows "fst (run_state (v2p_cache_get va' dtb d) (snd (run_state (v2p_cache_set va dtb pa) s))) =
    (VMI_SUCCESS, push_bit 12 (drop_bit 12 pa) OR (4095 AND va'))"
proof -
  let ?t = "snd (run_state (v2p_cache_set va dtb pa) s)"
  have m: "page_mask s = 0xFFFFF000" by (rule page_mask_4096 [OF assms(1)])
  have "v2p_lookup ?t (va', dtb) = Some (pa AND page_mask s)"
    using v2pc.lookup_store [of "(va, dtb)" pa s "(va', dtb)"] assms mask32_same_page [of va' va]
    by (simp add: m)
  moreover have "page_size ?t = 4096"
    using core_eqD(2) [OF v2pc.core_store [of "(va, dtb)" pa s]] assms(1) by simp
  ultimately show ?thesis
    using run_v2p_cache_get [of va' dtb d ?t] mask32_small [OF assms(7)] by (auto simp: m)
qed

lemma v2p_cache_hit_witness:
  "fst (run_state (v2p_cache_get 0x80001234 0x2000 0)
     (snd (run_state (v2p_cache_set 0x80001FFF 0x2000 0x5FFF) (zeroed_vmi\<lparr>page_size := 4096\<rparr>))))
   = (VMI_SUCCESS, 0x5234)"
  using v2p_cache_hit [of "zeroed_vmi\<lparr>page_size := 4096\<rparr>" "0x80001FFF" "0x2000" "0x5FFF" "0x80001234"]
  by (simp add: drop_bit_eq_div push_bit_eq_mult)

text \<open>C11: Storing an address never makes the cache answer wrongly for another page or address space:
whatever the hash values, a get of a different (masked) page or of another \<open>dtb\<close> afterwards fails
or answers as it did before.\<close>

theorem v2p_cache_no_wrong_answer:
  assumes "(va AND page_mask s, dtb) \<noteq> (va' AND page_mask s, dtb')"
  shows "fst (run_state (v2p_cache_get va' dtb' d) (snd (run_state (v2p_cache_set va dtb pa) s)))
    \<in> {(VMI_FAILURE, d), fst (run_state (v2p_cache_get va' dtb' d) s)}"
proof -
  let ?t = "snd (run_state (v2p_cache_set va dtb pa) s)"
  have "v2p_lookup ?t (va', dtb') = v2p_lookup s (va', dtb') \<or> v2p_lookup ?t (va', dtb') = None"
    using v2pc.lookup_store_other [of s "(va, dtb)" "(va', dtb')" pa] assms by simp
  moreover have "page_size ?t = page_size s"
    using core_eqD(2) [OF v2pc.core_store [of "(va, dtb)" pa s]] by simp
  ultimately show ?thesis
    using run_v2p_cache_get [of va' dtb' d ?t] run_v2p_cache_get [of va' dtb' d s] by fastforce
qed

lemma v2p_cache_no_wrong_answer_witness:
  "fst (run_state (v2p_cache_get 0x3000 0x2000 0)
     (snd (run_state (v2p_cache_set 0x1000 0x2000 0x5000) (zeroed_vmi\<lparr>page_size := 4096\<rparr>))))
   \<in> {(VMI_FAILURE, 0), fst (run_state (v2p_cache_get 0x3000 0x2000 0) (zeroed_vmi\<lparr>page_size := 4096\<rparr>))}"
  by (rule v2p_cache_no_wrong_answer) (simp add: page_mask_def)

text \<open>The address cache confuses 64-bit addresses: the mask it applies has 32 bits, so an address
stored is also found under every address that agrees with it in bits 12 to 31, and the physical
address comes back without its upper half.\<close>

theorem v2p_cache_aliases:
  assumes "page_size s = 4096" and "va \<noteq> 0" "dtb \<noteq> 0" "pa \<noteq> 0"
    and "va' AND 0xFFFFF000 = va AND 0xFFFFF000"
  shows "fst (run_state (v2p_cache_get va' dtb d) (snd (run_state (v2p_cache_set va dtb pa) s))) =
    (VMI_SUCCESS, (pa AND 0xFFFFF000) OR (4095 AND va'))"
proof -
  let ?t = "snd (run_state (v2p_cache_set va dtb pa) s)"
  have m: "page_mask s = 0xFFFFF000" by (rule page_mask_4096 [OF assms(1)])
  have "v2p_lookup ?t (va', dtb) = Some (pa AND page_mask s)"
    using v2pc.lookup_store [of "(va, dtb)" pa s "(va', dtb)"] assms by (simp add: m)
  moreover have "page_size ?t = 4096"
    using core_eqD(2) [OF v2pc.core_store [of "(va, dtb)" pa s]] assms(1) by simp
  ultimately show ?thesis
    using run_v2p_cache_get [of va' dtb d ?t] by (auto simp: m)
qed

text \<open>A kernel address is answered with the frame of a user address, and without its upper bits.\<close>

lemma v2p_cache_aliases_witness:
  "fst (run_state (v2p_cache_get 0xFFFFFFFF80001234 0x2000 0)
     (snd (run_state (v2p_cache_set 0x80001000 0x2000 0x123456000) (zeroed_vmi\<lparr>page_size := 4096\<rparr>))))
   = (VMI_SUCCESS, 0x23456234)"
  using v2p_cache_aliases [of "zeroed_vmi\<lparr>page_size := 4096\<rparr>" "0x80001000" "0x2000" "0x123456000"
      "0xFFFFFFFF80001234"]
  by simp

end
