(* ===== verification/Page_Walk.thy ===== *)
theory Page_Walk
  imports Phys_Access Addr_Cache
begin

text \<open>
  The page-table walks of \<^verbatim>\<open>memory.c\<close> for the three paging modes of x86, and the radix trees of
  Intel's manual they are meant to walk. An entry that cannot be read leaves the variable it was
  to be stored in as it was: zero in the IA-32e functions, unset in the others.
\<close>

unbundle bit_operations_syntax

subsection \<open>Entries\<close>

definition entry_present :: "u64 \<Rightarrow> cint" where
  "entry_present entry = vmi_get_bit entry 0"

definition page_size_flag :: "u64 \<Rightarrow> cint" where
  "page_size_flag entry = vmi_get_bit entry 7"

definition get_bits_51to12 :: "u64 \<Rightarrow> u64" where
  "get_bits_51to12 value = value AND 0x000FFFFFFFFFF000"

subsection \<open>Tables of IA-32e\<close>

definition get_pml4_index :: "addr_t \<Rightarrow> addr_t" where
  "get_pml4_index vaddr = drop_bit 36 (vaddr AND 0x0000FF8000000000)"

definition get_pml4e :: "env \<Rightarrow> addr_t \<Rightarrow> reg_t \<Rightarrow> u64 vm" where
  "get_pml4e E vaddr dtb = do {
     let pml4e_address = get_bits_51to12 dtb OR get_pml4_index vaddr;
     (_, value) \<leftarrow> vmi_read_64_pa E pml4e_address 0;
     return value }"

definition get_pdpt_index_ia32e :: "addr_t \<Rightarrow> addr_t" where
  "get_pdpt_index_ia32e vaddr = drop_bit 27 (vaddr AND 0x0000007FC0000000)"

definition get_pdpte_ia32e :: "env \<Rightarrow> addr_t \<Rightarrow> u64 \<Rightarrow> u64 vm" where
  "get_pdpte_ia32e E vaddr pml4e = do {
     let pdpte_address = get_bits_51to12 pml4e OR get_pdpt_index_ia32e vaddr;
     (_, value) \<leftarrow> vmi_read_64_pa E pdpte_address 0;
     return value }"

definition get_pd_index_ia32e :: "addr_t \<Rightarrow> u64" where
  "get_pd_index_ia32e vaddr = drop_bit 18 (vaddr AND 0x000000003FE00000)"

definition get_pde_ia32e :: "env \<Rightarrow> addr_t \<Rightarrow> u64 \<Rightarrow> u64 vm" where
  "get_pde_ia32e E vaddr pdpte = do {
     let pde_address = get_bits_51to12 pdpte OR get_pd_index_ia32e vaddr;
     (_, value) \<leftarrow> vmi_read_64_pa E pde_address 0;
     return value }"

definition get_pt_index_ia32e :: "addr_t \<Rightarrow> u64" where
  "get_pt_index_ia32e vaddr = drop_bit 9 (vaddr AND 0x00000000001FF000)"

definition get_pte_ia32e :: "env \<Rightarrow> addr_t \<Rightarrow> u64 \<Rightarrow> u64 vm" where
  "get_pte_ia32e E vaddr pde = do {
     let pte_address = get_bits_51to12 pde OR get_pt_index_ia32e vaddr;
     (_, value) \<leftarrow> vmi_read_64_pa E pte_address 0;
     return value }"

definition get_paddr_ia32e :: "addr_t \<Rightarrow> u64 \<Rightarrow> u64" where
  "get_paddr_ia32e vaddr pte = get_bits_51to12 pte OR (vaddr AND 0x0000000000000FFF)"

definition get_gigpage_ia32e :: "addr_t \<Rightarrow> u64 \<Rightarrow> u64" where
  "get_gigpage_ia32e vaddr pdpte = (pdpte AND 0x000FFFFFC0000000) OR (vaddr AND 0x000000003FFFFFFF)"

definition get_2megpage_ia32e :: "addr_t \<Rightarrow> u64 \<Rightarrow> u64" where
  "get_2megpage_ia32e vaddr pde = (pde AND 0x000FFFFFFFE00000) OR (vaddr AND 0x00000000001FFFFF)"

subsection \<open>Tables of the 32-bit modes\<close>

definition get_pdptb :: "u32 \<Rightarrow> u32" where
  "get_pdptb pdpr = pdpr AND 0xFFFFFFE0"

definition pdpi_index :: "u32 \<Rightarrow> u32" where
  "pdpi_index pdpi = drop_bit 30 pdpi * 8"

definition get_pdpi :: "env \<Rightarrow> u32 \<Rightarrow> u32 \<Rightarrow> u64 vm" where
  "get_pdpi E vaddr dtb = do {
     let pdpi_entry = get_pdptb dtb + pdpi_index vaddr;
     (_, value) \<leftarrow> vmi_read_64_pa E (ucast pdpi_entry) (junk E);
     return value }"

definition pgd_index :: "cint \<Rightarrow> u32 \<Rightarrow> u32" where
  "pgd_index p address = (if p = 0 then (drop_bit 22 address AND 0x3FF) * 4
     else (drop_bit 21 address AND 0x1FF) * 8)"

definition pdba_base_nopae :: "u32 \<Rightarrow> u32" where
  "pdba_base_nopae pdpe = pdpe AND 0xFFFFF000"

definition pdba_base_pae :: "u64 \<Rightarrow> u64" where
  "pdba_base_pae pdpe = pdpe AND 0xFFFFFF000"

definition get_pgd_nopae :: "env \<Rightarrow> u32 \<Rightarrow> u32 \<Rightarrow> u32 vm" where
  "get_pgd_nopae E vaddr pdpe = do {
     p \<leftarrow> gets pae;
     let pgd_entry = pdba_base_nopae pdpe + pgd_index p vaddr;
     (_, value) \<leftarrow> vmi_read_32_pa E (ucast pgd_entry) (ucast (junk E));
     return value }"

text \<open>The sum has 64 bits; storing it in \<open>pgd_entry\<close> keeps 32 of them.\<close>

definition get_pgd_pae :: "env \<Rightarrow> u32 \<Rightarrow> u64 \<Rightarrow> u64 vm" where
  "get_pgd_pae E vaddr pdpe = do {
     p \<leftarrow> gets pae;
     let pgd_entry = (ucast (pdba_base_pae pdpe + ucast (pgd_index p vaddr)) :: u32);
     (_, value) \<leftarrow> vmi_read_64_pa E (ucast pgd_entry) (junk E);
     return value }"

definition pte_index :: "cint \<Rightarrow> u32 \<Rightarrow> u32" where
  "pte_index p address = (if p = 0 then (drop_bit 12 address AND 0x3FF) * 4
     else (drop_bit 12 address AND 0x1FF) * 8)"

definition ptba_base_nopae :: "u32 \<Rightarrow> u32" where
  "ptba_base_nopae pde = pde AND 0xFFFFF000"

definition ptba_base_pae :: "u64 \<Rightarrow> u64" where
  "ptba_base_pae pde = pde AND 0xFFFFFF000"

definition get_pte_nopae :: "env \<Rightarrow> u32 \<Rightarrow> u32 \<Rightarrow> u32 vm" where
  "get_pte_nopae E vaddr pgd = do {
     p \<leftarrow> gets pae;
     let pte_entry = ptba_base_nopae pgd + pte_index p vaddr;
     (_, value) \<leftarrow> vmi_read_32_pa E (ucast pte_entry) (ucast (junk E));
     return value }"

definition get_pte_pae :: "env \<Rightarrow> u32 \<Rightarrow> u64 \<Rightarrow> u64 vm" where
  "get_pte_pae E vaddr pgd = do {
     p \<leftarrow> gets pae;
     let pte_entry = (ucast (ptba_base_pae pgd + ucast (pte_index p vaddr)) :: u32);
     (_, value) \<leftarrow> vmi_read_64_pa E (ucast pte_entry) (junk E);
     return value }"

definition pte_pfn_nopae :: "u32 \<Rightarrow> u32" where
  "pte_pfn_nopae pte = pte AND 0xFFFFF000"

definition pte_pfn_pae :: "u64 \<Rightarrow> u64" where
  "pte_pfn_pae pte = pte AND 0xFFFFFF000"

definition get_paddr_nopae :: "u32 \<Rightarrow> u32 \<Rightarrow> u32" where
  "get_paddr_nopae vaddr pte = pte_pfn_nopae pte OR (vaddr AND 0xFFF)"

definition get_paddr_pae :: "u32 \<Rightarrow> u64 \<Rightarrow> u64" where
  "get_paddr_pae vaddr pte = pte_pfn_pae pte OR ucast (vaddr AND 0xFFF)"

definition get_large_paddr :: "cint \<Rightarrow> u32 \<Rightarrow> u32 \<Rightarrow> u32" where
  "get_large_paddr p vaddr pgd_entry =
     (if p = 0 then (pgd_entry AND 0xFFC00000) OR (vaddr AND 0x3FFFFF)
      else (pgd_entry AND 0xFFE00000) OR (vaddr AND 0x1FFFFF))"

subsection \<open>Entries that are not present\<close>

text \<open>
  \<open>buffalo_nopae\<close> only prints what a non-present entry means to Windows. \<open>!os_type == VMI_OS_WINDOWS\<close>
  negates first and compares 0 or 1 with 2, so the test for other systems never returns.
\<close>

datatype buffalo = Silent | PageFile u32 u32 | DemandZero | InTransition | Prototype | ZeroEntry | Unknown

definition get_transition_bit :: "u32 \<Rightarrow> cint" where
  "get_transition_bit entry = vmi_get_bit (ucast entry) 11"

definition get_prototype_bit :: "u32 \<Rightarrow> cint" where
  "get_prototype_bit entry = vmi_get_bit (ucast entry) 10"

definition os_number :: "os_t \<Rightarrow> nat" where
  "os_number os = (case os of VMI_OS_UNKNOWN \<Rightarrow> 0 | VMI_OS_LINUX \<Rightarrow> 1 | VMI_OS_WINDOWS \<Rightarrow> 2)"

definition buffalo_nopae :: "os_t \<Rightarrow> u32 \<Rightarrow> cint \<Rightarrow> buffalo" where
  "buffalo_nopae os entry pde = (
     let negated = (if os_number os = 0 then 1 else 0 :: nat) in
     if negated = os_number VMI_OS_WINDOWS then Silent
     else if get_transition_bit entry = 0 \<and> get_prototype_bit entry = 0 then
       (let pfnum = drop_bit 1 entry AND 0xF; pfframe = entry AND 0xFFFFF000 in
        if pfnum \<noteq> 0 \<and> pfframe \<noteq> 0 then PageFile pfnum pfframe
        else if pfnum = 0 \<and> pfframe = 0 then DemandZero
        else Silent)
     else if get_transition_bit entry \<noteq> 0 \<and> get_prototype_bit entry = 0 then InTransition
     else if pde = 0 \<and> get_prototype_bit entry \<noteq> 0 then Prototype
     else if entry = 0 then ZeroEntry
     else Unknown)"

subsection \<open>Translation\<close>

definition v2p_nopae :: "env \<Rightarrow> addr_t \<Rightarrow> addr_t \<Rightarrow> addr_t vm" where
  "v2p_nopae E dtb vaddr = do {
     p \<leftarrow> gets pae;
     os \<leftarrow> gets os_type;
     pgd \<leftarrow> get_pgd_nopae E (ucast vaddr) (ucast dtb);
     if entry_present (ucast pgd) \<noteq> 0 then
       if page_size_flag (ucast pgd) \<noteq> 0 then return (ucast (get_large_paddr p (ucast vaddr) pgd))
       else do {
         pte \<leftarrow> get_pte_nopae E (ucast vaddr) pgd;
         if entry_present (ucast pte) \<noteq> 0 then return (ucast (get_paddr_nopae (ucast vaddr) pte))
         else (let printed = buffalo_nopae os pte 1 in return 0) }
     else (let printed = buffalo_nopae os pgd 0 in return 0) }"

definition v2p_pae :: "env \<Rightarrow> addr_t \<Rightarrow> addr_t \<Rightarrow> addr_t vm" where
  "v2p_pae E dtb vaddr = do {
     p \<leftarrow> gets pae;
     pdpe \<leftarrow> get_pdpi E (ucast vaddr) (ucast dtb);
     if entry_present pdpe = 0 then return 0
     else do {
       pgd \<leftarrow> get_pgd_pae E (ucast vaddr) pdpe;
       if entry_present pgd \<noteq> 0 then
         if page_size_flag pgd \<noteq> 0 then
           return (ucast (get_large_paddr p (ucast vaddr) (ucast pgd)))
         else do {
           pte \<leftarrow> get_pte_pae E (ucast vaddr) pgd;
           if entry_present pte \<noteq> 0 then return (get_paddr_pae (ucast vaddr) pte)
           else return 0 }
       else return 0 } }"

definition v2p_ia32e :: "env \<Rightarrow> addr_t \<Rightarrow> addr_t \<Rightarrow> addr_t vm" where
  "v2p_ia32e E dtb vaddr = do {
     pml4e \<leftarrow> get_pml4e E vaddr dtb;
     if entry_present pml4e \<noteq> 0 then do {
       pdpte \<leftarrow> get_pdpte_ia32e E vaddr pml4e;
       if entry_present pdpte \<noteq> 0 then do {
         (paddr, pde) \<leftarrow>
           (if page_size_flag pdpte \<noteq> 0 then return (get_gigpage_ia32e vaddr pdpte, 0)
            else do { pde \<leftarrow> get_pde_ia32e E vaddr pdpte; return (0, pde) });
         if entry_present pde \<noteq> 0 then do {
           (paddr, pte) \<leftarrow>
             (if page_size_flag pde \<noteq> 0 then return (get_2megpage_ia32e vaddr pde, 0)
              else do { pte \<leftarrow> get_pte_ia32e E vaddr pde; return (paddr, pte) });
           return (if entry_present pte \<noteq> 0 then get_paddr_ia32e vaddr pte else paddr) }
         else return paddr }
       else return 0 }
     else return 0 }"

text \<open>
  The cached translation is used only if its address can still be read. With an unknown paging
  mode the variable keeps what the cache gave.
\<close>

definition vmi_pagetable_lookup :: "env \<Rightarrow> addr_t \<Rightarrow> addr_t \<Rightarrow> addr_t vm" where
  "vmi_pagetable_lookup E dtb vaddr = do {
     (st, paddr) \<leftarrow> v2p_cache_get vaddr dtb 0;
     valid \<leftarrow> (if st = VMI_SUCCESS then do {
         (st2, value) \<leftarrow> vmi_read_8_pa E paddr 0;
         if st2 = VMI_SUCCESS then return True
         else do { _ \<leftarrow> v2p_cache_del vaddr dtb; return False } }
       else return False);
     if valid then return paddr
     else do {
       pm \<leftarrow> gets page_mode;
       paddr \<leftarrow> (case pm of
           VMI_PM_LEGACY \<Rightarrow> v2p_nopae E dtb vaddr
         | VMI_PM_PAE \<Rightarrow> v2p_pae E dtb vaddr
         | VMI_PM_IA32E \<Rightarrow> v2p_ia32e E dtb vaddr
         | VMI_PM_UNKNOWN \<Rightarrow> return paddr);
       (if paddr \<noteq> 0 then v2p_cache_set vaddr dtb paddr else return ());
       return paddr } }"

subsection \<open>Bits of entries\<close>

lemma vmi_get_bit_iff:
  assumes "n < 31"
  shows "vmi_get_bit reg n = (if bit reg n then 1 else 0)"
proof -
  have "(scast (push_bit n (1 :: cint)) :: reg_t) = push_bit n 1"
  proof (rule bit_word_eqI)
    fix i
    assume "i < LENGTH(64)"
    then show "bit (scast (push_bit n (1 :: cint)) :: reg_t) i = bit (push_bit n 1 :: reg_t) i"
      using assms by (auto simp: bit_simps min_def bit_1_iff)
  qed
  then show ?thesis by (simp add: vmi_get_bit_def bit_iff_and_push_bit_not_eq_0)
qed

lemma entry_present_iff: "entry_present e \<noteq> 0 \<longleftrightarrow> bit e 0"
  by (simp add: entry_present_def vmi_get_bit_iff)

lemma page_size_flag_iff: "page_size_flag e \<noteq> 0 \<longleftrightarrow> bit e 7"
  by (simp add: page_size_flag_def vmi_get_bit_iff)

text \<open>\<open>get_bits lo n w\<close> is the field of \<open>n\<close> bits of \<open>w\<close> that starts at bit \<open>lo\<close>.\<close>

definition field :: "nat \<Rightarrow> nat \<Rightarrow> 'a::len word \<Rightarrow> 'a word" where
  "field lo n w = take_bit n (drop_bit lo w)"

lemma bit_field: "bit (field lo n w) i \<longleftrightarrow> i < n \<and> bit w (lo + i)"
  by (auto simp: field_def bit_simps)

lemma and_field_mask: "w AND push_bit lo (mask n) = push_bit lo (field lo n w)"
  by (rule bit_word_eqI) (auto simp: bit_simps bit_field)

lemma index_by_8:
  assumes "3 \<le> lo" "lo + n \<le> LENGTH('a)"
  shows "drop_bit (lo - 3) (w AND push_bit lo (mask n)) = (push_bit 3 (field lo n w) :: 'a::len word)"
  by (rule bit_word_eqI) (use assms in \<open>auto simp: bit_simps bit_field\<close>)

text \<open>The constants of the code as fields.\<close>

lemma ia32e_masks:
  "(0x000FFFFFFFFFF000 :: u64) = push_bit 12 (mask 40)"
  "(0x0000FF8000000000 :: u64) = push_bit 39 (mask 9)"
  "(0x0000007FC0000000 :: u64) = push_bit 30 (mask 9)"
  "(0x000000003FE00000 :: u64) = push_bit 21 (mask 9)"
  "(0x00000000001FF000 :: u64) = push_bit 12 (mask 9)"
  "(0x000FFFFFC0000000 :: u64) = push_bit 30 (mask 22)"
  "(0x000FFFFFFFE00000 :: u64) = push_bit 21 (mask 31)"
  "(0x000000003FFFFFFF :: u64) = mask 30" "(0x00000000001FFFFF :: u64) = mask 21"
  "(0xFFF :: u64) = mask 12"
  by (simp_all add: mask_eq_exp_minus_1)

lemma or_disjoint_add:
  assumes "\<And>i. bit a i \<Longrightarrow> \<not> bit b i"
  shows "a OR b = (a + b :: 'a::len word)"
  by (rule disjunctive_add_eq_or [symmetric]) (use assms in \<open>auto simp: bit_eq_iff bit_simps\<close>)

definition frame :: "u64 \<Rightarrow> u64" where
  "frame e = push_bit 12 (field 12 40 e)"

lemma ia32e_fields:
  "get_bits_51to12 e = frame e"
  "get_pml4_index va = push_bit 3 (field 39 9 va)"
  "get_pdpt_index_ia32e va = push_bit 3 (field 30 9 va)"
  "get_pd_index_ia32e va = push_bit 3 (field 21 9 va)"
  "get_pt_index_ia32e va = push_bit 3 (field 12 9 va)"
  using index_by_8 [of 39 9 va] index_by_8 [of 30 9 va] index_by_8 [of 21 9 va] index_by_8 [of 12 9 va]
  by (simp_all only: get_bits_51to12_def get_pml4_index_def get_pdpt_index_ia32e_def
      get_pd_index_ia32e_def get_pt_index_ia32e_def ia32e_masks and_field_mask frame_def) simp_all

lemma ia32e_pages:
  "get_paddr_ia32e va e = push_bit 12 (field 12 40 e) + take_bit 12 va"
  "get_gigpage_ia32e va e = push_bit 30 (field 30 22 e) + take_bit 30 va"
  "get_2megpage_ia32e va e = push_bit 21 (field 21 31 e) + take_bit 21 va"
  by (simp_all only: get_paddr_ia32e_def get_gigpage_ia32e_def get_2megpage_ia32e_def
      get_bits_51to12_def ia32e_masks and_field_mask take_bit_eq_mask [symmetric])
    (rule or_disjoint_add; auto simp: bit_simps bit_field)+

lemma table_entry: "frame e OR push_bit 3 (field lo 9 va) = frame e + 8 * field lo 9 va"
proof -
  have "frame e OR push_bit 3 (field lo 9 va) = frame e + push_bit 3 (field lo 9 va)"
    by (rule or_disjoint_add) (auto simp: frame_def bit_simps bit_field)
  then show ?thesis by (simp add: push_bit_eq_mult mult.commute)
qed

subsection \<open>The radix tree of IA-32e paging\<close>

text \<open>
  The specification, after Intel's description of 4-level paging: at level \<open>lvl\<close> nine bits of the
  address select an entry; an entry that is not present ends the walk, an entry of level 0, or of
  level 1 or 2 with bit 7 set, maps a page of \<open>2 ^ (12 + 9 * lvl)\<close> bytes, any other leads to the
  table in its frame.
\<close>

fun radix_walk :: "(u64 \<Rightarrow> u64) \<Rightarrow> nat \<Rightarrow> u64 \<Rightarrow> u64 \<Rightarrow> u64 option" where
  "radix_walk rd lvl table va = (
     let shift = 12 + 9 * lvl; e = rd (table + 8 * field shift 9 va) in
     if \<not> bit e 0 then None
     else if lvl = 0 \<or> (lvl \<le> 2 \<and> bit e 7) then
       Some (push_bit shift (field shift (52 - shift) e) + take_bit shift va)
     else radix_walk rd (lvl - 1) (frame e) va)"

declare radix_walk.simps [simp del]

definition zero_if_none :: "u64 option \<Rightarrow> u64" where
  "zero_if_none r = (case r of None \<Rightarrow> 0 | Some pa \<Rightarrow> pa)"

definition entry_at :: "env \<Rightarrow> vmi \<Rightarrow> 'a::len word \<Rightarrow> u64 \<Rightarrow> 'a word" where
  "entry_at E s old a = snd (phys_word E s a old)"

lemma entry_at_core [simp]: "entry_at E (core s) = entry_at E s"
  by (simp add: entry_at_def fun_eq_iff)

lemma reads_case_prod:
  assumes "\<And>a b. reads I c (k a b) (g a b)"
  shows "reads I c (case x of (a, b) \<Rightarrow> k a b) (\<lambda>s. case x of (a, b) \<Rightarrow> g a b s)"
  using assms by (cases x) simp

context page_source
begin

lemma reads_entry64: "reads I core (vmi_read_64_pa E a v \<bind> (\<lambda>(_, value). return value))
    (\<lambda>s. entry_at E s v a)"
  using reads_vmi_read_width_pa(4) [of a v] by (simp add: reads_def case_prod_beta entry_at_def)

lemma reads_entry32: "reads I core (vmi_read_32_pa E a v \<bind> (\<lambda>(_, value). return value))
    (\<lambda>s. entry_at E s v a)"
  using reads_vmi_read_width_pa(3) [of a v] by (simp add: reads_def case_prod_beta entry_at_def)

lemma reads_ia32e_tables:
  "reads I core (get_pml4e E va e) (\<lambda>s. entry_at E s 0 (frame e + 8 * field 39 9 va))"
  "reads I core (get_pdpte_ia32e E va e) (\<lambda>s. entry_at E s 0 (frame e + 8 * field 30 9 va))"
  "reads I core (get_pde_ia32e E va e) (\<lambda>s. entry_at E s 0 (frame e + 8 * field 21 9 va))"
  "reads I core (get_pte_ia32e E va e) (\<lambda>s. entry_at E s 0 (frame e + 8 * field 12 9 va))"
  by (simp_all add: get_pml4e_def get_pdpte_ia32e_def get_pde_ia32e_def get_pte_ia32e_def Let_def
      ia32e_fields table_entry reads_entry64)

lemma reads_v2p_ia32e:
  "reads I core (v2p_ia32e E dtb va) (\<lambda>s. zero_if_none (radix_walk (entry_at E s 0) 3 (frame dtb) va))"
  unfolding v2p_ia32e_def
  by (rule reads_weaken, (rule reads_bind reads_if reads_return reads_ia32e_tables reads_case_prod)+)
    (simp add: entry_present_iff page_size_flag_iff radix_walk.simps Let_def zero_if_none_def
      ia32e_pages)

end

subsection \<open>The 32-bit modes\<close>

text \<open>The two-level tree of 32-bit paging, with 4-byte entries and 4 MB pages.\<close>

fun radix_walk32 :: "(u32 \<Rightarrow> u32) \<Rightarrow> nat \<Rightarrow> u32 \<Rightarrow> u32 \<Rightarrow> u32 option" where
  "radix_walk32 rd lvl table va = (
     let shift = 12 + 10 * lvl; e = rd (table + 4 * field shift 10 va) in
     if \<not> bit e 0 then None
     else if lvl = 0 \<or> bit e 7 then
       Some (push_bit shift (field shift (32 - shift) e) + take_bit shift va)
     else radix_walk32 rd (lvl - 1) (push_bit 12 (field 12 20 e)) va)"

declare radix_walk32.simps [simp del]

text \<open>The three-level tree of PAE paging: four pointers, then the two lower levels of the tree above.\<close>

definition radix_walk_pae :: "(u64 \<Rightarrow> u64) \<Rightarrow> u32 \<Rightarrow> u32 \<Rightarrow> u64 option" where
  "radix_walk_pae rd dtb va = (
     let pdpe = rd (ucast (push_bit 5 (field 5 27 dtb) + 8 * field 30 2 va)) in
     if \<not> bit pdpe 0 then None else radix_walk rd 1 (frame pdpe) (ucast va))"

lemma masks32:
  "(0xFFFFF000 :: u32) = push_bit 12 (mask 20)" "(0xFFC00000 :: u32) = push_bit 22 (mask 10)"
  "(0xFFE00000 :: u32) = push_bit 21 (mask 11)" "(0xFFFFFFE0 :: u32) = push_bit 5 (mask 27)"
  "(0x3FFFFF :: u32) = mask 22" "(0x1FFFFF :: u32) = mask 21" "(0xFFF :: u32) = mask 12"
  "(0x3FF :: u32) = mask 10" "(0x1FF :: u32) = mask 9" "(0xFFFFFF000 :: u64) = push_bit 12 (mask 24)"
  by (simp_all add: mask_eq_exp_minus_1)

lemma nopae_fields:
  "pdba_base_nopae e = push_bit 12 (field 12 20 e)" "ptba_base_nopae e = push_bit 12 (field 12 20 e)"
  "pgd_index 0 va = 4 * field 22 10 va" "pte_index 0 va = 4 * field 12 10 va"
  "get_paddr_nopae va e = push_bit 12 (field 12 20 e) + take_bit 12 va"
  "get_large_paddr 0 va e = push_bit 22 (field 22 10 e) + take_bit 22 va"
proof -
  show "pgd_index 0 va = 4 * field 22 10 va" "pte_index 0 va = 4 * field 12 10 va"
    by (simp_all only: pgd_index_def pte_index_def masks32 field_def take_bit_eq_mask simp_thms if_True
        mult.commute)
  show "get_paddr_nopae va e = push_bit 12 (field 12 20 e) + take_bit 12 va"
    "get_large_paddr 0 va e = push_bit 22 (field 22 10 e) + take_bit 22 va"
    by (simp_all only: get_paddr_nopae_def pte_pfn_nopae_def get_large_paddr_def masks32
        and_field_mask take_bit_eq_mask [symmetric] simp_thms if_True)
      (rule or_disjoint_add; auto simp: bit_simps bit_field)+
qed (simp_all only: pdba_base_nopae_def ptba_base_nopae_def masks32 and_field_mask)

lemma entry_present_iff32: "entry_present (ucast (e :: u32)) \<noteq> 0 \<longleftrightarrow> bit e 0"
  and page_size_flag_iff32: "page_size_flag (ucast (e :: u32)) \<noteq> 0 \<longleftrightarrow> bit e 7"
  by (simp_all add: entry_present_iff page_size_flag_iff bit_ucast_iff)

text \<open>What the walk reads as an entry: unset variables hold \<open>junk\<close> where the memory is unreadable.\<close>

definition entry32 :: "env \<Rightarrow> vmi \<Rightarrow> u32 \<Rightarrow> u32" where
  "entry32 E s a = entry_at E s (ucast (junk E)) (ucast a)"

definition entry64 :: "env \<Rightarrow> vmi \<Rightarrow> u64 \<Rightarrow> u64" where
  "entry64 E s a = entry_at E s (junk E) a"

lemma entry_core [simp]: "entry32 E (core s) = entry32 E s" "entry64 E (core s) = entry64 E s"
  by (simp_all add: entry32_def entry64_def fun_eq_iff)

definition nopae_fun :: "env \<Rightarrow> u32 \<Rightarrow> u32 \<Rightarrow> vmi \<Rightarrow> u64" where
  "nopae_fun E dtb va s = (
     let pgd = entry32 E s (pdba_base_nopae dtb + pgd_index (pae s) va);
         pte = entry32 E s (ptba_base_nopae pgd + pte_index (pae s) va) in
     if \<not> bit pgd 0 then 0
     else if bit pgd 7 then ucast (get_large_paddr (pae s) va pgd)
     else if bit pte 0 then ucast (get_paddr_nopae va pte) else 0)"

definition pae_fun :: "env \<Rightarrow> u32 \<Rightarrow> u32 \<Rightarrow> vmi \<Rightarrow> u64" where
  "pae_fun E dtb va s = (
     let pdpe = entry64 E s (ucast (get_pdptb dtb + pdpi_index va));
         pgd = entry64 E s (ucast (ucast (pdba_base_pae pdpe + ucast (pgd_index (pae s) va)) :: u32));
         pte = entry64 E s (ucast (ucast (ptba_base_pae pgd + ucast (pte_index (pae s) va)) :: u32)) in
     if \<not> bit pdpe 0 \<or> \<not> bit pgd 0 then 0
     else if bit pgd 7 then ucast (get_large_paddr (pae s) va (ucast pgd))
     else if bit pte 0 then get_paddr_pae va pte else 0)"

context page_source
begin

lemma reads_pae_flag: "reads I core (gets pae) pae" "reads I core (gets os_type) os_type"
  by (rule reads_gets; simp)+

lemma reads_nopae_tables:
  "reads I core (get_pgd_nopae E va e) (\<lambda>s. entry32 E s (pdba_base_nopae e + pgd_index (pae s) va))"
  "reads I core (get_pte_nopae E va e) (\<lambda>s. entry32 E s (ptba_base_nopae e + pte_index (pae s) va))"
  unfolding get_pgd_nopae_def get_pte_nopae_def Let_def entry32_def
  by (rule reads_weaken, (rule reads_bind reads_pae_flag reads_entry32)+, simp)+

lemma reads_pae_tables:
  "reads I core (get_pdpi E va e) (\<lambda>s. entry64 E s (ucast (get_pdptb e + pdpi_index va)))"
  "reads I core (get_pgd_pae E va f)
    (\<lambda>s. entry64 E s (ucast (ucast (pdba_base_pae f + ucast (pgd_index (pae s) va)) :: u32)))"
  "reads I core (get_pte_pae E va f)
    (\<lambda>s. entry64 E s (ucast (ucast (ptba_base_pae f + ucast (pte_index (pae s) va)) :: u32)))"
  unfolding get_pdpi_def get_pgd_pae_def get_pte_pae_def Let_def entry64_def
  by (rule reads_entry64)
    (rule reads_weaken, (rule reads_bind reads_pae_flag reads_entry64)+, simp)+

lemma reads_v2p_nopae: "reads I core (v2p_nopae E dtb va) (nopae_fun E (ucast dtb) (ucast va))"
  unfolding v2p_nopae_def Let_def
  by (rule reads_weaken, (rule reads_bind reads_if reads_return reads_nopae_tables reads_pae_flag)+)
    (simp add: nopae_fun_def Let_def entry_present_iff32 page_size_flag_iff32)

lemma reads_v2p_pae: "reads I core (v2p_pae E dtb va) (pae_fun E (ucast dtb) (ucast va))"
  unfolding v2p_pae_def
  by (rule reads_weaken, (rule reads_bind reads_if reads_return reads_pae_tables reads_pae_flag)+)
    (use entry_present_iff page_size_flag_iff in \<open>auto simp: pae_fun_def Let_def\<close>)

end

lemma nopae_fun_radix:
  "pae s = 0 \<Longrightarrow> nopae_fun E dtb va s =
    (case radix_walk32 (entry32 E s) 1 (push_bit 12 (field 12 20 dtb)) va of
       None \<Rightarrow> 0 | Some pa \<Rightarrow> ucast pa)"
  by (simp add: nopae_fun_def radix_walk32.simps Let_def nopae_fields)

lemma field_zeroD: "field lo n w = 0 \<Longrightarrow> bit w i \<Longrightarrow> i < lo + n \<Longrightarrow> i < lo"
  using bit_field [of lo n w "i - lo"] by (cases "lo \<le> i") auto

lemma ucast_ucast_take: "(ucast (ucast (x :: u64) :: u32) :: u64) = take_bit 32 x"
  by (rule bit_word_eqI) (auto simp: bit_simps)

lemma ucast_field: "8 * ucast (field lo 9 (va :: u32)) = push_bit 3 (field lo 9 (ucast va :: u64))"
proof -
  have "(ucast (field lo 9 va) :: u64) = field lo 9 (ucast va)"
    by (rule bit_word_eqI) (auto simp: bit_simps bit_field dest: bit_imp_le_length)
  then show ?thesis by (simp add: push_bit_eq_mult mult.commute)
qed

lemma ucast_8_field: "(ucast (8 * field lo 9 (va :: u32)) :: u64) = push_bit 3 (field lo 9 (ucast va))"
proof -
  have "8 * field lo 9 va = push_bit 3 (field lo 9 va)" by (simp add: push_bit_eq_mult mult.commute)
  then have "(ucast (8 * field lo 9 va) :: u64) = ucast (push_bit 3 (field lo 9 va))" by simp
  also have "\<dots> = push_bit 3 (field lo 9 (ucast va))"
    by (rule bit_word_eqI) (auto simp: bit_simps bit_field dest: bit_imp_le_length)
  finally show ?thesis .
qed

lemma pae_table_address:
  assumes "field 32 20 e = 0"
  shows "ucast (ucast (push_bit 12 (field 12 24 e) + ucast (8 * field lo 9 (va :: u32))) :: u32)
    = frame e + 8 * field lo 9 (ucast va)"
proof -
  have "push_bit 12 (field 12 24 e) = frame e"
    by (rule bit_word_eqI) (auto simp: frame_def bit_simps bit_field dest: field_zeroD [OF assms])
  then have "push_bit 12 (field 12 24 e) + ucast (8 * field lo 9 va) =
      frame e OR push_bit 3 (field lo 9 (ucast va))"
    by (simp only: ucast_8_field table_entry) (simp add: push_bit_eq_mult mult.commute)
  moreover have "take_bit 32 (frame e OR push_bit 3 (field lo 9 (ucast va)))
      = frame e OR push_bit 3 (field lo 9 (ucast va))"
    by (rule bit_word_eqI) (auto simp: frame_def bit_simps bit_field dest: field_zeroD [OF assms])
  ultimately show ?thesis by (simp only: ucast_ucast_take table_entry)
qed

lemma pae_fields:
  assumes "p \<noteq> 0"
  shows "get_pdptb d + pdpi_index va = push_bit 5 (field 5 27 d) + 8 * field 30 2 va"
    "pdba_base_pae e = push_bit 12 (field 12 24 e)" "ptba_base_pae e = push_bit 12 (field 12 24 e)"
    "pgd_index p va = 8 * field 21 9 va" "pte_index p va = 8 * field 12 9 va"
    "ucast (get_large_paddr p va (ucast e)) =
      take_bit 32 (push_bit 21 (field 21 31 e) + take_bit 21 (ucast va))"
    "get_paddr_pae va e = push_bit 12 (field 12 24 e) + take_bit 12 (ucast va)"
proof -
  have "drop_bit 30 va = field 30 2 va"
    by (rule bit_word_eqI) (auto simp: bit_simps bit_field dest: bit_imp_le_length)
  then show "get_pdptb d + pdpi_index va = push_bit 5 (field 5 27 d) + 8 * field 30 2 va"
    by (simp only: get_pdptb_def pdpi_index_def masks32 and_field_mask mult.commute)
  show "pgd_index p va = 8 * field 21 9 va" "pte_index p va = 8 * field 12 9 va"
    using assms by (simp_all only: pgd_index_def pte_index_def masks32 field_def take_bit_eq_mask
        simp_thms if_False mult.commute)
  have "ucast (get_large_paddr p va (ucast e)) =
      (ucast (push_bit 21 (field 21 11 (ucast e :: u32)) OR take_bit 21 va) :: u64)"
    using assms by (simp only: get_large_paddr_def masks32 and_field_mask take_bit_eq_mask
        simp_thms if_False)
  also have "\<dots> = take_bit 32 (push_bit 21 (field 21 31 e) OR take_bit 21 (ucast va))"
    by (rule bit_word_eqI) (auto simp: bit_simps bit_field)
  also have "push_bit 21 (field 21 31 e) OR take_bit 21 (ucast va)
      = push_bit 21 (field 21 31 e) + take_bit 21 (ucast va)"
    by (rule or_disjoint_add) (auto simp: bit_simps bit_field)
  finally show "ucast (get_large_paddr p va (ucast e)) =
      take_bit 32 (push_bit 21 (field 21 31 e) + take_bit 21 (ucast va))" .
  have "(ucast (va AND 0xFFF) :: u64) = take_bit 12 (ucast va)"
    unfolding masks32 by (rule bit_word_eqI) (auto simp: bit_simps)
  then have "get_paddr_pae va e = push_bit 12 (field 12 24 e) OR take_bit 12 (ucast va)"
    by (simp only: get_paddr_pae_def pte_pfn_pae_def masks32 and_field_mask)
  also have "\<dots> = push_bit 12 (field 12 24 e) + take_bit 12 (ucast va)"
    by (rule or_disjoint_add) (auto simp: bit_simps bit_field)
  finally show "get_paddr_pae va e = push_bit 12 (field 12 24 e) + take_bit 12 (ucast va)" .
qed (simp_all only: pdba_base_pae_def ptba_base_pae_def masks32 and_field_mask)

text \<open>
  The first two entries that the PAE walk reads.
\<close>

definition pae_pdpe :: "(u64 \<Rightarrow> u64) \<Rightarrow> u32 \<Rightarrow> u32 \<Rightarrow> u64" where
  "pae_pdpe rd dtb va = rd (ucast (push_bit 5 (field 5 27 dtb) + 8 * field 30 2 va))"

definition pae_pgd :: "(u64 \<Rightarrow> u64) \<Rightarrow> u32 \<Rightarrow> u32 \<Rightarrow> u64" where
  "pae_pgd rd dtb va = rd (frame (pae_pdpe rd dtb va) + 8 * field 21 9 (ucast va))"

subsection \<open>The page tables as the guest has them\<close>

text \<open>
  The reference for the 32-bit walks, independent of what the code does with entries that it cannot read: an entry
  is what memory holds at its address, if all of its bytes can be read, and a walk over such entries tells an
  address without a mapping from one whose tables cannot be read.
\<close>

datatype walk = Unreadable | Unmapped | Mapped u64

definition walked :: "walk \<Rightarrow> u64" where
  "walked r = (case r of Mapped pa \<Rightarrow> pa | _ \<Rightarrow> 0)"

definition stored_entry :: "env \<Rightarrow> vmi \<Rightarrow> u64 \<Rightarrow> 'a::len word option" where
  "stored_entry E s a = (let bs = phys_bytes E s a (LENGTH('a) div 8) in
     if length bs = LENGTH('a) div 8 then Some (le_word bs) else None)"

text \<open>
  32-bit paging. \<open>cr4_pse\<close> is bit 4 of \<open>CR4\<close>, which gives bit 7 of a directory entry its meaning; the bits 13 to 20
  of the entry of a 4 MB page are the bits 32 to 39 of its address (PSE-36).
\<close>

definition legacy_walk :: "bool \<Rightarrow> (u64 \<Rightarrow> u32 option) \<Rightarrow> u32 \<Rightarrow> u32 \<Rightarrow> walk" where
  "legacy_walk cr4_pse rd dtb va = (case rd (ucast (push_bit 12 (field 12 20 dtb) + 4 * field 22 10 va)) of
       None \<Rightarrow> Unreadable
     | Some pde \<Rightarrow>
         if \<not> bit pde 0 then Unmapped
         else if cr4_pse \<and> bit pde 7 then
           Mapped (push_bit 32 (ucast (field 13 8 pde)) + (push_bit 22 (ucast (field 22 10 pde)) + ucast (take_bit 22 va)))
         else (case rd (ucast (push_bit 12 (field 12 20 pde) + 4 * field 12 10 va)) of
             None \<Rightarrow> Unreadable
           | Some pte \<Rightarrow> if \<not> bit pte 0 then Unmapped
               else Mapped (ucast (push_bit 12 (field 12 20 pte)) + ucast (take_bit 12 va))))"

text \<open>PAE paging: four pointers, then two levels of 512 entries each; the entry of level 1 maps 2 MB if its bit 7 is set.\<close>

definition pae_walk :: "(u64 \<Rightarrow> u64 option) \<Rightarrow> u32 \<Rightarrow> u32 \<Rightarrow> walk" where
  "pae_walk rd dtb va = (case rd (ucast (push_bit 5 (field 5 27 dtb) + 8 * field 30 2 va)) of
       None \<Rightarrow> Unreadable
     | Some pdpe \<Rightarrow>
         if \<not> bit pdpe 0 then Unmapped
         else (case rd (frame pdpe + 8 * field 21 9 (ucast va)) of
             None \<Rightarrow> Unreadable
           | Some pde \<Rightarrow>
               if \<not> bit pde 0 then Unmapped
               else if bit pde 7 then Mapped (push_bit 21 (field 21 31 pde) + take_bit 21 (ucast va))
               else (case rd (frame pde + 8 * field 12 9 (ucast va)) of
                   None \<Rightarrow> Unreadable
                 | Some pte \<Rightarrow> if \<not> bit pte 0 then Unmapped
                     else Mapped (push_bit 12 (field 12 40 pte) + take_bit 12 (ucast va)))))"

text \<open>
  The limits of the code, stated for the present entries that the walk reaches and for no others: a page directory, a
  page table and a 2 MB page below 4 GiB, a 4 KB page below 64 GiB.
\<close>

definition pae_low :: "(u64 \<Rightarrow> u64 option) \<Rightarrow> u32 \<Rightarrow> u32 \<Rightarrow> bool" where
  "pae_low rd dtb va \<longleftrightarrow> (case rd (ucast (push_bit 5 (field 5 27 dtb) + 8 * field 30 2 va)) of
       None \<Rightarrow> True
     | Some pdpe \<Rightarrow> bit pdpe 0 \<longrightarrow> field 32 20 pdpe = 0 \<and> (case rd (frame pdpe + 8 * field 21 9 (ucast va)) of
             None \<Rightarrow> True
           | Some pde \<Rightarrow> bit pde 0 \<longrightarrow> field 32 20 pde = 0 \<and> (bit pde 7 \<or>
               (case rd (frame pde + 8 * field 12 9 (ucast va)) of
                   None \<Rightarrow> True | Some pte \<Rightarrow> bit pte 0 \<longrightarrow> field 36 16 pte = 0))))"

lemma stored_entryD:
  "stored_entry E s (ucast a) = Some e \<Longrightarrow> entry32 E s a = e"
  "stored_entry E s b = Some f \<Longrightarrow> entry64 E s b = f"
  by (auto simp: stored_entry_def entry32_def entry64_def entry_at_def phys_word_def Let_def split: if_splits)

lemma ucast_disjoint_add:
  assumes "\<And>i. bit a i \<Longrightarrow> \<not> bit b i"
  shows "(ucast (a + b :: u32) :: u64) = ucast a + ucast b"
proof -
  have "(ucast a OR ucast b :: u64) = ucast a + ucast b"
    by (rule or_disjoint_add) (use assms in \<open>auto simp: bit_simps\<close>)
  moreover have "a + b = a OR b" using or_disjoint_add [of a b] assms by simp
  ultimately show ?thesis by (simp only: unsigned_or_eq)
qed

lemma legacy_large:
  assumes "unat (push_bit 32 (ucast (field 13 8 e)) + (push_bit 22 (ucast (field 22 10 e)) + ucast (take_bit 22 v)) :: u64) < 2 ^ 32"
  shows "push_bit 32 (ucast (field 13 8 (e :: u32))) + (push_bit 22 (ucast (field 22 10 e)) + ucast (take_bit 22 v))
    = (ucast (push_bit 22 (field 22 10 e) + take_bit 22 (v :: u32)) :: u64)"
proof -
  let ?x = "push_bit 32 (ucast (field 13 8 e)) :: u64" and ?y = "push_bit 22 (field 22 10 e) + take_bit 22 v :: u32"
  have y: "ucast ?y = push_bit 22 (ucast (field 22 10 e)) + (ucast (take_bit 22 v) :: u64)"
  proof -
    have "(ucast (push_bit 22 (field 22 10 e)) :: u64) = push_bit 22 (ucast (field 22 10 e))"
      by (rule bit_word_eqI) (auto simp: bit_simps bit_field)
    then show ?thesis by (subst ucast_disjoint_add) (auto simp: bit_simps bit_field)
  qed
  have xy: "?x + ucast ?y = ?x OR ucast ?y"
    by (rule or_disjoint_add [symmetric]) (auto simp: bit_simps bit_field dest: bit_imp_le_length)
  then have "unat (?x OR ucast ?y) < 2 ^ 32" using assms y by simp
  then have "take_bit 32 (?x OR ucast ?y) = ?x OR ucast ?y"
    by (intro word_unat_eq_iff [THEN iffD2]) (simp only: unsigned_take_bit_eq take_bit_nat_eq_self)
  then have "\<not> bit ?x i" for i
    by (cases "i < 32") (auto simp: bit_eq_iff bit_simps)
  then have "?x = 0" by (simp add: bit_eq_iff)
  then show ?thesis using y by simp
qed

lemma nopae_fun_walk:
  assumes "pae s = 0" "legacy_walk True (stored_entry E s) dtb va = r" "r \<noteq> Unreadable" "\<forall>pa. r = Mapped pa \<longrightarrow> unat pa < 2 ^ 32"
  shows "nopae_fun E dtb va s = walked r"
proof -
  let ?a = "push_bit 12 (field 12 20 dtb) + 4 * field 22 10 va"
  have "(stored_entry E s (ucast ?a) :: u32 option) \<noteq> None" using assms(2,3) by (auto simp: legacy_walk_def split: option.splits)
  then obtain pde :: u32 where pde: "stored_entry E s (ucast ?a) = Some pde" by blast
  let ?b = "push_bit 12 (field 12 20 pde) + 4 * field 12 10 va"
  note e = stored_entryD(1) [OF pde]
  consider "\<not> bit pde 0" | "bit pde 0" "bit pde 7" | "bit pde 0" "\<not> bit pde 7" by blast
  then show ?thesis
  proof cases
    case 1
    then show ?thesis using assms(2) pde by (simp add: nopae_fun_def Let_def nopae_fields assms(1) e legacy_walk_def walked_def)
  next
    case 2
    have r: "r = Mapped (push_bit 32 (ucast (field 13 8 pde)) + (push_bit 22 (ucast (field 22 10 pde)) + ucast (take_bit 22 va)))"
      using 2 assms(2) pde by (simp add: legacy_walk_def)
    have "(push_bit 32 (ucast (field 13 8 pde)) + (push_bit 22 (ucast (field 22 10 pde)) + ucast (take_bit 22 va)) :: u64)
        = ucast (push_bit 22 (field 22 10 pde) + take_bit 22 va)"
      by (rule legacy_large) (use assms(4) r in simp)
    then show ?thesis using 2 by (simp add: nopae_fun_def Let_def nopae_fields assms(1) e r walked_def)
  next
    case 3
    have "(stored_entry E s (ucast ?b) :: u32 option) \<noteq> None" using 3 assms(2,3) pde by (auto simp: legacy_walk_def split: option.splits)
      then obtain pte :: u32 where pte: "stored_entry E s (ucast ?b) = Some pte" by blast
    have "(ucast (push_bit 12 (field 12 20 pte) + take_bit 12 va) :: u64) = ucast (push_bit 12 (field 12 20 pte)) + ucast (take_bit 12 va)"
      by (rule ucast_disjoint_add) (auto simp: bit_simps bit_field)
    then show ?thesis using 3 assms(2) pde pte stored_entryD(1) [OF pte]
      by (auto simp: nopae_fun_def Let_def nopae_fields assms(1) e legacy_walk_def walked_def)
  qed
qed

lemma pae_large:
  assumes "field 32 20 e = 0"
  shows "take_bit 32 (push_bit 21 (field 21 31 e) + take_bit 21 v) = push_bit 21 (field 21 31 e) + take_bit 21 (v :: u64)"
proof -
  have "push_bit 21 (field 21 31 e) + take_bit 21 v = push_bit 21 (field 21 31 e) OR take_bit 21 v"
    by (rule or_disjoint_add [symmetric]) (auto simp: bit_simps bit_field)
  moreover have "take_bit 32 (push_bit 21 (field 21 31 e) OR take_bit 21 v) = push_bit 21 (field 21 31 e) OR take_bit 21 v"
    by (rule bit_word_eqI) (auto simp: bit_simps bit_field dest: field_zeroD [OF assms])
  ultimately show ?thesis by simp
qed

lemma pae_small:
  assumes "field 36 16 e = 0"
  shows "push_bit 12 (field 12 24 e) = push_bit 12 (field 12 40 e)"
  by (rule bit_word_eqI) (auto simp: bit_simps bit_field dest: field_zeroD [OF assms])

lemma pae_fun_walk:
  assumes p: "pae s \<noteq> 0" and r: "pae_walk (stored_entry E s) dtb va = r" "r \<noteq> Unreadable" and low: "pae_low (stored_entry E s) dtb va"
  shows "pae_fun E dtb va s = walked r"
proof -
  let ?rd = "stored_entry E s :: u64 \<Rightarrow> u64 option"
  have "?rd (ucast (push_bit 5 (field 5 27 dtb) + 8 * field 30 2 va)) \<noteq> None" using r by (auto simp: pae_walk_def split: option.splits)
  then obtain pdpe where pdpe: "?rd (ucast (push_bit 5 (field 5 27 dtb) + 8 * field 30 2 va)) = Some pdpe" by blast
  have a: "entry64 E s (ucast (get_pdptb dtb + pdpi_index va)) = pdpe"
    using stored_entryD(2) [OF pdpe] by (simp only: pae_fields [OF p])
  show ?thesis
  proof (cases "bit pdpe 0")
    case False
    then show ?thesis using r(1) pdpe a by (simp add: pae_fun_def pae_walk_def walked_def)
  next
    case True
    with low pdpe have l: "field 32 20 pdpe = 0" by (simp add: pae_low_def)
    have "?rd (frame pdpe + 8 * field 21 9 (ucast va)) \<noteq> None" using r True pdpe by (auto simp: pae_walk_def split: option.splits)
      then obtain pde where pde: "?rd (frame pdpe + 8 * field 21 9 (ucast va)) = Some pde" by blast
    have b: "entry64 E s (ucast (ucast (pdba_base_pae pdpe + ucast (pgd_index (pae s) va)) :: u32)) = pde"
      using stored_entryD(2) [OF pde] by (simp only: pae_fields [OF p] pae_table_address [OF l])
    consider "\<not> bit pde 0" | "bit pde 0" "bit pde 7" | "bit pde 0" "\<not> bit pde 7" by blast
    then show ?thesis
    proof cases
      case 1
      then show ?thesis using r(1) pdpe pde a b True by (simp add: pae_fun_def pae_walk_def walked_def)
    next
      case 2
      with low pdpe pde True have "field 32 20 pde = 0" by (simp add: pae_low_def)
      from pae_large [OF this] 2 show ?thesis
        using r(1) pdpe pde True unfolding pae_fun_def Let_def a b pae_fields(6) [OF p] by (auto simp: pae_walk_def walked_def)
    next
      case 3
      with low pdpe pde True have l': "field 32 20 pde = 0" by (simp add: pae_low_def)
      have "?rd (frame pde + 8 * field 12 9 (ucast va)) \<noteq> None" using r 3 True pdpe pde by (auto simp: pae_walk_def split: option.splits)
      then obtain pte where pte: "?rd (frame pde + 8 * field 12 9 (ucast va)) = Some pte" by blast
      have c: "entry64 E s (ucast (ucast (ptba_base_pae pde + ucast (pte_index (pae s) va)) :: u32)) = pte"
        using stored_entryD(2) [OF pte] by (simp only: pae_fields [OF p] pae_table_address [OF l'])
      have "bit pte 0 \<Longrightarrow> field 36 16 pte = 0" using low pdpe pde pte True 3 by (simp add: pae_low_def)
      with pae_small 3 show ?thesis
        using r(1) pdpe pde pte True unfolding pae_fun_def Let_def a b c pae_fields(7) [OF p] by (auto simp: pae_walk_def walked_def)
    qed
  qed
qed

subsection \<open>Sample guests\<close>

lemma phys_bytes_all:
  assumes "\<And>i. i < n \<Longrightarrow> phys_byte E s (a + of_nat i) = Some (m (a + of_nat i))"
  shows "phys_bytes E s a n = map (\<lambda>i. m (a + of_nat i)) [0..<n]"
proof -
  have "length (phys_bytes E s a n) = n" unfolding phys_bytes_full using assms by simp
  then show ?thesis
    using phys_bytes_nth [of _ E s a n] assms by (intro nth_equalityI) auto
qed

definition pae_guest :: "(addr_t \<Rightarrow> u8) \<Rightarrow> vmi" where
  "pae_guest m = (xen_guest m)\<lparr>pae := 1\<rparr>"

lemma pae_guest_ok: "vm_ok xen_env (pae_guest m)" "pae (pae_guest m) = 1" "pae (xen_guest m) = 0"
  by (simp_all add: vm_ok_def page_cache_ok_def backing_ready_def entries_ok_def xen_guest_def
      attach_def attached_def xen_vmi_def zeroed_vmi_def pae_guest_def)

lemma pae_guest_byte: "drop_bit 12 a \<noteq> 0 \<Longrightarrow> phys_byte xen_env (pae_guest m) a = Some (m a)"
  using page_base_offset [of a]
  by (simp add: phys_byte_def frame_read_def frame_page_def page_fetch_def memory_of_def Let_def
      page_byte_def push_drop_drop pae_guest_def xen_guest_def attach_def xen_vmi_def zeroed_vmi_def
      xen_env_def beyond_memory_def)

text \<open>A table entry of a sample guest, from its bytes.\<close>

lemma sample_bytes:
  assumes "4096 \<le> a" "a \<le> - 4096"
  shows "phys_bytes xen_env (xen_guest m) a 8 = map (\<lambda>i. m (a + of_nat i)) [0..<8]"
    and "phys_bytes xen_env (xen_guest m) a 4 = map (\<lambda>i. m (a + of_nat i)) [0..<4]"
    and "phys_bytes xen_env (pae_guest m) a 8 = map (\<lambda>i. m (a + of_nat i)) [0..<8]"
proof -
  have big: "4096 \<le> unat a" using assms by (simp add: word_le_nat_alt)
  have "unat a + i < 2 ^ 64" if "i < 8" for i
    using assms that by (simp add: word_le_nat_alt)
  then have "unat (a + of_nat i) = unat a + i" if "i < 8" for i
    using that by (simp add: unat_word_ariths unat_of_nat)
  then have "unat (drop_bit 12 (a + of_nat i)) \<noteq> 0" if "i < 8" for i
    using that big by (simp add: unat_page_number div_greater_zero_iff)
  then have nz: "drop_bit 12 (a + of_nat i) \<noteq> 0" if "i < 8" for i
    using that by fastforce
  show "phys_bytes xen_env (xen_guest m) a 8 = map (\<lambda>i. m (a + of_nat i)) [0..<8]"
    "phys_bytes xen_env (xen_guest m) a 4 = map (\<lambda>i. m (a + of_nat i)) [0..<4]"
    "phys_bytes xen_env (pae_guest m) a 8 = map (\<lambda>i. m (a + of_nat i)) [0..<8]"
    by (rule phys_bytes_all; simp add: xen_guest_byte pae_guest_byte nz)+
qed

lemma sample_entry:
  assumes "4096 \<le> a" "a \<le> - 4096"
  shows "entry_at xen_env (xen_guest m) (v :: u64) a = le_word (map (\<lambda>i. m (a + of_nat i)) [0..<8])"
    and "entry_at xen_env (pae_guest m) (v :: u64) a = le_word (map (\<lambda>i. m (a + of_nat i)) [0..<8])"
    and "entry_at xen_env (xen_guest m) (w :: u32) a = le_word (map (\<lambda>i. m (a + of_nat i)) [0..<4])"
  by (simp_all add: entry_at_def phys_word_def Let_def sample_bytes [OF assms])

lemma sample_stored:
  assumes "4096 \<le> a" "a \<le> - 4096"
  shows "stored_entry xen_env (pae_guest m) a = Some (le_word (map (\<lambda>i. m (a + of_nat i)) [0..<8]) :: u64)"
    and "stored_entry xen_env (xen_guest m) a = Some (le_word (map (\<lambda>i. m (a + of_nat i)) [0..<4]) :: u32)"
  by (simp_all add: stored_entry_def Let_def sample_bytes [OF assms])

lemma walk_fun_core [simp]:
  "nopae_fun E d v (core s) = nopae_fun E d v s" "pae_fun E d v (core s) = pae_fun E d v s"
  unfolding nopae_fun_def pae_fun_def by (simp_all only: entry_core core_fields)

subsection \<open>Properties\<close>

text \<open>C3: The IA-32e walk is Intel's: \<open>v2p_ia32e\<close> returns the address the four-level radix tree
rooted in \<open>dtb\<close> gives the virtual address, with 1 GB, 2 MB and 4 KB pages, and 0 where the tree has
no mapping; only caches change.\<close>

theorem v2p_ia32e_walks_tree:
  assumes "vm_ok E s" and "run_state (v2p_ia32e E dtb va) s = (pa, t)"
  shows "pa = zero_if_none (radix_walk (entry_at E s 0) 3 (frame dtb) va) \<and> vm_ok E t \<and> core t = core s"
  using reads_run [OF phys.reads_v2p_ia32e assms] by simp

definition gig_memory :: "addr_t \<Rightarrow> u8" where
  "gig_memory a = (if a = 0x1000 then 0x03 else if a = 0x1001 then 0x20
     else if a = 0x2000 then 0x83 else if a = 0x2003 then 0x40 else 0)"

lemma v2p_ia32e_walks_tree_witness:
  "fst (run_state (v2p_ia32e xen_env 0x1000 0x1234) (xen_guest gig_memory)) = 0x40001234"
proof -
  have f: "field 39 9 (0x1234 :: u64) = 0" "field 30 9 (0x1234 :: u64) = 0" "frame 0x1000 = 0x1000"
    "frame 0x2003 = 0x2000" "field 30 22 (0x40000083 :: u64) = 1" "take_bit 30 (0x1234 :: u64) = 0x1234"
    by (simp_all add: field_def frame_def)
  have e: "entry_at xen_env (xen_guest gig_memory) 0 0x1000 = (0x2003 :: u64)"
    "entry_at xen_env (xen_guest gig_memory) 0 0x2000 = (0x40000083 :: u64)"
    by (simp_all add: sample_entry gig_memory_def le_word_def upt_rec)
  have "radix_walk (entry_at xen_env (xen_guest gig_memory) 0) 3 (frame 0x1000) 0x1234 = Some 0x40001234"
    by (simp add: radix_walk.simps Let_def f e)
  then show ?thesis
    using v2p_ia32e_walks_tree [OF xen_guest_ok(1) surjective_pairing, of "0x1000" "0x1234" gig_memory]
    by (simp add: zero_if_none_def)
qed

text \<open>C9: The walk for 32-bit paging: where every entry that the walk through the guest's page tables comes to can
be read, \<open>v2p_nopae\<close> returns the address that 32-bit paging gives, with 4 MB and 4 KB pages, and 0 where it has
no mapping; only caches change. The guest is one that has \<open>CR4.PSE\<close> set and puts no page above 4 GiB by PSE-36:
the code looks at neither. Where an entry can not be read nothing is claimed (see
\<open>v2p_nopae_unreadable_directory\<close>).\<close>

theorem v2p_nopae_walks_tree:
  assumes "vm_ok E s" and "pae s = 0"
    and "legacy_walk True (stored_entry E s) (ucast dtb) (ucast va) = r"
    and "r \<noteq> Unreadable" and "\<forall>page. r = Mapped page \<longrightarrow> unat page < 2 ^ 32"
    and "run_state (v2p_nopae E dtb va) s = (pa, t)"
  shows "pa = walked r \<and> vm_ok E t \<and> core t = core s"
  using reads_run [OF phys.reads_v2p_nopae assms(1,6)] nopae_fun_walk [OF assms(2-5)] by simp

definition legacy_memory :: "addr_t \<Rightarrow> u8" where
  "legacy_memory a = (if a = 0x1004 then 0x83 else if a = 0x1006 then 0x80 else if a = 0x801234 then 0x41 else 0)"

lemma legacy_memory_entry:
  "stored_entry xen_env (xen_guest legacy_memory) 0x1004 = Some (0x800083 :: u32)"
  by (simp add: sample_stored legacy_memory_def le_word_def upt_rec)

lemma legacy_memory_fields:
  "field 22 10 (0x401234 :: u32) = 1" "field 12 20 (0x1000 :: u32) = 1" "field 12 10 (0x401234 :: u32) = 1"
  "field 22 10 (0x800083 :: u32) = 2" "take_bit 22 (0x401234 :: u32) = 0x1234" "field 13 8 (0x800083 :: u32) = 0"
  "field 12 20 (0x800083 :: u32) = 0x800"
  by (simp_all add: field_def)

lemma v2p_nopae_walks_tree_witness:
  "fst (run_state (v2p_nopae xen_env 0x1000 0x401234) (xen_guest legacy_memory)) = 0x801234"
proof -
  have "legacy_walk True (stored_entry xen_env (xen_guest legacy_memory)) (ucast (0x1000 :: u64)) (ucast (0x401234 :: u64))
      = Mapped 0x801234"
    by (simp add: legacy_walk_def legacy_memory_fields legacy_memory_entry)
  from v2p_nopae_walks_tree [OF xen_guest_ok(1) pae_guest_ok(3) this _ _ surjective_pairing] show ?thesis
    by (simp add: walked_def)
qed

text \<open>Bit 7 of a directory entry is taken for the size of the page even where \<open>CR4.PSE\<close> is clear and the
processor goes on to the page table.\<close>

theorem v2p_nopae_ignores_pse:
  "\<exists>s t. vm_ok xen_env s \<and> pae s = 0 \<and> run_state (v2p_nopae xen_env 0x1000 0x401234) s = (0x801234, t)
    \<and> legacy_walk False (stored_entry xen_env s) 0x1000 0x401234 = Unmapped"
proof (intro exI conjI)
  let ?s = "xen_guest legacy_memory"
  have "stored_entry xen_env ?s 0x800004 = Some (0 :: u32)"
    by (simp add: sample_stored legacy_memory_def le_word_def upt_rec)
  then show "legacy_walk False (stored_entry xen_env ?s) 0x1000 0x401234 = Unmapped"
    by (simp add: legacy_walk_def legacy_memory_fields legacy_memory_entry)
  have "nopae_fun xen_env 0x1000 0x401234 ?s = 0x801234"
    by (subst nopae_fun_walk [where r = "Mapped 0x801234"])
      (simp_all add: pae_guest_ok legacy_walk_def legacy_memory_fields legacy_memory_entry walked_def)
  then have "fst (run_state (v2p_nopae xen_env 0x1000 0x401234) ?s) = 0x801234"
    using reads_value [OF phys.reads_v2p_nopae xen_guest_ok(1)] by simp
  then show "run_state (v2p_nopae xen_env 0x1000 0x401234) ?s
      = (0x801234, snd (run_state (v2p_nopae xen_env 0x1000 0x401234) ?s))"
    by (metis prod.collapse)
qed (simp_all add: xen_guest_ok pae_guest_ok)

text \<open>C8: The walk for PAE paging: where every entry that the walk through the guest's page tables comes to can be
read, and the present ones point to a directory, a table or a 2 MB page below 4 GiB or to a 4 KB page below 64 GiB
(\<open>pae_low\<close>; the code keeps 32 and 36 bits), \<open>v2p_pae\<close> returns the address that PAE paging gives, with 2 MB and
4 KB pages, and 0 where it has no mapping; only caches change. Where an entry can not be read nothing is claimed.\<close>

theorem v2p_pae_walks_tree:
  assumes "vm_ok E s" and "pae s \<noteq> 0"
    and "pae_walk (stored_entry E s) (ucast dtb) (ucast va) = r" and "r \<noteq> Unreadable"
    and "pae_low (stored_entry E s) (ucast dtb) (ucast va)"
    and "run_state (v2p_pae E dtb va) s = (pa, t)"
  shows "pa = walked r \<and> vm_ok E t \<and> core t = core s"
  using reads_run [OF phys.reads_v2p_pae assms(1,6)] pae_fun_walk [OF assms(2-5)] by simp

definition pae_memory :: "u8 \<Rightarrow> addr_t \<Rightarrow> u8" where
  "pae_memory hi a = (if a = 0x1000 then 0x01 else if a = 0x1001 then 0x20
     else if a = 0x2000 then 0x83 else if a = 0x2002 then 0x20 else if a = 0x2004 then hi else 0)"

lemma pae_memory_entries:
  "pae_pdpe (entry64 xen_env (pae_guest (pae_memory hi))) 0x1000 0x1234 = 0x2001"
  "pae_pgd (entry64 xen_env (pae_guest (pae_memory 0))) 0x1000 0x1234 = 0x200083"
  "pae_pgd (entry64 xen_env (pae_guest (pae_memory 1))) 0x1000 0x1234 = 0x100200083"
proof -
  have f: "field 5 27 (0x1000 :: u32) = 0x80" "field 30 2 (0x1234 :: u32) = 0"
    "field 21 9 (0x1234 :: u64) = 0" "frame 0x2001 = 0x2000"
    by (simp_all add: field_def frame_def)
  show p: "pae_pdpe (entry64 xen_env (pae_guest (pae_memory hi))) 0x1000 0x1234 = 0x2001" for hi
    by (simp add: pae_pdpe_def f entry64_def sample_entry pae_memory_def le_word_def upt_rec)
  show "pae_pgd (entry64 xen_env (pae_guest (pae_memory 0))) 0x1000 0x1234 = 0x200083"
    "pae_pgd (entry64 xen_env (pae_guest (pae_memory 1))) 0x1000 0x1234 = 0x100200083"
    by (simp_all add: pae_pgd_def p f entry64_def sample_entry pae_memory_def le_word_def upt_rec)
qed

lemma v2p_pae_walks_tree_witness:
  "fst (run_state (v2p_pae xen_env 0x1000 0x1234) (pae_guest (pae_memory 0))) = 0x201234"
proof -
  let ?rd = "stored_entry xen_env (pae_guest (pae_memory 0)) :: u64 \<Rightarrow> u64 option"
  have f: "field 5 27 (0x1000 :: u32) = 0x80" "field 30 2 (0x1234 :: u32) = 0" "field 21 9 (0x1234 :: u64) = 0"
    "frame 0x2001 = 0x2000" "field 32 20 (0x2001 :: u64) = 0" "field 32 20 (0x200083 :: u64) = 0"
    "field 21 31 (0x200083 :: u64) = 1" "take_bit 21 (0x1234 :: u64) = 0x1234"
    by (simp_all add: field_def frame_def)
  have e: "?rd 0x1000 = Some 0x2001" "?rd 0x2000 = Some 0x200083"
    by (simp_all add: sample_stored pae_memory_def le_word_def upt_rec)
  have "pae_walk ?rd (ucast (0x1000 :: u64)) (ucast (0x1234 :: u64)) = Mapped 0x201234"
    "pae_low ?rd (ucast (0x1000 :: u64)) (ucast (0x1234 :: u64))"
    by (simp_all add: pae_walk_def pae_low_def f e)
  from v2p_pae_walks_tree [OF pae_guest_ok(1) _ this(1) _ this(2) surjective_pairing] show ?thesis
    by (simp add: walked_def pae_guest_ok)
qed

text \<open>\<open>v2p_pae\<close> loses the upper bits of a large page: \<open>get_large_paddr\<close> takes and returns 32 bits,
so a 2 MB page above 4 GiB is translated to the low 32 bits of its address.\<close>

theorem v2p_pae_truncates_large:
  assumes "vm_ok E s" and "pae s \<noteq> 0"
    and "field 32 20 (pae_pdpe (entry64 E s) (ucast dtb) (ucast va)) = 0"
    and "bit (pae_pgd (entry64 E s) (ucast dtb) (ucast va)) 7"
    and "radix_walk_pae (entry64 E s) (ucast dtb) (ucast va) = Some pa"
  shows "fst (run_state (v2p_pae E dtb va) s) = take_bit 32 pa"
proof -
  let ?rd = "entry64 E s" and ?d = "ucast dtb :: u32" and ?v = "ucast va :: u32"
  let ?pdpe = "pae_pdpe ?rd ?d ?v" and ?pgd = "pae_pgd ?rd ?d ?v"
  have a: "?rd (ucast (get_pdptb ?d + pdpi_index ?v)) = ?pdpe"
    by (simp only: pae_pdpe_def pae_fields [OF assms(2)])
  have b: "?rd (ucast (ucast (pdba_base_pae ?pdpe + ucast (pgd_index (pae s) ?v)) :: u32)) = ?pgd"
    by (simp only: pae_fields [OF assms(2)] pae_table_address [OF assms(3)] pae_pgd_def)
  have walk: "bit ?pdpe 0" "bit ?pgd 0" "pa = push_bit 21 (field 21 31 ?pgd) + take_bit 21 (ucast ?v)"
    using assms(4,5) by (auto simp: radix_walk_pae_def radix_walk.simps [of _ "Suc 0"] Let_def pae_pdpe_def
        pae_pgd_def split: if_splits)
  have "pae_fun E ?d ?v s = take_bit 32 pa"
    unfolding pae_fun_def Let_def a b pae_fields(6) [OF assms(2)] using walk assms(4) by simp
  then show ?thesis using reads_value [OF phys.reads_v2p_pae assms(1)] by simp
qed

lemma v2p_pae_truncates_large_witness:
  "fst (run_state (v2p_pae xen_env 0x1000 0x1234) (pae_guest (pae_memory 1))) = 0x201234"
proof -
  let ?rd = "entry64 xen_env (pae_guest (pae_memory 1))"
  have f: "field 32 20 (0x2001 :: u64) = 0" "frame 0x2001 = 0x2000" "field 21 31 (0x100200083 :: u64) = 0x801"
    "field 21 9 (0x1234 :: u64) = 0" "take_bit 21 (0x1234 :: u64) = 0x1234"
    by (simp_all add: field_def frame_def)
  note e = pae_memory_entries(1) [of 1] pae_memory_entries(3)
  have "radix_walk_pae ?rd 0x1000 0x1234 = Some 0x100201234"
    using e by (simp add: radix_walk_pae_def radix_walk.simps Let_def f pae_pdpe_def [symmetric]
        pae_pgd_def)
  then show ?thesis
    using v2p_pae_truncates_large [OF pae_guest_ok(1), of "pae_memory 1" "0x1000" "0x1234"]
    by (simp add: e f pae_guest_ok)
qed

text \<open>\<open>vmi_get_bit\<close> tests the bit it is asked for below bit 31, but for bit 31 the mask is
sign-extended and any of the bits 31 to 63 makes the test succeed.\<close>

theorem vmi_get_bit_tests:
  "(n < 31 \<longrightarrow> vmi_get_bit reg n = (if bit reg n then 1 else 0))
   \<and> vmi_get_bit reg 31 = (if \<exists>i. 31 \<le> i \<and> i < 64 \<and> bit reg i then 1 else 0)"
proof -
  have m: "bit (scast (push_bit 31 (1 :: cint)) :: reg_t) i \<longleftrightarrow> 31 \<le> i \<and> i < 64" for i
    by (simp only: bit_simps bit_1_iff) (auto simp: min_def)
  have "reg AND scast (push_bit 31 (1 :: cint)) \<noteq> 0 \<longleftrightarrow> (\<exists>i. bit (reg AND scast (push_bit 31 (1 :: cint))) i)"
    by (metis bit_0_eq bit_eq_iff bot_apply bot_bool_def)
  also have "\<dots> \<longleftrightarrow> (\<exists>i. 31 \<le> i \<and> i < 64 \<and> bit reg i)"
    by (simp only: bit_and_iff m) blast
  finally have "vmi_get_bit reg 31 = (if \<exists>i. 31 \<le> i \<and> i < 64 \<and> bit reg i then 1 else 0)"
    by (simp only: vmi_get_bit_def Let_def)
  with vmi_get_bit_iff show ?thesis by blast
qed

lemma vmi_get_bit_tests_witness:
  "vmi_get_bit 5 2 = 1 \<and> vmi_get_bit 0x100000000 31 = 1"
proof -
  have "bit (5 :: reg_t) 2" "bit (0x100000000 :: reg_t) 32" by simp_all
  then have "\<exists>i. 31 \<le> i \<and> i < 64 \<and> bit (0x100000000 :: reg_t) i" by (intro exI [of _ 32]) simp
  with \<open>bit (5 :: reg_t) 2\<close> show ?thesis
    using vmi_get_bit_tests [of 2 5] vmi_get_bit_tests [of 2 "0x100000000"] by simp
qed

text \<open>The 32-bit walk ignores that an entry could not be read: with an unreadable directory the
unset variable is taken for the entry, and if it looks like a 4 MB mapping an address is returned
for a page that does not exist.\<close>

theorem v2p_nopae_unreadable_directory:
  assumes "vm_ok E s" and "pae s = 0"
    and "phys_byte E s (ucast (push_bit 12 (field 12 20 (ucast dtb :: u32)) + 4 * field 22 10 (ucast va))) = None"
    and "bit (junk E) 0" and "bit (junk E) 7"
  shows "fst (run_state (v2p_nopae E dtb va) s) =
    ucast (push_bit 22 (field 22 10 (ucast (junk E) :: u32)) + take_bit 22 (ucast va))"
proof -
  let ?a = "push_bit 12 (field 12 20 (ucast dtb :: u32)) + 4 * field 22 10 (ucast va)"
  have "phys_bytes E s (ucast ?a) 4 = []"
    unfolding phys_bytes_def by (rule prefix_from_None) (use assms(3) in simp)
  then have "entry32 E s ?a = ucast (junk E)"
    by (simp add: entry32_def entry_at_def phys_word_def)
  then have "nopae_fun E (ucast dtb) (ucast va) s =
      ucast (push_bit 22 (field 22 10 (ucast (junk E) :: u32)) + take_bit 22 (ucast va))"
    using assms(2,4,5) by (simp add: nopae_fun_def nopae_fields Let_def bit_ucast_iff)
  then show ?thesis using reads_value [OF phys.reads_v2p_nopae assms(1)] by simp
qed

lemma v2p_nopae_unreadable_directory_witness:
  "fst (run_state (v2p_nopae (xen_env\<lparr>junk := 0x800081, xc_map := \<lambda>_ _. False\<rparr>) 0x1000 0x1234)
     (xen_guest (\<lambda>_. 0))) = 0x801234"
proof -
  let ?E = "xen_env\<lparr>junk := 0x800081, xc_map := \<lambda>_ _. False\<rparr>"
  have "vm_ok ?E (xen_guest (\<lambda>_. 0))"
    by (simp add: vm_ok_def page_cache_ok_def backing_ready_def entries_ok_def xen_guest_def
      attach_def attached_def xen_vmi_def zeroed_vmi_def)
  moreover have "phys_byte ?E (xen_guest (\<lambda>_. 0)) a = None" for a
    by (simp add: phys_byte_def frame_read_def frame_page_def page_fetch_def memory_of_def Let_def
      page_byte_def xen_guest_def attach_def xen_vmi_def zeroed_vmi_def)
  ultimately show ?thesis
    using v2p_nopae_unreadable_directory [of ?E "xen_guest (\<lambda>_. 0)" "0x1000" "0x1234"]
    by (simp add: pae_guest_ok field_def)
qed

end
