(* ===== verification/Kernel_Space.thy ===== *)
theory Kernel_Space
  imports Page_Walk
begin

text \<open>
  Kernel addresses: \<^verbatim>\<open>vmi_translate_kv2p\<close> of \<^verbatim>\<open>memory.c\<close> and the \<open>_va\<close> functions of \<^verbatim>\<open>read.c\<close>. The
  latter choose the translation by their argument \<open>pid\<close>; they are defined here for any translation,
  and for the kernel's (\<open>pid\<close> 0), which is the one the operating-system components read through.
  The choice by \<open>pid\<close> is made in \<open>Address_Spaces\<close>.
\<close>

unbundle bit_operations_syntax

definition vmi_translate_kv2p :: "env \<Rightarrow> addr_t \<Rightarrow> addr_t vm" where
  "vmi_translate_kv2p E virt_address = do {
     k \<leftarrow> gets kpgd;
     dtb \<leftarrow> (if k \<noteq> 0 then return k
             else do { (_, v) \<leftarrow> driver_get_vcpureg E 0 CR3 0; return v });
     if dtb = 0 then return 0 else vmi_pagetable_lookup E dtb virt_address }"

text \<open>One round's translation: address 0 means that there is none.\<close>

definition va_step :: "(addr_t \<Rightarrow> addr_t vm) \<Rightarrow> addr_t \<Rightarrow> u64 \<Rightarrow> addr_t option vm" where
  "va_step translate vaddr buf_offset = do {
     paddr \<leftarrow> translate (vaddr + buf_offset);
     return (if paddr = 0 then None else Some paddr) }"

text \<open>The buffer is never the null pointer here, for which nothing is read.\<close>

definition read_va :: "env \<Rightarrow> (addr_t \<Rightarrow> addr_t vm) \<Rightarrow> addr_t \<Rightarrow> u64 \<Rightarrow> u8 list vm" where
  "read_va E translate vaddr count = run_copy_loop E (va_step translate vaddr) count"

definition read_X_va :: "env \<Rightarrow> (addr_t \<Rightarrow> addr_t vm) \<Rightarrow> addr_t \<Rightarrow> 'a::len word \<Rightarrow> (status_t \<times> 'a word) vm" where
  "read_X_va E translate vaddr v = do {
     bs \<leftarrow> read_va E translate vaddr (of_nat (LENGTH('a) div 8));
     return (read_status bs (LENGTH('a) div 8), le_word (overlay (word_bytes v) bs)) }"

definition read_addr_va :: "env \<Rightarrow> (addr_t \<Rightarrow> addr_t vm) \<Rightarrow> addr_t \<Rightarrow> addr_t \<Rightarrow> (status_t \<times> addr_t) vm" where
  "read_addr_va E translate vaddr v = do {
     pm \<leftarrow> gets page_mode;
     if pm = VMI_PM_IA32E then read_X_va E translate vaddr v
     else do {
       (ret, tmp) \<leftarrow> read_X_va E translate vaddr (0 :: u32);
       return (ret, ucast tmp) } }"

text \<open>
  The loop of \<open>vmi_read_str_va\<close>: it appends what each page holds before a zero byte, and ends at the
  first zero, or where a page is not mapped or cannot be read. \<open>None\<close> means that the bound on the
  number of pages was reached.
\<close>

primrec str_va_loop :: "env \<Rightarrow> (addr_t \<Rightarrow> addr_t vm) \<Rightarrow> nat \<Rightarrow> addr_t \<Rightarrow> u8 list \<Rightarrow> u8 list option vm" where
  "str_va_loop E translate 0 vaddr rtnval = return None"
| "str_va_loop E translate (Suc fuel) vaddr rtnval = do {
     paddr \<leftarrow> translate (vaddr + of_nat (length rtnval));
     if paddr = 0 then return (Some rtnval)
     else do {
       shift \<leftarrow> gets page_shift;
       sz \<leftarrow> gets page_size;
       let pfn = drop_bit (unat shift) paddr;
       let offset = ucast (sz - 1) AND paddr;
       memory \<leftarrow> vmi_read_page E pfn;
       if memory = PNull then return (Some rtnval)
       else do {
         bs \<leftarrow> page_bytes memory offset (unat sz - unat offset);
         let read_len = strnlen bs;
         if read_len < length bs then return (Some (rtnval @ take read_len bs))
         else str_va_loop E translate fuel vaddr (rtnval @ bs) } } }"

definition read_str_va :: "env \<Rightarrow> (addr_t \<Rightarrow> addr_t vm) \<Rightarrow> nat \<Rightarrow> addr_t \<Rightarrow> u8 list option vm" where
  "read_str_va E translate fuel vaddr = str_va_loop E translate fuel vaddr []"

subsection \<open>With pid 0\<close>

abbreviation "vmi_read_kva E \<equiv> read_va E (vmi_translate_kv2p E)"
abbreviation "vmi_read_X_kva E \<equiv> read_X_va E (vmi_translate_kv2p E)"
abbreviation "vmi_read_addr_kva E \<equiv> read_addr_va E (vmi_translate_kv2p E)"
abbreviation "vmi_read_str_kva E \<equiv> read_str_va E (vmi_translate_kv2p E)"

subsection \<open>What the cached lookup returns\<close>

text \<open>The translation the walk of the paging mode gives, as an option.\<close>

definition pae_opt :: "env \<Rightarrow> u32 \<Rightarrow> u32 \<Rightarrow> vmi \<Rightarrow> u64 option" where
  "pae_opt E dtb va s = (
     let pdpe = entry64 E s (ucast (get_pdptb dtb + pdpi_index va));
         pgd = entry64 E s (ucast (ucast (pdba_base_pae pdpe + ucast (pgd_index (pae s) va)) :: u32));
         pte = entry64 E s (ucast (ucast (ptba_base_pae pgd + ucast (pte_index (pae s) va)) :: u32)) in
     if \<not> bit pdpe 0 \<or> \<not> bit pgd 0 then None
     else if bit pgd 7 then Some (ucast (get_large_paddr (pae s) va (ucast pgd)))
     else if bit pte 0 then Some (get_paddr_pae va pte) else None)"

definition walk :: "env \<Rightarrow> vmi \<Rightarrow> addr_t \<Rightarrow> addr_t \<Rightarrow> addr_t option" where
  "walk E s dtb va = (case page_mode s of
     VMI_PM_LEGACY \<Rightarrow> map_option ucast
       (radix_walk32 (entry32 E s) 1 (push_bit 12 (field 12 20 (ucast dtb))) (ucast va))
   | VMI_PM_PAE \<Rightarrow> pae_opt E (ucast dtb) (ucast va) s
   | VMI_PM_IA32E \<Rightarrow> radix_walk (entry_at E s 0) 3 (frame dtb) va
   | VMI_PM_UNKNOWN \<Rightarrow> None)"

definition mode_ok :: "vmi \<Rightarrow> bool" where
  "mode_ok s \<longleftrightarrow> (page_mode s = VMI_PM_LEGACY \<longrightarrow> pae s = 0) \<and> (page_mode s = VMI_PM_PAE \<longrightarrow> pae s \<noteq> 0)"

lemma pae_opt_core [simp]: "pae_opt E d v (core s) = pae_opt E d v s"
  unfolding pae_opt_def by (simp only: entry_core core_fields)

lemma walk_core [simp]: "walk E (core s) = walk E s"
  by (simp add: walk_def fun_eq_iff split: page_mode_t.split)

lemma pae_fun_opt: "pae_fun E dtb va s = zero_if_none (pae_opt E dtb va s)"
  by (simp add: pae_fun_def pae_opt_def Let_def zero_if_none_def)

text \<open>A walk keeps the offset in the page, and depends on the page only.\<close>

definition page_of :: "'a::len word \<Rightarrow> 'a word" where
  "page_of a = push_bit 12 (drop_bit 12 a)"

lemma bit_page_of: "bit (page_of a) i \<longleftrightarrow> 12 \<le> i \<and> bit a i"
  by (auto simp: page_of_def bit_simps dest: bit_imp_le_length)

lemma field_page_of: "12 \<le> lo \<Longrightarrow> field lo n (page_of a) = field lo n a"
  by (rule bit_word_eqI) (auto simp: bit_field bit_page_of)

lemma add_offset:
  assumes "12 \<le> sh"
  shows "push_bit sh x + take_bit sh (page_of a) + take_bit 12 a = push_bit sh x + take_bit sh (a :: 'a::len word)"
proof -
  have "take_bit sh (page_of a) + take_bit 12 a = take_bit sh (page_of a) OR take_bit 12 a"
    by (rule or_disjoint_add [symmetric]) (auto simp: bit_simps bit_page_of)
  also have "\<dots> = take_bit sh a"
    by (rule bit_word_eqI) (use assms in \<open>auto simp: bit_simps bit_page_of\<close>)
  finally show ?thesis by (simp add: add.assoc)
qed

lemma radix_walk_page:
  "radix_walk rd lvl table va = map_option (\<lambda>f. f + take_bit 12 va) (radix_walk rd lvl table (page_of va))"
proof (induction lvl arbitrary: table)
  case 0
  show ?case
    by (simp add: radix_walk.simps [of _ 0] Let_def field_page_of add_offset)
next
  case (Suc lvl)
  show ?case
    by (simp add: radix_walk.simps [of _ "Suc lvl"] Let_def field_page_of add_offset Suc)
qed

lemma radix_walk32_page:
  "radix_walk32 rd lvl table va = map_option (\<lambda>f. f + take_bit 12 va) (radix_walk32 rd lvl table (page_of va))"
proof (induction lvl arbitrary: table)
  case 0
  show ?case
    by (simp add: radix_walk32.simps [of _ 0] Let_def field_page_of add_offset)
next
  case (Suc lvl)
  show ?case
    by (simp add: radix_walk32.simps [of _ "Suc lvl"] Let_def field_page_of add_offset Suc)
qed

lemma aligned_page:
  assumes "12 \<le> sh"
  shows "take_bit 12 (push_bit sh x + take_bit sh (page_of a)) = (0 :: 'a::len word)"
proof -
  have "push_bit sh x + take_bit sh (page_of a) = push_bit sh x OR take_bit sh (page_of a)"
    by (rule or_disjoint_add [symmetric]) (auto simp: bit_simps bit_page_of)
  then show ?thesis
    by (simp only:) (rule bit_word_eqI, use assms in \<open>auto simp: bit_simps bit_page_of\<close>)
qed

lemma radix_walk_aligned: "radix_walk rd lvl table (page_of va) = Some f \<Longrightarrow> take_bit 12 f = 0"
proof (induction lvl arbitrary: table)
  case 0
  then show ?case by (auto simp: radix_walk.simps [of _ 0] Let_def aligned_page split: if_splits)
next
  case (Suc lvl)
  then show ?case
    by (auto simp: radix_walk.simps [of _ "Suc lvl"] Let_def aligned_page split: if_splits)
qed

lemma radix_walk32_aligned: "radix_walk32 rd lvl table (page_of va) = Some f \<Longrightarrow> take_bit 12 f = 0"
proof (induction lvl arbitrary: table)
  case 0
  then show ?case by (auto simp: radix_walk32.simps [of _ 0] Let_def aligned_page split: if_splits)
next
  case (Suc lvl)
  then show ?case
    by (auto simp: radix_walk32.simps [of _ "Suc lvl"] Let_def aligned_page split: if_splits)
qed

lemma aligned_bits: "take_bit 12 f = 0 \<Longrightarrow> bit f i \<Longrightarrow> 12 \<le> i"
  by (metis bit_0_eq bit_take_bit_iff bot_apply bot_bool_def not_le)

lemma ucast_add_offset:
  assumes "take_bit 12 (f :: u32) = 0"
  shows "(ucast (f + take_bit 12 va) :: u64) = ucast f + take_bit 12 (ucast va)"
proof -
  have "f + take_bit 12 va = f OR take_bit 12 va"
    by (rule or_disjoint_add [symmetric]) (auto simp: bit_simps dest: aligned_bits [OF assms])
  moreover have "ucast f + take_bit 12 (ucast va) = (ucast f OR take_bit 12 (ucast va) :: u64)"
    by (rule or_disjoint_add [symmetric]) (auto simp: bit_simps dest: aligned_bits [OF assms])
  moreover have "(ucast (f OR take_bit 12 va) :: u64) = ucast f OR take_bit 12 (ucast va)"
    by (rule bit_word_eqI) (auto simp: bit_simps)
  ultimately show ?thesis by simp
qed

lemma ucast_page_of: "(ucast (page_of (a :: u64)) :: u32) = page_of (ucast a)"
  by (rule bit_word_eqI) (auto simp: bit_simps bit_page_of)

lemma take_ucast: "take_bit 12 (ucast (ucast (a :: u64) :: u32) :: u64) = take_bit 12 a"
  by (rule bit_word_eqI) (auto simp: bit_simps)

lemma pae_page_fields:
  fixes va :: u32
  assumes "p \<noteq> 0"
  shows "pdpi_index (page_of va) = pdpi_index va" "pgd_index p (page_of va) = pgd_index p va"
    "pte_index p (page_of va) = pte_index p va"
    "ucast (get_large_paddr p va e) = (ucast (get_large_paddr p (page_of va) e) + take_bit 12 (ucast va) :: u64)"
    "get_paddr_pae va f = get_paddr_pae (page_of va) f + take_bit 12 (ucast va)"
    "take_bit 12 (ucast (get_large_paddr p (page_of va) e) :: u64) = 0"
    "take_bit 12 (get_paddr_pae (page_of va) f) = 0"
proof -
  have large: "get_large_paddr p v e = push_bit 21 (field 21 11 e) + take_bit 21 v" for v
    using assms by (simp only: get_large_paddr_def masks32 and_field_mask take_bit_eq_mask [symmetric]
        simp_thms if_False) (rule or_disjoint_add; auto simp: bit_simps bit_field)
  have al: "take_bit 12 (get_large_paddr p (page_of va) e) = 0"
    by (simp only: large) (rule aligned_page, simp)
  have "get_large_paddr p va e = get_large_paddr p (page_of va) e + take_bit 12 va"
    by (simp add: large add_offset)
  then show "ucast (get_large_paddr p va e) = (ucast (get_large_paddr p (page_of va) e) + take_bit 12 (ucast va) :: u64)"
    using ucast_add_offset [OF al, of va] by simp
  show "take_bit 12 (ucast (get_large_paddr p (page_of va) e) :: u64) = 0"
    by (rule bit_word_eqI) (auto simp: bit_simps dest: aligned_bits [OF al])
  have u: "(ucast (page_of va) :: u64) = page_of (ucast va)"
    by (rule bit_word_eqI) (auto simp: bit_simps bit_page_of)
  have z: "take_bit 12 (page_of (x :: u64)) = 0" for x
    by (rule bit_word_eqI) (auto simp: bit_simps bit_page_of)
  have g: "get_paddr_pae (page_of va) f = push_bit 12 (field 12 24 f)"
    using pae_fields(7) [OF assms, of "page_of va" f] by (simp only: u z add_0_right)
  then show "get_paddr_pae va f = get_paddr_pae (page_of va) f + take_bit 12 (ucast va)"
    using pae_fields(7) [OF assms, of va f] by simp
  show "take_bit 12 (get_paddr_pae (page_of va) f) = 0"
    unfolding g by (rule bit_word_eqI) (auto simp: bit_simps)
  show "pdpi_index (page_of va) = pdpi_index va"
    unfolding pdpi_index_def by (rule arg_cong [of _ _ "\<lambda>x. x * 8"], rule bit_word_eqI)
      (auto simp: bit_simps bit_page_of)
  have "field 21 9 (page_of va) = field 21 9 va" "field 12 9 (page_of va) = field 12 9 va"
    by (simp_all add: field_page_of)
  then show "pgd_index p (page_of va) = pgd_index p va" "pte_index p (page_of va) = pte_index p va"
    by (simp_all only: pae_fields(4,5) [OF assms])
qed

lemma pae_opt_page:
  assumes "pae s \<noteq> 0"
  shows "pae_opt E d va s = map_option (\<lambda>f. f + take_bit 12 (ucast va)) (pae_opt E d (page_of va) s)"
    and "pae_opt E d (page_of va) s = Some f \<Longrightarrow> take_bit 12 f = 0"
  unfolding pae_opt_def Let_def pae_page_fields(1-3) [OF assms]
  using pae_page_fields(4-7) [OF assms, of va]
  by (simp_all only: if_distrib [of "map_option _"] option.map cong: if_cong split: if_splits)
    auto

lemma walk_page:
  assumes "mode_ok s"
  shows "walk E s dtb va = map_option (\<lambda>f. f + take_bit 12 va) (walk E s dtb (page_of va))"
    and "walk E s dtb (page_of va) = Some f \<Longrightarrow> take_bit 12 f = 0"
proof -
  have uc: "take_bit 12 (ucast g :: u64) = 0" if "take_bit 12 g = 0" for g :: u32
    by (rule bit_word_eqI) (auto simp: bit_simps dest: aligned_bits [OF that])
  show "walk E s dtb (page_of va) = Some f \<Longrightarrow> take_bit 12 f = 0"
    using assms pae_opt_page(2) [of s E "ucast dtb" "ucast va" f]
    by (auto simp: walk_def mode_ok_def ucast_page_of split: page_mode_t.splits
        dest: radix_walk_aligned radix_walk32_aligned intro: uc)
  show "walk E s dtb va = map_option (\<lambda>f. f + take_bit 12 va) (walk E s dtb (page_of va))"
  proof (cases "page_mode s")
    case VMI_PM_LEGACY
    let ?w = "radix_walk32 (entry32 E s) 1 (push_bit 12 (field 12 20 (ucast dtb)))"
    have "map_option ucast (?w (ucast va)) =
        map_option (\<lambda>f. f + take_bit 12 va) (map_option ucast (?w (page_of (ucast va))) :: u64 option)"
      unfolding radix_walk32_page [of _ _ _ "ucast va"]
      by (cases "?w (page_of (ucast va))")
        (auto simp: ucast_add_offset take_ucast dest: radix_walk32_aligned)
    then show ?thesis by (simp add: walk_def VMI_PM_LEGACY ucast_page_of)
  next
    case VMI_PM_PAE
    then have "pae s \<noteq> 0" using assms by (simp add: mode_ok_def)
    from pae_opt_page(1) [OF this, of E "ucast dtb" "ucast va"] show ?thesis
      by (simp add: walk_def VMI_PM_PAE ucast_page_of take_ucast)
  next
    case VMI_PM_IA32E
    then show ?thesis by (simp add: walk_def radix_walk_page [of _ _ _ va])
  qed (simp add: walk_def)
qed

subsection \<open>Reading pages leaves the address caches alone\<close>

definition addr_caches :: "vmi \<Rightarrow> (cint \<rightharpoonup> pid_cache_entry) \<times> (string \<rightharpoonup> sym_cache_entry)
    \<times> (u64 \<rightharpoonup> v2p_cache_entry)" where
  "addr_caches s = (pid_cache s, sym_cache s, v2p_cache s)"

lemma addr_caches_upd [simp]:
  "addr_caches (s\<lparr>memory_cache := a\<rparr>) = addr_caches s"
  "addr_caches (s\<lparr>memory_cache_lru := l\<rparr>) = addr_caches s"
  "addr_caches (s\<lparr>memory_cache_size := n\<rparr>) = addr_caches s"
  "addr_caches (s\<lparr>heap_next := h\<rparr>) = addr_caches s" "addr_caches (s\<lparr>fault := f\<rparr>) = addr_caches s"
  by (simp_all add: addr_caches_def)

lemma addr_caches_clean_loop: "addr_caches (snd (clean_loop s keys)) = addr_caches s"
proof (induction s keys rule: clean_loop.induct)
  case (1 s keys)
  then show ?case by (simp add: clean_loop.simps [of s keys])
qed

lemma addr_caches_fold: "addr_caches (fold remove_entry keys s) = addr_caches s"
  by (induction keys arbitrary: s) (simp_all add: remove_entry_def)

lemma keeps_clean_cache: "keeps addr_caches clean_cache"
  by (simp add: keeps_def clean_cache_def Let_def case_prod_beta addr_caches_fold addr_caches_clean_loop)

lemma keeps_raise_fault: "keeps addr_caches (raise_fault x)"
  by (simp add: keeps_def raise_fault_def)

lemma keeps_get_memory_data: "keeps addr_caches (get_memory_data E paddr len)"
proof -
  have x: "keeps addr_caches (xen_get_memory E paddr len)"
    unfolding xen_get_memory_def xen_get_memory_pfn_def xen_get_domainid_def xen_get_instance_def Let_def
    by (intro vmi_keeps keeps_raise_fault)
  have "keeps addr_caches (file_get_memory paddr len)"
    unfolding file_get_memory_def file_get_instance_def Let_def
    by (intro vmi_keeps keeps_raise_fault)
  with x show ?thesis
    unfolding get_memory_data_def
    by (intro vmi_keeps) (auto simp: keeps_raise_fault split: option.split backend.split)
qed

lemma keeps_memory_cache_insert: "keeps addr_caches (memory_cache_insert E paddr)"
  unfolding memory_cache_insert_def validate_and_return_data_def create_new_entry_def safe_malloc_def Let_def
  by (intro vmi_keeps keeps_clean_cache keeps_get_memory_data) simp_all

lemma keeps_vmi_read_page:
  "vm_ok E s \<Longrightarrow> addr_caches (snd (run_state (vmi_read_page E pfn) s)) = addr_caches s"
  by (simp add: vmi_read_page_def run_driver_read_page_insert keepsD [OF keeps_memory_cache_insert])

interpretation held: page_source E "\<lambda>s. vm_ok E s \<and> addr_caches s = c" for E c
proof
  fix s pfn
  show "reads (\<lambda>s. vm_ok E s \<and> addr_caches s = c) core (vmi_read_page E pfn) (\<lambda>s. frame_read E s pfn)"
    using reads_vmi_read_page [of E pfn] keeps_vmi_read_page by (simp add: reads_def)
qed simp

text \<open>The answers of the v2p cache depend on its table and on the page size.\<close>

lemma v2p_lookup_cong:
  assumes "addr_caches s = addr_caches t" and "core s = core t"
  shows "v2p_lookup s = v2p_lookup t"
proof -
  have "v2p_cache s = v2p_cache t" "page_size s = page_size t"
    using assms(1) core_eqD(2) [OF assms(2)] by (simp_all add: addr_caches_def)
  then show ?thesis
    by (simp add: v2p_lookup_def v2p_build_key_def page_mask_def cong: option.case_cong)
qed

lemma same_answers_trans: "same_answers s t \<Longrightarrow> same_answers t u \<Longrightarrow> same_answers s u"
  by (simp add: same_answers_def)

subsection \<open>The cached lookup returns what the walk returns\<close>

text \<open>
  What the cache may answer: the frame of the walk, cut to the 32 bits its mask keeps. For the
  32-bit modes the mask is right for the page of an address; in IA-32e mode it is not, and nothing
  is claimed here of lookups in that mode.
\<close>

definition cached_walk :: "env \<Rightarrow> vmi \<Rightarrow> addr_t \<times> addr_t \<Rightarrow> addr_t option" where
  "cached_walk E s = (\<lambda>(page, dtb). map_option (\<lambda>f. f AND 0xFFFFF000) (walk E s dtb page))"

definition xlat_ok :: "env \<Rightarrow> vmi \<Rightarrow> bool" where
  "xlat_ok E s \<longleftrightarrow> vm_ok E s \<and> mode_ok s \<and> page_mode s \<in> {VMI_PM_LEGACY, VMI_PM_PAE}
     \<and> v2pc.sound (cached_walk E s) s"

text \<open>An address space whose pages all lie below 4 GiB.\<close>

definition narrow :: "env \<Rightarrow> vmi \<Rightarrow> addr_t \<Rightarrow> bool" where
  "narrow E s dtb \<longleftrightarrow> (\<forall>va f. walk E s dtb va = Some f \<longrightarrow> unat f < 2 ^ 32)"

definition names :: "vmi \<Rightarrow> (cint \<rightharpoonup> addr_t) \<times> (string \<rightharpoonup> addr_t)" where
  "names s = (pid_lookup s, sym_lookup s)"

lemma cached_walk_core [simp]: "cached_walk E (core s) = cached_walk E s"
  by (simp add: cached_walk_def fun_eq_iff)

lemma narrow_core [simp]: "narrow E (core s) dtb = narrow E s dtb"
  by (simp add: narrow_def)

lemma cached_walk_cong: "core s = core t \<Longrightarrow> cached_walk E s = cached_walk E t"
  by (metis cached_walk_core)

lemma walk_cong: "core s = core t \<Longrightarrow> walk E s = walk E t"
  by (metis walk_core)

lemma narrow_cong: "core s = core t \<Longrightarrow> narrow E s dtb = narrow E t dtb"
  by (metis narrow_core)

lemma sound_cong:
  assumes "core s = core t" and "v2p_lookup s = v2p_lookup t"
  shows "v2pc.sound F s = v2pc.sound F t"
proof -
  have "page_mask s = page_mask t" using core_eqD(2) [OF assms(1)] by (simp add: page_mask_def)
  then show ?thesis unfolding v2pc.sound_def using assms(2) by simp
qed

lemma vm_ok_cong:
  assumes "core s = core t" and "page_part s = page_part t"
  shows "vm_ok E s = vm_ok E t"
proof -
  have "entries_ok E s = entries_ok E t"
    using assms(2) entries_ok_cong [OF assms(1)] entries_ok_cong [OF assms(1) [symmetric]]
    by (auto simp: page_part_def)
  then have "page_cache_ok E s = page_cache_ok E t"
    using assms(2) backing_ready_cong [OF assms(1)] by (simp add: page_cache_ok_def page_part_def)
  then show ?thesis
    using core_eqD [OF assms(1)] by (simp add: vm_ok_def attached_def)
qed

lemma xlat_ok_cong:
  assumes "core s = core t" and "page_part s = page_part t" and "v2p_lookup s = v2p_lookup t"
  shows "xlat_ok E s = xlat_ok E t"
  using vm_ok_cong [OF assms(1,2)] core_eqD(6,7) [OF assms(1)]
  unfolding xlat_ok_def mode_ok_def sound_cong [OF assms(1,3)] cached_walk_cong [OF assms(1)] by simp

lemma walk32_page:
  assumes "page_mode s \<in> {VMI_PM_LEGACY, VMI_PM_PAE}"
  shows "walk E s dtb (va AND 0xFFFFF000) = walk E s dtb (page_of va)"
proof -
  have "(ucast (va AND 0xFFFFF000) :: u32) = ucast (page_of va)"
    by (rule bit_word_eqI, simp only: bit_ucast_iff bit_and_iff, simp only: mask32_bits)
      (auto simp: bit_page_of)
  then show ?thesis using assms by (auto simp: walk_def)
qed

lemma aligned_or_offset:
  assumes "take_bit 12 (f :: u64) = 0"
  shows "f OR (4095 AND va) = f + take_bit 12 va"
proof -
  have "(4095 :: u64) = mask 12" by (simp add: mask_eq_exp_minus_1)
  then have "f OR (4095 AND va) = f OR take_bit 12 va"
    by (simp only: take_bit_eq_mask and.commute)
  also have "\<dots> = f + take_bit 12 va"
    by (rule or_disjoint_add) (auto simp: bit_simps dest: aligned_bits [OF assms])
  finally show ?thesis .
qed

lemma aligned_mask:
  assumes "take_bit 12 (f :: u64) = 0"
  shows "(f + take_bit 12 va) AND 0xFFFFF000 = f AND 0xFFFFF000"
    and "unat f < 2 ^ 32 \<Longrightarrow> f AND 0xFFFFF000 = f"
proof -
  have "f + take_bit 12 va = f OR take_bit 12 va"
    by (rule or_disjoint_add [symmetric]) (auto simp: bit_simps dest: aligned_bits [OF assms])
  then show "(f + take_bit 12 va) AND 0xFFFFF000 = f AND 0xFFFFF000"
    by (simp only:) (rule bit_word_eqI, simp only: bit_and_iff bit_or_iff bit_take_bit_iff,
      simp only: mask32_bits, auto)
  show "f AND 0xFFFFF000 = f" if "unat f < 2 ^ 32"
    unfolding mask32_small [OF that]
    by (rule bit_word_eqI) (use aligned_bits [OF assms] in \<open>auto simp: bit_simps\<close>)
qed

text \<open>What a successful get returns, and what storing the walk's answer means.\<close>

lemma cached_answer:
  assumes "xlat_ok E s" and "narrow E s dtb" and "v2p_lookup s (va, dtb) = Some f"
  shows "walk E s dtb va = Some (f OR (ucast (page_size s - 1) AND va))"
proof -
  have ok: "mode_ok s" "page_mode s \<in> {VMI_PM_LEGACY, VMI_PM_PAE}" "page_size s = 4096"
    "v2pc.sound (cached_walk E s) s" using assms(1) by (simp_all add: xlat_ok_def vm_ok_def)
  have "cached_walk E s (va AND 0xFFFFF000, dtb) = Some f"
    using ok(4) assms(3) page_mask_4096 [OF ok(3)] unfolding v2pc.sound_def by fastforce
  then obtain w where w: "walk E s dtb (page_of va) = Some w" "f = w AND 0xFFFFF000"
    by (auto simp: cached_walk_def walk32_page [OF ok(2)])
  have al: "take_bit 12 w = 0" by (rule walk_page(2) [OF ok(1) w(1)])
  have "unat w < 2 ^ 32" using assms(2) w(1) unfolding narrow_def by blast
  then have "f = w" using aligned_mask(2) [OF al] w(2) by simp
  then show ?thesis
    using walk_page(1) [OF ok(1), of E dtb va] w(1) aligned_or_offset [OF al] ok(3) by simp
qed

lemma sound_set:
  assumes "xlat_ok E s" and "walk E s dtb va = Some pa"
  shows "v2pc.sound (cached_walk E s) (snd (run_state (v2p_cache_set va dtb pa) s))"
proof -
  have ok: "mode_ok s" "page_mode s \<in> {VMI_PM_LEGACY, VMI_PM_PAE}" "page_size s = 4096"
    "v2pc.sound (cached_walk E s) s" using assms(1) by (simp_all add: xlat_ok_def vm_ok_def)
  obtain w where w: "walk E s dtb (page_of va) = Some w" "pa = w + take_bit 12 va"
    using assms(2) walk_page(1) [OF ok(1), of E dtb va] by auto
  have "cached_walk E s (va AND 0xFFFFF000, dtb) = Some (pa AND 0xFFFFF000)"
    using w aligned_mask(1) [OF walk_page(2) [OF ok(1) w(1)]]
    by (simp add: cached_walk_def walk32_page [OF ok(2)])
  then show ?thesis
    using v2pc.sound_store [OF ok(4), of "(va, dtb)" pa] page_mask_4096 [OF ok(3)] by simp
qed

lemma same_answers_parts:
  assumes "same_answers s t"
  shows "core t = core s" "page_part t = page_part s" "v2p_lookup t = v2p_lookup s" "names t = names s"
  using assms by (simp_all add: same_answers_def names_def)

lemma same_answers_ok: "same_answers s t \<Longrightarrow> xlat_ok E t = xlat_ok E s"
  using xlat_ok_cong [of t s E] same_answers_parts [of s t] by simp

lemma addr_caches_names: "addr_caches s = addr_caches t \<Longrightarrow> names s = names t"
  by (simp add: addr_caches_def names_def pid_lookup_def sym_lookup_def fun_eq_iff)

text \<open>After page reads only, the invariant holds again.\<close>

lemma xlat_ok_held:
  assumes "xlat_ok E s" and "vm_ok E t" "addr_caches t = addr_caches s" "core t = core s"
  shows "xlat_ok E t"
  using assms(1,2) core_eqD(6,7) [OF assms(4)]
  unfolding xlat_ok_def mode_ok_def sound_cong [OF assms(4) v2p_lookup_cong [OF assms(3,4)]]
    cached_walk_cong [OF assms(4)] by simp

lemma run_read_8_held:
  assumes "vm_ok E s"
  obtains t st v where "run_state (vmi_read_8_pa E pa 0) s = ((st, v), t)" "vm_ok E t"
    "addr_caches t = addr_caches s" "core t = core s"
  using reads_run [OF held.reads_vmi_read_width_pa(1) [where c = "addr_caches s"], of E s pa 0] assms that
  by (metis prod.collapse)

definition walk_step :: "env \<Rightarrow> page_mode_t \<Rightarrow> addr_t \<Rightarrow> addr_t \<Rightarrow> addr_t \<Rightarrow> addr_t vm" where
  "walk_step E pm dtb vaddr paddr = (case pm of
     VMI_PM_LEGACY \<Rightarrow> v2p_nopae E dtb vaddr | VMI_PM_PAE \<Rightarrow> v2p_pae E dtb vaddr
   | VMI_PM_IA32E \<Rightarrow> v2p_ia32e E dtb vaddr | VMI_PM_UNKNOWN \<Rightarrow> return paddr)"

lemma run_walk_step:
  assumes "xlat_ok E s"
  obtains t where "run_state (walk_step E (page_mode s) dtb va d) s = (zero_if_none (walk E s dtb va), t)"
    "xlat_ok E t" "names t = names s" "core t = core s"
proof -
  have ok: "vm_ok E s \<and> addr_caches s = addr_caches s" "mode_ok s"
    "page_mode s = VMI_PM_LEGACY \<or> page_mode s = VMI_PM_PAE"
    using assms by (simp_all add: xlat_ok_def)
  have "\<exists>t. run_state (walk_step E (page_mode s) dtb va d) s = (zero_if_none (walk E s dtb va), t)
      \<and> (vm_ok E t \<and> addr_caches t = addr_caches s) \<and> core t = core s"
    using ok(3)
  proof
    assume m: "page_mode s = VMI_PM_LEGACY"
    then have "pae s = 0" using ok(2) by (simp add: mode_ok_def)
    then have "nopae_fun E (ucast dtb) (ucast va) s = zero_if_none (walk E s dtb va)"
      by (auto simp: nopae_fun_radix walk_def m zero_if_none_def split: option.split)
    then show ?thesis
      using reads_run [OF held.reads_v2p_nopae ok(1) surjective_pairing, of dtb va]
      by (simp add: walk_step_def m) (metis prod.collapse)
  next
    assume m: "page_mode s = VMI_PM_PAE"
    then have "pae_fun E (ucast dtb) (ucast va) s = zero_if_none (walk E s dtb va)"
      by (simp add: pae_fun_opt walk_def)
    then show ?thesis
      using reads_run [OF held.reads_v2p_pae ok(1) surjective_pairing, of dtb va]
      by (simp add: walk_step_def m) (metis prod.collapse)
  qed
  then show thesis
    using that xlat_ok_held [OF assms] addr_caches_names by metis
qed

lemma v2p_set_parts:
  "names (snd (run_state (v2p_cache_set va dtb pa) s)) = names s"
  "vm_ok E (snd (run_state (v2p_cache_set va dtb pa) s)) = vm_ok E s"
  "names (snd (run_state (v2p_cache_del va dtb) s)) = names s"
  "vm_ok E (snd (run_state (v2p_cache_del va dtb) s)) = vm_ok E s"
proof -
  have *: "names (s\<lparr>v2p_cache := c\<rparr>) = names s" "vm_ok E (s\<lparr>v2p_cache := c\<rparr>) = vm_ok E s" for c
    using vm_ok_cong [of "s\<lparr>v2p_cache := c\<rparr>" s E]
    by (simp_all add: names_def pid_lookup_def sym_lookup_def page_part_def fun_eq_iff)
  show "names (snd (run_state (v2p_cache_set va dtb pa) s)) = names s"
    "vm_ok E (snd (run_state (v2p_cache_set va dtb pa) s)) = vm_ok E s"
    by (cases "va = 0 \<or> dtb = 0 \<or> pa = 0"; simp add: v2p_set_nothing v2p_set_state *)+
  show "names (snd (run_state (v2p_cache_del va dtb) s)) = names s"
    "vm_ok E (snd (run_state (v2p_cache_del va dtb) s)) = vm_ok E s"
    by (simp_all add: v2p_del_state *)
qed

lemma xlat_ok_core_change:
  assumes "xlat_ok E s" "core t = core s" "vm_ok E t" "v2pc.sound (cached_walk E s) t"
  shows "xlat_ok E t"
  using assms(1,3,4) core_eqD(6,7) [OF assms(2)] cached_walk_cong [OF assms(2)]
  by (simp add: xlat_ok_def mode_ok_def)

lemma xlat_ok_del:
  assumes "xlat_ok E s"
  shows "xlat_ok E (snd (run_state (v2p_cache_del va dtb) s))"
proof (rule xlat_ok_core_change [OF assms])
  show "core (snd (run_state (v2p_cache_del va dtb) s)) = core s"
    using v2pc.core_delete [of "(va, dtb)" s] by simp
  show "v2pc.sound (cached_walk E s) (snd (run_state (v2p_cache_del va dtb) s))"
    using v2pc.sound_delete [of "cached_walk E s" s "(va, dtb)"] assms by (simp add: xlat_ok_def)
qed (use assms in \<open>simp add: v2p_set_parts xlat_ok_def\<close>)

lemma xlat_ok_set:
  assumes "xlat_ok E s" and "walk E s dtb va = Some pa"
  shows "xlat_ok E (snd (run_state (v2p_cache_set va dtb pa) s))"
proof (rule xlat_ok_core_change [OF assms(1)])
  show "core (snd (run_state (v2p_cache_set va dtb pa) s)) = core s"
    using v2pc.core_store [of "(va, dtb)" pa s] by simp
qed (use assms sound_set in \<open>simp_all add: v2p_set_parts xlat_ok_def\<close>)

text \<open>The part of the lookup after a miss.\<close>

definition uncached :: "env \<Rightarrow> addr_t \<Rightarrow> addr_t \<Rightarrow> addr_t \<Rightarrow> addr_t vm" where
  "uncached E dtb va d = do {
     pm \<leftarrow> gets page_mode;
     paddr \<leftarrow> walk_step E pm dtb va d;
     (if paddr \<noteq> 0 then v2p_cache_set va dtb paddr else return ());
     return paddr }"

lemma lookup_uncached: "vmi_pagetable_lookup E dtb vaddr = do {
     (st, paddr) \<leftarrow> v2p_cache_get vaddr dtb 0;
     valid \<leftarrow> (if st = VMI_SUCCESS then do {
         (st2, value) \<leftarrow> vmi_read_8_pa E paddr 0;
         if st2 = VMI_SUCCESS then return True
         else do { _ \<leftarrow> v2p_cache_del vaddr dtb; return False } }
       else return False);
     if valid then return paddr else uncached E dtb vaddr paddr }"
  by (simp only: vmi_pagetable_lookup_def uncached_def walk_step_def)

lemma run_uncached:
  assumes "xlat_ok E s"
  obtains t where "run_state (uncached E dtb va d) s = (zero_if_none (walk E s dtb va), t)"
    "xlat_ok E t" "names t = names s" "core t = core s"
proof -
  obtain t where t: "run_state (walk_step E (page_mode s) dtb va d) s = (zero_if_none (walk E s dtb va), t)"
    "xlat_ok E t" "names t = names s" "core t = core s" by (rule run_walk_step [OF assms])
  show thesis
  proof (cases "zero_if_none (walk E s dtb va) = 0")
    case True
    then show thesis using that [of t] t by (simp add: uncached_def)
  next
    case False
    then obtain pa where pa: "walk E s dtb va = Some pa" "zero_if_none (walk E s dtb va) = pa"
      by (auto simp: zero_if_none_def split: option.splits)
    let ?u = "snd (run_state (v2p_cache_set va dtb pa) t)"
    have "walk E t dtb va = Some pa" using pa(1) walk_cong [OF t(4)] by simp
    then have "xlat_ok E ?u" by (rule xlat_ok_set [OF t(2)])
    moreover have "core ?u = core s" using v2pc.core_store [of "(va, dtb)" pa t] t(4) by simp
    moreover have "names ?u = names s" using t(3) by (simp add: v2p_set_parts)
    ultimately show thesis
      using that [of ?u] t(1) False pa(2) by (simp add: uncached_def case_prod_beta)
  qed
qed

lemma run_pagetable_lookup:
  assumes ok: "xlat_ok E s" and nw: "narrow E s dtb"
  obtains t where "run_state (vmi_pagetable_lookup E dtb va) s = (zero_if_none (walk E s dtb va), t)"
    "xlat_ok E t" "names t = names s" "core t = core s"
proof -
  let ?r = "map_option (\<lambda>f. f OR (ucast (page_size s - 1) AND va)) (v2p_lookup s (va, dtb))"
  obtain t0 where t0: "run_state (v2p_cache_get va dtb 0) s = (answer 0 ?r, t0)" "same_answers s t0"
    using run_v2p_cache_get [of va dtb 0 s] by blast
  have ok0: "xlat_ok E t0" using same_answers_ok [OF t0(2)] ok by simp
  note same0 = same_answers_parts [OF t0(2)]
  show thesis
  proof (cases "v2p_lookup s (va, dtb)")
    case None
    obtain t where "run_state (uncached E dtb va 0) t0 = (zero_if_none (walk E t0 dtb va), t)"
      "xlat_ok E t" "names t = names t0" "core t = core t0" by (rule run_uncached [OF ok0])
    then show thesis
      using that [of t] t0(1) None same0 walk_cong [OF same0(1)]
      by (simp add: lookup_uncached)
  next
    case (Some f)
    define pa where "pa = f OR (ucast (page_size s - 1) AND va)"
    have w: "walk E s dtb va = Some pa" unfolding pa_def by (rule cached_answer [OF ok nw Some])
    have "vm_ok E t0" using ok0 by (simp add: xlat_ok_def)
    then obtain t1 st v where t1: "run_state (vmi_read_8_pa E pa 0) t0 = ((st, v), t1)" "vm_ok E t1"
      "addr_caches t1 = addr_caches t0" "core t1 = core t0" by (rule run_read_8_held)
    have ok1: "xlat_ok E t1" by (rule xlat_ok_held [OF ok0 t1(2-4)])
    have n1: "names t1 = names s" using addr_caches_names [OF t1(3)] same0(4) by simp
    have c1: "core t1 = core s" using t1(4) same0(1) by simp
    show thesis
    proof (cases "st = VMI_SUCCESS")
      case True
      then show thesis
        using that [of t1] t0(1) t1(1) Some w ok1 n1 c1
        by (simp add: lookup_uncached pa_def [symmetric] zero_if_none_def)
    next
      case False
      let ?t2 = "snd (run_state (v2p_cache_del va dtb) t1)"
      have ok2: "xlat_ok E ?t2" by (rule xlat_ok_del [OF ok1])
      have c2: "core ?t2 = core s" using v2pc.core_delete [of "(va, dtb)" t1] c1 by simp
      have n2: "names ?t2 = names s" using n1 by (simp add: v2p_set_parts)
      obtain t where "run_state (uncached E dtb va pa) ?t2 = (zero_if_none (walk E ?t2 dtb va), t)"
        "xlat_ok E t" "names t = names ?t2" "core t = core ?t2" by (rule run_uncached [OF ok2])
      then show thesis
        using that [of t] t0(1) t1(1) False Some n2 c2 walk_cong [OF c2]
        by (simp add: lookup_uncached pa_def [symmetric] case_prod_beta)
    qed
  qed
qed

subsection \<open>Virtual memory as a partial map of bytes\<close>

text \<open>
  What counts as mapped above the walks: the code takes the physical address 0 for a failed translation, and an entry
  that could not be read for what its variable held (\<open>entry32\<close>, \<open>entry64\<close>).
\<close>

definition mapped :: "addr_t option \<Rightarrow> addr_t option" where
  "mapped r = (if zero_if_none r = 0 then None else r)"

lemma mapped_eq: "(if zero_if_none r = 0 then None else Some (zero_if_none r)) = mapped r"
  by (auto simp: mapped_def zero_if_none_def split: option.split)

definition virt_byte :: "env \<Rightarrow> vmi \<Rightarrow> addr_t \<Rightarrow> addr_t \<Rightarrow> u8 option" where
  "virt_byte E s dtb va = (case mapped (walk E s dtb va) of None \<Rightarrow> None | Some pa \<Rightarrow> phys_byte E s pa)"

definition virt_bytes :: "env \<Rightarrow> vmi \<Rightarrow> addr_t \<Rightarrow> addr_t \<Rightarrow> nat \<Rightarrow> u8 list" where
  "virt_bytes E s dtb va n = prefix_from (\<lambda>i. virt_byte E s dtb (va + of_nat i)) 0 n"

definition virt_word :: "env \<Rightarrow> vmi \<Rightarrow> addr_t \<Rightarrow> addr_t \<Rightarrow> 'a::len word \<Rightarrow> status_t \<times> 'a word" where
  "virt_word E s dtb va v = (let bs = virt_bytes E s dtb va (LENGTH('a) div 8)
     in (read_status bs (LENGTH('a) div 8), le_word (overlay (word_bytes v) bs)))"

definition virt_addr :: "env \<Rightarrow> vmi \<Rightarrow> addr_t \<Rightarrow> addr_t \<Rightarrow> addr_t \<Rightarrow> status_t \<times> addr_t" where
  "virt_addr E s dtb va v = (if page_mode s = VMI_PM_IA32E then virt_word E s dtb va v
     else map_prod id ucast (virt_word E s dtb va (0 :: u32)))"

lemma virt_core [simp]:
  "virt_byte E (core s) = virt_byte E s" "virt_bytes E (core s) = virt_bytes E s"
  "virt_word E (core s) dtb va v = virt_word E s dtb va v"
  "virt_addr E (core s) = virt_addr E s"
proof -
  show b: "virt_byte E (core s) = virt_byte E s" by (simp add: virt_byte_def fun_eq_iff cong: option.case_cong)
  show bs: "virt_bytes E (core s) = virt_bytes E s" by (simp add: virt_bytes_def fun_eq_iff b)
  show "virt_word E (core s) dtb va v = virt_word E s dtb va v" by (simp add: virt_word_def bs)
  show "virt_addr E (core s) = virt_addr E s" by (simp add: virt_addr_def virt_word_def bs fun_eq_iff)
qed

lemma mapped_page:
  assumes "mode_ok s" and "mapped (walk E s dtb va) = Some pa" and "unat (4095 AND pa) + k < 4096"
  shows "mapped (walk E s dtb (va + of_nat k)) = Some (pa + of_nat k)"
proof -
  obtain w where w: "walk E s dtb (page_of va) = Some w" "pa = w + take_bit 12 va" "pa \<noteq> 0"
    using assms(2) walk_page(1) [OF assms(1), of E dtb va]
    by (auto simp: mapped_def zero_if_none_def split: if_splits)
  have al: "take_bit 12 w = 0" by (rule walk_page(2) [OF assms(1) w(1)])
  have m: "(4095 :: u64) = mask 12" by (simp add: mask_eq_exp_minus_1)
  have "pa = w OR take_bit 12 va" using aligned_or_offset [OF al, of va] w(2) by (simp add: m take_bit_eq_mask and.commute)
  then have "4095 AND pa = take_bit 12 va"
    by (simp only: m) (rule bit_word_eqI, use aligned_bits [OF al] in \<open>force simp: bit_simps\<close>)
  then have o: "unat (4095 AND va) + k < 4096"
    using assms(3) by (simp only: m take_bit_eq_mask and.commute)
  have pg: "page_of (va + of_nat k) = page_of va"
    using page_add(1) [OF o] by (simp add: page_of_def)
  have "take_bit 12 (va + of_nat k) = take_bit 12 va + of_nat k"
    using page_add(2) [OF o] by (simp only: m take_bit_eq_mask and.commute)
  then have "walk E s dtb (va + of_nat k) = Some (pa + of_nat k)"
    using walk_page(1) [OF assms(1), of E dtb "va + of_nat k"] w pg by (simp add: add.assoc)
  moreover have "pa + of_nat k \<noteq> 0"
  proof
    assume z: "pa + of_nat k = 0"
    have "drop_bit 12 (pa + of_nat k) = drop_bit 12 pa" "4095 AND (pa + of_nat k) = (4095 AND pa) + of_nat k"
      using page_add [OF assms(3)] by simp_all
    then have "drop_bit 12 pa = 0" "(4095 AND pa) + of_nat k = 0" by (simp_all add: z)
    moreover have "unat ((4095 AND pa) + of_nat k) = unat (4095 AND pa) + k"
      using assms(3) by (simp add: unat_word_ariths unat_of_nat)
    ultimately have "drop_bit 12 pa = 0" "4095 AND pa = 0" by (simp_all add: unat_eq_zero)
    then have "pa = 0" using page_base_offset [of pa] by simp
    with w(3) show False by simp
  qed
  ultimately show ?thesis by (simp add: mapped_def zero_if_none_def)
qed

subsection \<open>Reading through a translation\<close>

text \<open>
  What the \<open>_va\<close> functions ask of a translation: that it returns what the walk of one table gives,
  and that a whole page is translated alike.
\<close>

locale va_source = page_source +
  fixes translate :: "addr_t \<Rightarrow> addr_t vm" and table :: "vmi \<Rightarrow> addr_t"
  assumes translate_reads: "reads I core (translate va) (\<lambda>s. zero_if_none (walk E s (table s) va))"
    and table_core: "table (core s) = table s"
    and source_mode: "I s \<Longrightarrow> mode_ok s"

sublocale va_source \<subseteq> va: translator E I "va_step translate vaddr"
    "\<lambda>s off. mapped (walk E s (table s) (vaddr + off))" for vaddr
proof
  fix off
  show "reads I core (va_step translate vaddr off) (\<lambda>s. mapped (walk E s (table s) (vaddr + off)))"
    using reads_bind [OF translate_reads [of "vaddr + off"] reads_return,
        of "\<lambda>paddr. if paddr = 0 then None else Some paddr"]
    by (simp add: va_step_def mapped_eq)
next
  fix s off pa and k :: nat
  assume "I s" "mapped (walk E s (table s) (vaddr + off)) = Some pa" "unat (4095 AND pa) + k < 4096"
  from mapped_page [OF source_mode [OF this(1)] this(2,3)]
  show "mapped (walk E s (table s) (vaddr + (off + of_nat k))) = Some (pa + of_nat k)"
    by (simp only: add.assoc)
qed (simp_all add: table_core)

context va_source
begin

lemma va_byte_at: "va.byte_at vaddr s = (\<lambda>i. virt_byte E s (table s) (vaddr + of_nat i))"
  by (simp add: va.byte_at_def virt_byte_def fun_eq_iff)

lemma reads_read_va:
  assumes "unat count < 2 ^ 63"
  shows "reads I core (read_va E translate vaddr count)
    (\<lambda>s. virt_bytes E s (table s) vaddr (unat count))"
  using va.reads_run_copy_loop [OF assms, of vaddr]
  by (simp add: read_va_def virt_bytes_def va_byte_at)

lemma reads_read_X_va:
  fixes v :: "'a::len word"
  assumes "LENGTH('a) < 2 ^ 63"
  shows "reads I core (read_X_va E translate vaddr v) (\<lambda>s. virt_word E s (table s) vaddr v)"
proof -
  have u: "unat (of_nat (LENGTH('a) div 8) :: u64) = LENGTH('a) div 8"
    using assms by (simp add: unat_of_nat)
  have "unat (of_nat (LENGTH('a) div 8) :: u64) < 2 ^ 63" using assms by (simp add: u)
  from reads_bind [OF reads_read_va [OF this, unfolded u] reads_return]
  show ?thesis by (simp add: read_X_va_def virt_word_def Let_def)
qed

lemma reads_read_width_va:
  "reads I core (read_X_va E translate vaddr (v8 :: u8)) (\<lambda>s. virt_word E s (table s) vaddr v8)"
  "reads I core (read_X_va E translate vaddr (v16 :: u16)) (\<lambda>s. virt_word E s (table s) vaddr v16)"
  "reads I core (read_X_va E translate vaddr (v32 :: u32)) (\<lambda>s. virt_word E s (table s) vaddr v32)"
  "reads I core (read_X_va E translate vaddr (v64 :: u64)) (\<lambda>s. virt_word E s (table s) vaddr v64)"
  by (simp_all add: reads_read_X_va)

lemma reads_read_addr_va:
  "reads I core (read_addr_va E translate vaddr v) (\<lambda>s. virt_addr E s (table s) vaddr v)"
  using reads_read_width_va(3) [of vaddr 0] reads_read_width_va(4) [of vaddr v]
  by (simp add: reads_def read_addr_va_def virt_addr_def case_prod_beta map_prod_def table_core)

end

subsection \<open>The kernel's address space\<close>

text \<open>
  The invariant under which kernel memory is read, with its limits: the guest uses 32-bit paging, legacy or PAE
  (\<open>xlat_ok\<close>), the tables named by \<open>D\<close>, of which the kernel's is one, map no page at or above 4 GiB (\<open>narrow\<close>), the
  translation cache agrees with the tables, and \<open>c\<close> is what the process and symbol caches answer. Every property that
  rests on it is a property of such guests only. The first two limits are those of the cache, whose keys and answers
  keep 32 bits: without them a lookup can be answered with another page's address, as
  \<open>vmi_pagetable_lookup_aliases\<close> shows for IA-32e paging. The walks behind the cache are proved for all three modes
  in \<open>Page_Walk\<close>.
\<close>

definition view :: "env \<Rightarrow> addr_t set \<Rightarrow> (cint \<rightharpoonup> addr_t) \<times> (string \<rightharpoonup> addr_t) \<Rightarrow> vmi \<Rightarrow> bool" where
  "view E D c s \<longleftrightarrow> xlat_ok E s \<and> (\<forall>d\<in>D. narrow E s d) \<and> kpgd s \<in> D \<and> kpgd s \<noteq> 0 \<and> names s = c"

lemma viewD:
  assumes "view E D c s"
  shows "xlat_ok E s" "vm_ok E s" "mode_ok s" "d \<in> D \<Longrightarrow> narrow E s d" "kpgd s \<in> D" "kpgd s \<noteq> 0"
    "names s = c"
  using assms by (auto simp: view_def xlat_ok_def)

lemma view_cong:
  assumes "view E D c s" and "xlat_ok E t" "core t = core s" "names t = names s"
  shows "view E D c t"
  using assms(1,2,4) core_eqD(3) [OF assms(3)] narrow_cong [OF assms(3)] by (simp add: view_def)

interpretation view: page_source E "view E D c" for E D c
proof
  fix s pfn
  show "view E D c s \<Longrightarrow> vm_ok E s" by (rule viewD)
  show "reads (view E D c) core (vmi_read_page E pfn) (\<lambda>s. frame_read E s pfn)"
  proof (rule readsI)
    fix s
    assume v: "view E D c s"
    let ?t = "snd (run_state (vmi_read_page E pfn) s)"
    have t: "vm_ok E ?t" "addr_caches ?t = addr_caches s" "core ?t = core s"
      "fst (run_state (vmi_read_page E pfn) s) = frame_read E s pfn"
      using reads_run [OF held.source_read [where c = "addr_caches s"] _ surjective_pairing, of E s pfn]
        viewD(2) [OF v] by simp_all
    have "view E D c ?t"
      by (rule view_cong [OF v xlat_ok_held [OF viewD(1) [OF v] t(1-3)] t(3) addr_caches_names [OF t(2)]])
    with t show "view E D c ?t \<and> core ?t = core s
      \<and> fst (run_state (vmi_read_page E pfn) s) = frame_read E (core s) pfn" by simp
  qed
qed

lemma reads_pagetable_lookup:
  assumes "d \<in> D"
  shows "reads (view E D c) core (vmi_pagetable_lookup E d va) (\<lambda>s. zero_if_none (walk E s d va))"
proof (rule readsI)
  fix s
  assume v: "view E D c s"
  obtain t where "run_state (vmi_pagetable_lookup E d va) s = (zero_if_none (walk E s d va), t)"
    "xlat_ok E t" "names t = names s" "core t = core s"
    by (rule run_pagetable_lookup [OF viewD(1) [OF v] viewD(4) [OF v assms]])
  then show "view E D c (snd (run_state (vmi_pagetable_lookup E d va) s))
    \<and> core (snd (run_state (vmi_pagetable_lookup E d va) s)) = core s
    \<and> fst (run_state (vmi_pagetable_lookup E d va) s) = zero_if_none (walk E (core s) d va)"
    using view_cong [OF v] by simp
qed

interpretation dtbv: va_source E "view E (insert d D) c" "vmi_pagetable_lookup E d" "\<lambda>_. d" for E d D c
  by unfold_locales (auto intro: reads_pagetable_lookup dest: viewD)

interpretation kern: va_source E "view E D c" "vmi_translate_kv2p E" kpgd for E D c
proof
  fix va
  show "reads (view E D c) core (vmi_translate_kv2p E va) (\<lambda>s. zero_if_none (walk E s (kpgd s) va))"
  proof (rule readsI)
    fix s
    assume v: "view E D c s"
    then have "run_state (vmi_translate_kv2p E va) s = run_state (vmi_pagetable_lookup E (kpgd s) va) s"
      by (simp add: vmi_translate_kv2p_def viewD)
    then show "view E D c (snd (run_state (vmi_translate_kv2p E va) s))
      \<and> core (snd (run_state (vmi_translate_kv2p E va) s)) = core s
      \<and> fst (run_state (vmi_translate_kv2p E va) s) = zero_if_none (walk E (core s) (kpgd (core s)) va)"
      using reads_pagetable_lookup [OF viewD(5) [OF v], of E c va] v by (simp add: reads_def)
  qed
qed (auto dest: viewD)

subsection \<open>Strings\<close>

text \<open>A string of \<open>n\<close> bytes that a zero byte ends, or the end of the readable memory.\<close>

definition ends_at :: "(nat \<Rightarrow> u8 option) \<Rightarrow> nat \<Rightarrow> bool" where
  "ends_at f n \<longleftrightarrow> (\<forall>i < n. \<exists>b. f i = Some b \<and> b \<noteq> 0) \<and> (f n = None \<or> f n = Some 0)"

lemma ends_at_unique: "ends_at f n \<Longrightarrow> ends_at f m \<Longrightarrow> n = m"
  unfolding ends_at_def by (metis linorder_neqE_nat option.distinct(1) option.inject)

lemma prefix_from_split: "length (prefix_from f i a) = a \<Longrightarrow>
    prefix_from f i (a + b) = prefix_from f i a @ prefix_from f (i + a) b"
proof (induction a arbitrary: i)
  case (Suc a)
  then show ?case using Suc.IH [of "Suc i"] by (auto split: option.splits)
qed simp

lemma ends_at_full: "ends_at f n \<Longrightarrow> m \<le> n \<Longrightarrow> length (prefix_from f 0 m) = m"
  unfolding prefix_from_full ends_at_def by (metis add_0 less_le_trans option.distinct(1))

lemma strnlen_ends:
  assumes "ends_at f n" and "L \<le> n" and "\<And>j. j < length bs \<Longrightarrow> f (L + j) = Some (bs ! j)"
  shows "strnlen bs = min (n - L) (length bs)"
proof -
  have nz: "bs ! j \<noteq> 0" if "j < length bs" "j < n - L" for j
  proof -
    have "L + j < n" using that by simp
    then obtain b where "f (L + j) = Some b" "b \<noteq> 0" using assms(1) unfolding ends_at_def by blast
    then show ?thesis using assms(3) [OF that(1)] by simp
  qed
  show ?thesis
  proof (cases "length bs \<le> n - L")
    case True
    then have "takeWhile (\<lambda>b. b \<noteq> 0) bs = bs"
      using nz by (auto simp: takeWhile_eq_all_conv in_set_conv_nth)
    then have "strnlen bs = length bs" by (simp only: strnlen_def)
    with True show ?thesis by simp
  next
    case False
    then have z: "bs ! (n - L) = 0" using assms(1,2) assms(3) [of "n - L"] by (auto simp: ends_at_def)
    have "length (takeWhile (\<lambda>b. b \<noteq> 0) bs) = n - L"
      using takeWhile_eq_take_P_nth [of "n - L" bs "\<lambda>b. b \<noteq> 0"] False nz z by simp
    with False show ?thesis by (simp add: strnlen_def)
  qed
qed

context va_source
begin

lemma byte_in_page:
  assumes "I s" and "mapped (walk E s (table s) va) = Some pa" and "unat (4095 AND pa) + k < 4096"
  shows "virt_byte E s (table s) (va + of_nat k)
    = page_byte s (frame_read E s (drop_bit 12 pa)) ((4095 AND pa) + of_nat k)"
  using mapped_page [OF source_mode [OF assms(1)] assms(2,3)] page_add [OF assms(3)]
  by (simp add: virt_byte_def phys_byte_def)

lemma str_va_loop_finds:
  assumes "I s" and "ends_at (\<lambda>i. virt_byte E s (table s) (va + of_nat i)) n"
    and "L \<le> n" and "n + 1 - L < fuel"
  shows "\<exists>t. run_state (str_va_loop E translate fuel va (virt_bytes E s (table s) va L)) s =
    (Some (virt_bytes E s (table s) va n), t) \<and> I t \<and> core t = core s"
  using assms
proof (induction fuel arbitrary: s L)
  case 0
  then show ?case by simp
next
  case (Suc fuel)
  let ?f = "\<lambda>i. virt_byte E s (table s) (va + of_nat i)" and ?v = "va + of_nat L"
  let ?buf = "virt_bytes E s (table s) va L"
  have len: "length ?buf = L" using ends_at_full [OF Suc.prems(2,3)] by (simp add: virt_bytes_def)
  obtain t1 where t1: "run_state (translate ?v) s = (zero_if_none (walk E s (table s) ?v), t1)" "I t1"
    "core t1 = core s"
    using reads_run [OF translate_reads Suc.prems(1) surjective_pairing, of ?v]
    by (metis prod.collapse table_core walk_core)
  have stop: "virt_bytes E s (table s) va n = ?buf" if "?f L = None"
  proof -
    have "ends_at ?f L" using Suc.prems(2,3) that by (auto simp: ends_at_def)
    then show ?thesis using ends_at_unique [OF _ Suc.prems(2)] by simp
  qed
  show ?case
  proof (cases "mapped (walk E s (table s) ?v)")
    case None
    then have "zero_if_none (walk E s (table s) ?v) = 0"
      by (simp add: mapped_def zero_if_none_def split: if_splits)
    moreover have "?f L = None" using None by (simp add: virt_byte_def)
    ultimately show ?thesis using t1 len stop by simp
  next
    case (Some pa)
    then have pa: "zero_if_none (walk E s (table s) ?v) = pa" "pa \<noteq> 0"
      by (auto simp: mapped_def zero_if_none_def split: if_splits option.splits)
    let ?pfn = "drop_bit 12 pa" and ?o = "4095 AND pa"
    obtain t2 where t2: "run_state (vmi_read_page E ?pfn) t1 = (frame_read E t1 ?pfn, t2)"
      "I t2" "core t2 = core t1" by (rule read_page_run [OF t1(2)])
    have fr: "frame_read E t1 = frame_read E s" "frame_read E t2 = frame_read E s"
      using t1(3) t2(3) by (metis ext frame_read_core)+
    note g = geometry [OF t1(2)]
    have o: "unat ?o < 4096" by (simp add: unat_page_offset)
    note b = byte_in_page [OF Suc.prems(1) Some]
    show ?thesis
    proof (cases "frame_read E s ?pfn = PNull")
      case True
      then have "?f L = None" using b [of 0] o by (simp add: page_byte_def)
      then show ?thesis using t1 t2 pa len g fr True stop by (simp add: Let_def)
    next
      case False
      let ?n = "4096 - unat ?o"
      obtain xs where xs: "run_state (page_bytes (frame_read E t2 ?pfn) ?o ?n) t2 = (xs, t2)"
        "length xs = ?n"
        "\<And>j. j < ?n \<Longrightarrow> page_byte t2 (frame_read E t2 ?pfn) (?o + of_nat j) = Some (xs ! j)"
        by (rule run_page_bytes [OF source_ok [OF t2(2)], of ?pfn ?o ?n]) (use False o fr in auto)
      have c2: "core t2 = core s" using t1(3) t2(3) by simp
      have at: "?f (L + j) = Some (xs ! j)" if "j < length xs" for j
      proof -
        have j: "unat ?o + j < 4096" using that xs(2) by simp
        have "?f (L + j) = page_byte s (frame_read E s ?pfn) (?o + of_nat j)"
          using b [OF j] by (simp add: add.assoc)
        also have "\<dots> = page_byte t2 (frame_read E t2 ?pfn) (?o + of_nat j)"
          using page_byte_core [of t2] page_byte_core [of s] c2 fr by metis
        finally show ?thesis using xs(2,3) that by simp
      qed
      have sl: "strnlen xs = min (n - L) (length xs)" by (rule strnlen_ends [OF Suc.prems(2,3) at])
      have app: "virt_bytes E s (table s) va (L + m) = ?buf @ take m xs" if "m \<le> length xs" for m
      proof -
        have "prefix_from ?f L m = take m xs @ prefix_from ?f (L + m) 0"
          using prefix_from_append [of "take m xs" m ?f L] at that by simp
        then show ?thesis
          using prefix_from_split [of ?f 0 L m] len by (simp add: virt_bytes_def)
      qed
      show ?thesis
      proof (cases "n - L < length xs")
        case True
        then show ?thesis
          using t1 t2 xs pa False len g fr sl app [of "n - L"] c2 Suc.prems(3) by (simp add: Let_def)
      next
        case no: False
        have vb: "virt_byte E t2 = virt_byte E s" "virt_bytes E t2 = virt_bytes E s" "table t2 = table s"
          using virt_core(1,2) [of E t2] virt_core(1,2) [of E s] table_core [of t2] table_core [of s] c2
          by simp_all
        have "L + length xs \<le> n" "n + 1 - (L + length xs) < fuel"
          using no xs(2) o Suc.prems(3,4) by auto
        then obtain t3 where "run_state (str_va_loop E translate fuel va
            (virt_bytes E t2 (table t2) va (L + length xs))) t2 =
            (Some (virt_bytes E t2 (table t2) va n), t3) \<and> I t3 \<and> core t3 = core t2"
          using Suc.IH [OF t2(2), of "L + length xs"] Suc.prems(2) by (auto simp: vb)
        then show ?thesis
          using t1 t2 xs pa False len g fr sl app [of "length xs"] c2 no by (simp add: Let_def vb)
      qed
    qed
  qed
qed

lemma read_str_va_finds:
  assumes "I s" and "ends_at (\<lambda>i. virt_byte E s (table s) (va + of_nat i)) n" and "n + 1 < fuel"
  shows "\<exists>t. run_state (read_str_va E translate fuel va) s =
    (Some (virt_bytes E s (table s) va n), t) \<and> I t \<and> core t = core s"
  using str_va_loop_finds [OF assms(1,2), of 0 fuel] assms(3) by (simp add: read_str_va_def virt_bytes_def)

end

subsection \<open>A sample guest\<close>

lemma narrow_legacy: "page_mode s = VMI_PM_LEGACY \<Longrightarrow> narrow E s d"
  using unat_lt_u32 by (auto simp: narrow_def walk_def)

lemma sound_empty: "v2p_cache s = Map.empty \<Longrightarrow> v2pc.sound F s"
  by (simp add: v2pc.sound_def v2p_lookup_def)

definition legacy_guest :: "(addr_t \<Rightarrow> u8) \<Rightarrow> vmi" where
  "legacy_guest m = (xen_guest m)\<lparr>page_mode := VMI_PM_LEGACY, kpgd := 0x1000\<rparr>"

lemma legacy_guest_fields [simp]:
  "page_mode (legacy_guest m) = VMI_PM_LEGACY" "kpgd (legacy_guest m) = 0x1000" "pae (legacy_guest m) = 0"
  "v2p_cache (legacy_guest m) = Map.empty" "page_size (legacy_guest m) = 4096"
  "names (legacy_guest m) = (Map.empty, Map.empty)"
  by (simp_all add: legacy_guest_def xen_guest_def attach_def xen_vmi_def zeroed_vmi_def names_def
      pid_lookup_def sym_lookup_def fun_eq_iff)

lemma legacy_guest_ok: "vm_ok xen_env (legacy_guest m)"
  by (simp add: vm_ok_def page_cache_ok_def backing_ready_def entries_ok_def legacy_guest_def xen_guest_def
      attach_def attached_def xen_vmi_def zeroed_vmi_def)

lemma legacy_guest_view: "view xen_env {0x1000} (Map.empty, Map.empty) (legacy_guest m)"
  using legacy_guest_ok [of m] sound_empty [of "legacy_guest m"] narrow_legacy [of "legacy_guest m"]
  by (simp add: view_def xlat_ok_def mode_ok_def)

lemma legacy_guest_byte: "drop_bit 12 a \<noteq> 0 \<Longrightarrow> phys_byte xen_env (legacy_guest m) a = Some (m a)"
  using page_base_offset [of a]
  by (simp add: phys_byte_def frame_read_def frame_page_def page_fetch_def memory_of_def Let_def
      page_byte_def push_drop_drop legacy_guest_def xen_guest_def attach_def xen_vmi_def zeroed_vmi_def
      xen_env_def beyond_memory_def)

lemma legacy_guest_entry:
  "entry32 xen_env (legacy_guest legacy_memory) 0x1004 = 0x800083"
proof -
  have "phys_bytes xen_env (legacy_guest legacy_memory) 0x1004 4 = map (\<lambda>i. legacy_memory (0x1004 + of_nat i)) [0..<4]"
  proof (rule phys_bytes_all)
    fix i :: nat
    assume "i < 4"
    then have "i = 0 \<or> i = 1 \<or> i = 2 \<or> i = 3" by auto
    then show "phys_byte xen_env (legacy_guest legacy_memory) (0x1004 + of_nat i)
        = Some (legacy_memory (0x1004 + of_nat i))"
      by (auto simp: legacy_guest_byte)
  qed
  then show ?thesis
    by (simp add: entry32_def entry_at_def phys_word_def Let_def legacy_memory_def le_word_def upt_rec)
qed

text \<open>The guest's page directory maps the 4 MB at \<open>0x400000\<close> to the physical \<open>0x800000\<close>.\<close>

lemma legacy_guest_walk:
  assumes "field 22 10 (ucast va :: u32) = 1"
  shows "walk xen_env (legacy_guest legacy_memory) 0x1000 va
    = Some (ucast (0x800000 + take_bit 22 (ucast va :: u32)))"
proof -
  have f: "field 12 20 (0x1000 :: u32) = 1" "field 22 10 (0x800083 :: u32) = 2"
    by (simp_all add: field_def)
  show ?thesis
    by (simp add: walk_def f radix_walk32.simps Let_def assms legacy_guest_entry)
qed

subsection \<open>Properties\<close>

text \<open>C1: The translation cache does not change translations in 32-bit paging (legacy or PAE) for page tables
  that map no page at or above 4 GiB (\<open>narrow\<close>): if the cache agrees with the tables, whatever else it holds after
  earlier lookups, \<open>vmi_pagetable_lookup\<close> returns what the code's own walk of the tables gives (\<open>v2p_nopae\<close> or \<open>v2p_pae\<close>), 0 for no
  mapping, and the cache goes on agreeing. An entry that cannot be read counts as what the code's unset variable held. Outside of these limits
  the cached answer can be wrong: see \<open>vmi_pagetable_lookup_aliases\<close> for IA-32e paging and \<open>v2p_cache_aliases\<close> for
  pages above 4 GiB.\<close>

theorem vmi_pagetable_lookup_walks:
  assumes "xlat_ok E s" and "narrow E s dtb" and "run_state (vmi_pagetable_lookup E dtb va) s = (pa, t)"
  shows "pa = zero_if_none (walk E s dtb va) \<and> xlat_ok E t \<and> core t = core s
    \<and> pid_lookup t = pid_lookup s \<and> sym_lookup t = sym_lookup s"
  using run_pagetable_lookup [OF assms(1,2), of va] assms(3) by (auto simp: names_def)

lemma vmi_pagetable_lookup_walks_witness:
  "fst (run_state (vmi_pagetable_lookup xen_env 0x1000 0x401234) (legacy_guest legacy_memory)) = 0x801234"
proof -
  have "field 22 10 (ucast (0x401234 :: u64) :: u32) = 1" by (simp add: field_def)
  from legacy_guest_walk [OF this] show ?thesis
    using vmi_pagetable_lookup_walks [OF viewD(1) [OF legacy_guest_view] viewD(4) [OF legacy_guest_view]
        surjective_pairing, of "0x1000" "0x401234" legacy_memory]
    by (simp add: zero_if_none_def)
qed

text \<open>C2: In a guest with 32-bit paging (legacy or PAE) whose kernel's page tables map no page at or above 4 GiB, and with a
  translation cache that agrees with them (\<open>view\<close>), reading kernel memory returns the longest prefix of the range that is mapped
  and readable, translating once for each page: the number of bytes is at most the count, each is the guest's byte at
  that virtual address, and if fewer came the next byte is not mapped or not readable.
  Mapped is what the code's walk maps (\<open>virt_byte\<close>): an address that it
  takes to the physical address 0 is not, and an entry that cannot be read counts as what an unset variable held.
  IA-32e paging is not covered.\<close>

theorem vmi_read_kva_prefix:
  assumes "view E D c s" and "unat count < 2 ^ 63" and "run_state (vmi_read_kva E vaddr count) s = (bs, t)"
  shows "length bs \<le> unat count
    \<and> (\<forall>i < length bs. virt_byte E s (kpgd s) (vaddr + of_nat i) = Some (bs ! i))
    \<and> (length bs < unat count \<longrightarrow> virt_byte E s (kpgd s) (vaddr + of_nat (length bs)) = None)
    \<and> view E D c t \<and> core t = core s"
proof -
  let ?f = "\<lambda>i. virt_byte E s (kpgd s) (vaddr + of_nat i)"
  note r = reads_run [OF kern.reads_read_va [OF assms(2)] assms(1,3)]
  then have bs: "bs = prefix_from ?f 0 (unat count)" by (simp add: virt_bytes_def)
  moreover have "?f (length bs) = None" if "length bs < unat count"
    using that prefix_from_stops [of ?f 0 "unat count"] by (simp add: bs)
  moreover have "?f i = Some (bs ! i)" if "i < length bs" for i
    using that prefix_from_nth [of i ?f 0 "unat count"] by (simp add: bs)
  ultimately show ?thesis
    using r length_prefix_from [of ?f 0 "unat count"] by auto
qed

lemma vmi_read_kva_prefix_witness:
  "length (fst (run_state (vmi_read_kva xen_env 0x401234 4) (legacy_guest legacy_memory))) = 4"
proof -
  let ?s = "legacy_guest legacy_memory"
  let ?bs = "fst (run_state (vmi_read_kva xen_env 0x401234 4) ?s)"
  have b: "virt_byte xen_env ?s 0x1000 (0x401234 + of_nat i) \<noteq> None" if "i < 4" for i
  proof -
    have "i = 0 \<or> i = 1 \<or> i = 2 \<or> i = 3" using that by auto
    then show ?thesis
      by (auto simp: virt_byte_def legacy_guest_walk field_def mapped_def zero_if_none_def legacy_guest_byte)
  qed
  have p: "length ?bs \<le> 4 \<and> (length ?bs < 4 \<longrightarrow>
      virt_byte xen_env ?s 0x1000 (0x401234 + of_nat (length ?bs)) = None)"
    using vmi_read_kva_prefix [OF legacy_guest_view _ surjective_pairing, of 4 "0x401234" legacy_memory]
    by simp
  show ?thesis
  proof (rule ccontr)
    assume "length ?bs \<noteq> 4"
    then have "length ?bs < 4" using p by simp
    with p b [of "length ?bs"] show False by simp
  qed
qed



text \<open>In IA-32e mode the translation cache can make a lookup wrong: once any address has been
looked up, every address that agrees with it in bits 12 to 31 is answered with the same frame, and
without the upper half of the frame's address, if a byte can be read there; the page tables of the
address asked for are not consulted.\<close>

theorem vmi_pagetable_lookup_aliases:
  assumes "vm_ok E s" and "va \<noteq> 0" "dtb \<noteq> 0" "pa \<noteq> 0" and "va' AND 0xFFFFF000 = va AND 0xFFFFF000"
    and "phys_byte E s ((pa AND 0xFFFFF000) OR (4095 AND va')) \<noteq> None"
  shows "fst (run_state (vmi_pagetable_lookup E dtb va') (snd (run_state (v2p_cache_set va dtb pa) s)))
    = (pa AND 0xFFFFF000) OR (4095 AND va')"
proof -
  let ?s = "snd (run_state (v2p_cache_set va dtb pa) s)" and ?pa = "(pa AND 0xFFFFF000) OR (4095 AND va')"
  have "page_size s = 4096" using assms(1) by (simp add: vm_ok_def)
  then have "page_mask s = 0xFFFFF000" by (rule page_mask_4096)
  then have l: "v2p_lookup ?s (va', dtb) = Some (pa AND 0xFFFFF000)"
    using v2pc.lookup_store [of "(va, dtb)" pa s "(va', dtb)"] assms by simp
  have c: "core ?s = core s" using v2pc.core_store [of "(va, dtb)" pa s] by simp
  have "page_size ?s = 4096" using core_eqD(2) [OF c] assms(1) by (simp add: vm_ok_def)
  then obtain t0 where t0: "run_state (v2p_cache_get va' dtb 0) ?s = ((VMI_SUCCESS, ?pa), t0)"
    "same_answers ?s t0"
    using run_v2p_cache_get [of va' dtb 0 ?s] l by auto
  have c0: "core t0 = core s" using same_answers_parts(1) [OF t0(2)] c by simp
  have "vm_ok E t0"
    using vm_ok_cong [of t0 ?s E] same_answers_parts(1,2) [OF t0(2)] assms(1) by (simp add: v2p_set_parts)
  then obtain t1 where "run_state (vmi_read_8_pa E ?pa 0) t0 = (phys_word E t0 ?pa 0, t1)"
    using reads_run [OF phys.reads_vmi_read_width_pa(1), of E t0 ?pa 0] by (metis phys_word_core prod.collapse)
  moreover have "length (phys_bytes E t0 ?pa 1) = 1"
    unfolding phys_bytes_full using assms(6) phys_byte_cong [OF c0] by simp
  ultimately show ?thesis using t0(1) by (simp add: lookup_uncached phys_word_def Let_def read_status_def)
qed

lemma vmi_pagetable_lookup_aliases_witness:
  "fst (run_state (vmi_pagetable_lookup xen_env 0x1000 0xFFFFFFFF80001234)
     (snd (run_state (v2p_cache_set 0x80001000 0x1000 0x123456000) (legacy_guest legacy_memory)))) = 0x23456234"
  using vmi_pagetable_lookup_aliases [OF legacy_guest_ok, of "0x80001000" "0x1000" "0x123456000"
      "0xFFFFFFFF80001234" legacy_memory]
  by (simp add: legacy_guest_byte)

end
