(* ===== verification/Sample_Guest.thy ===== *)
theory Sample_Guest
  imports Kernel_Space
begin

text \<open>
  A family of guests on which the properties of the operating system parts are applied: 32-bit paging
  without PAE, a page directory at \<open>0x1000\<close> and one 4 MB page that maps the addresses from \<open>0x400000\<close>
  to \<open>0x7FFFFF\<close>, whose bytes are given by a function of the virtual address.
\<close>

unbundle bit_operations_syntax

definition flat_memory :: "(addr_t \<Rightarrow> u8) \<Rightarrow> addr_t \<Rightarrow> u8" where
  "flat_memory f a = (if a = 0x1004 then 0x83 else if a = 0x1005 then 0 else if a = 0x1006 then 0x80
     else if a = 0x1007 then 0 else f (a - 0x400000))"

definition flat_guest :: "(addr_t \<Rightarrow> u8) \<Rightarrow> addr_t \<Rightarrow> linux_instance \<Rightarrow> windows_instance \<Rightarrow> os_t \<Rightarrow> vmi" where
  "flat_guest f task l w os = (legacy_guest (flat_memory f))\<lparr>init_task := task, linux_os := l, windows_os := w,
     os_type := os\<rparr>"

lemma flat_guest_fields [simp]:
  "page_mode (flat_guest f i l w os) = VMI_PM_LEGACY" "kpgd (flat_guest f i l w os) = 0x1000"
  "pae (flat_guest f i l w os) = 0" "init_task (flat_guest f i l w os) = i"
  "linux_os (flat_guest f i l w os) = l" "windows_os (flat_guest f i l w os) = w"
  "os_type (flat_guest f i l w os) = os" "v2p_cache (flat_guest f i l w os) = Map.empty"
  by (simp_all add: flat_guest_def)

lemma flat_guest_view: "view xen_env {0x1000} (Map.empty, Map.empty) (flat_guest f i l w os)"
proof -
  have "vm_ok xen_env (flat_guest f i l w os)" "names (flat_guest f i l w os) = (Map.empty, Map.empty)"
    by (simp_all add: vm_ok_def page_cache_ok_def backing_ready_def entries_ok_def flat_guest_def legacy_guest_def
        xen_guest_def attach_def attached_def xen_vmi_def zeroed_vmi_def names_def pid_lookup_def
        sym_lookup_def fun_eq_iff)
  then show ?thesis
    using sound_empty [of "flat_guest f i l w os"] narrow_legacy [of "flat_guest f i l w os"]
    by (simp add: view_def xlat_ok_def mode_ok_def)
qed

lemma flat_guest_byte: "drop_bit 12 a \<noteq> 0 \<Longrightarrow> phys_byte xen_env (flat_guest f i l w os) a = Some (flat_memory f a)"
  using page_base_offset [of a]
  by (simp add: phys_byte_def frame_read_def frame_page_def page_fetch_def memory_of_def Let_def
      page_byte_def push_drop_drop flat_guest_def legacy_guest_def xen_guest_def attach_def xen_vmi_def
      zeroed_vmi_def xen_env_def beyond_memory_def)

lemma flat_guest_entry: "entry32 xen_env (flat_guest f i l w os) 0x1004 = 0x800083"
proof -
  have "phys_bytes xen_env (flat_guest f i l w os) 0x1004 4 = map (\<lambda>i. flat_memory f (0x1004 + of_nat i)) [0..<4]"
  proof (rule phys_bytes_all)
    fix j :: nat
    assume "j < 4"
    then have "j = 0 \<or> j = 1 \<or> j = 2 \<or> j = 3" by auto
    then show "phys_byte xen_env (flat_guest f i l w os) (0x1004 + of_nat j) = Some (flat_memory f (0x1004 + of_nat j))"
      by (auto simp: flat_guest_byte)
  qed
  then show ?thesis
    by (simp add: entry32_def entry_at_def phys_word_def Let_def flat_memory_def le_word_def upt_rec)
qed

lemma flat_address:
  fixes va :: u64
  assumes "0x400000 \<le> va" "va < 0x800000"
  shows "field 22 10 (ucast va :: u32) = 1" "ucast (0x800000 + take_bit 22 (ucast va :: u32)) = va + 0x400000"
proof -
  define n where "n = unat va"
  have n: "0x400000 \<le> n" "n < 0x800000" "va = of_nat n"
    using assms by (simp_all add: n_def word_le_nat_alt word_less_nat_alt)
  have u: "unat (ucast va :: u32) = n"
    using n by (simp add: unsigned_ucast_eq unsigned_of_nat take_bit_eq_mod)
  have d1: "n div 2 ^ 22 = 1" using n(1,2) by (intro div_nat_eqI) simp_all
  have d2: "n mod 2 ^ 22 = n - 0x400000" using d1 minus_div_mult_eq_mod [of n "2 ^ 22"] by simp
  have "unat (drop_bit 22 (ucast va :: u32)) = 1" unfolding unat_drop_bit_eq unfolding u drop_bit_eq_div by (rule d1)
  then have "drop_bit 22 (ucast va :: u32) = 1" by (simp add: word_unat_eq_iff)
  then show "field 22 10 (ucast va :: u32) = 1" by (simp add: field_def)
  have "unat (take_bit 22 (ucast va :: u32)) = n - 0x400000"
    using u d2 by (simp add: take_bit_eq_mod unat_mod)
  then have "unat (0x800000 + take_bit 22 (ucast va :: u32)) = n + 0x400000"
    using n(1,2) by (simp add: unat_word_ariths)
  then have "(ucast (0x800000 + take_bit 22 (ucast va :: u32)) :: u64) = of_nat (n + 0x400000)"
    by (metis of_nat_unat)
  then show "ucast (0x800000 + take_bit 22 (ucast va :: u32)) = va + 0x400000" by (simp add: n(3))
qed

text \<open>The bytes of the mapped range.\<close>

definition in_flat :: "addr_t \<Rightarrow> bool" where
  "in_flat va \<longleftrightarrow> 0x400000 \<le> va \<and> va < 0x800000"

lemma flat_guest_virt:
  assumes "in_flat va"
  shows "walk xen_env (flat_guest f i l w os) 0x1000 va = Some (va + 0x400000)"
    and "virt_byte xen_env (flat_guest f i l w os) 0x1000 va = Some (f va)"
proof -
  have r: "0x400000 \<le> va" "va < 0x800000" using assms by (simp_all add: in_flat_def)
  have f: "field 12 20 (0x1000 :: u32) = 1" "field 22 10 (0x800083 :: u32) = 2"
    by (simp_all add: field_def)
  have "walk xen_env (flat_guest f i l w os) 0x1000 va = Some (ucast (0x800000 + take_bit 22 (ucast va :: u32)))"
    by (simp add: walk_def f radix_walk32.simps Let_def flat_address(1) [OF r] flat_guest_entry)
  then show w: "walk xen_env (flat_guest f i l w os) 0x1000 va = Some (va + 0x400000)"
    by (simp only: flat_address(2) [OF r])
  have ge: "0x800000 \<le> va + 0x400000"
    using r by (simp add: word_le_nat_alt word_less_nat_alt unat_word_ariths)
  then have "0x800 \<le> unat (drop_bit 12 (va + 0x400000))"
    using div_le_mono [of "0x800000" "unat (va + 0x400000)" "2 ^ 12"]
    by (simp add: word_le_nat_alt drop_bit_eq_div unat_div)
  then have "drop_bit 12 (va + 0x400000) \<noteq> 0" by auto
  then have byte: "phys_byte xen_env (flat_guest f i l w os) (va + 0x400000) = Some (flat_memory f (va + 0x400000))"
    by (rule flat_guest_byte)
  have "flat_memory f pa = f (pa - 0x400000)" if "0x800000 \<le> pa" for pa
  proof -
    have "pa \<noteq> 0x1004" "pa \<noteq> 0x1005" "pa \<noteq> 0x1006" "pa \<noteq> 0x1007"
      using that by (auto simp: word_le_nat_alt)
    then show ?thesis by (simp only: flat_memory_def if_False)
  qed
  from this [OF ge] have "flat_memory f (va + 0x400000) = f va" by simp
  moreover have "mapped (Some (va + 0x400000)) = Some (va + 0x400000)"
    using ge by (auto simp: mapped_def zero_if_none_def)
  ultimately show "virt_byte xen_env (flat_guest f i l w os) 0x1000 va = Some (f va)"
    by (simp only: virt_byte_def w option.case byte)
qed

lemma flat_guest_bytes:
  assumes "\<And>j. j < n \<Longrightarrow> in_flat (va + of_nat j)"
  shows "virt_bytes xen_env (flat_guest f i l w os) 0x1000 va n = map (\<lambda>j. f (va + of_nat j)) [0..<n]"
proof -
  have "prefix_from (\<lambda>j. virt_byte xen_env (flat_guest f i l w os) 0x1000 (va + of_nat j)) 0 n
      = map (\<lambda>j. f (va + of_nat j)) [0..<n] @ prefix_from
        (\<lambda>j. virt_byte xen_env (flat_guest f i l w os) 0x1000 (va + of_nat j)) (0 + n) (n - n)"
    using prefix_from_append [of "map (\<lambda>j. f (va + of_nat j)) [0..<n]" n
        "\<lambda>j. virt_byte xen_env (flat_guest f i l w os) 0x1000 (va + of_nat j)" 0]
    by (simp add: flat_guest_virt(2) assms)
  then show ?thesis by (simp add: virt_bytes_def)
qed

lemma flat_guest_word:
  assumes "\<And>j. j < LENGTH('a) div 8 \<Longrightarrow> in_flat (va + of_nat j)" and "LENGTH('a::len) mod 8 = 0"
  shows "virt_word xen_env (flat_guest f i l w os) 0x1000 va (v :: 'a word)
    = (VMI_SUCCESS, le_word (map (\<lambda>j. f (va + of_nat j)) [0..<LENGTH('a) div 8]))"
  using flat_guest_bytes [OF assms(1)]
  by (simp add: virt_word_def Let_def read_status_def overlay_def word_bytes_def)

lemma in_flat_add:
  assumes "0x400000 \<le> unat va" "unat va + k < 0x800000"
  shows "in_flat (va + of_nat k)"
proof -
  have "unat (va + of_nat k) = unat va + k"
    using assms by (simp add: unat_word_ariths unsigned_of_nat take_bit_eq_mod)
  then show ?thesis using assms by (simp add: in_flat_def word_le_nat_alt word_less_nat_alt)
qed

lemma flat_guest_word32:
  assumes "0x400000 \<le> unat va" "unat va < 0x7FFFF0"
  shows "virt_word xen_env (flat_guest f i l w os) 0x1000 va (v :: u32)
    = (VMI_SUCCESS, le_word [f va, f (va + 1), f (va + 2), f (va + 3)])"
proof -
  have "in_flat (va + of_nat j)" if "j < 4" for j :: nat using in_flat_add [OF assms(1), of j] assms(2) that by simp
  then show ?thesis using flat_guest_word [where 'a = 32 and va = va and v = v and f = f] by (simp add: upt_rec)
qed

end
