(* ===== verification/Linux_Os.thy ===== *)
theory Linux_Os
  imports Sample_Guest C_Strings
begin

text \<open>
  Linux guests: the symbol table of \<^verbatim>\<open>os/linux/symbols.c\<close>, which is read from a \<^verbatim>\<open>System.map\<close> file, and
  the task list of \<^verbatim>\<open>os/linux/memory.c\<close>. Reading uses the kernel's address space (\<open>pid\<close> 0).
\<close>

unbundle bit_operations_syntax

subsection \<open>os/linux/symbols.c\<close>

definition MAX_ROW_LENGTH :: nat where "MAX_ROW_LENGTH = 500"

text \<open>
  \<open>fgets\<close> stores its line and a zero over the row; the rest of the row stays. The loop that looks for
  the column does not stop at that zero. A blank run is overwritten by zeros, and reading one that
  reaches the end of the row goes out of its bounds.
\<close>

definition store_row :: "string \<Rightarrow> string \<Rightarrow> string" where
  "store_row line row = line @ CHR 0x00 # drop (Suc (length line)) row"

datatype column = Overrun | Missing | Column string string

fun find_column :: "nat \<Rightarrow> string \<Rightarrow> column" where
  "find_column 0 r = Column [] r"
| "find_column (Suc p) [] = Missing"
| "find_column (Suc p) (c # cs) =
     (if c_isspace c then
        (let blanks = takeWhile c_isspace (c # cs); r = dropWhile c_isspace (c # cs) in
         if r = [] then Overrun
         else (case find_column p r of
             Column pre tok \<Rightarrow> Column (map (\<lambda>_. CHR 0x00) blanks @ pre) tok
           | other \<Rightarrow> other))
      else (case find_column (Suc p) cs of
          Column pre tok \<Rightarrow> Column (c # pre) tok
        | other \<Rightarrow> other))"

definition end_token :: "string \<Rightarrow> string" where
  "end_token tok = (let t = takeWhile (\<lambda>c. \<not> c_isspace c) tok; r = drop (length t) tok
     in t @ (case r of [] \<Rightarrow> [] | c # cs \<Rightarrow> CHR 0x00 # cs))"

text \<open>
  The loop over the lines of the file. A line without the column ends the search. \<open>None\<close> is an access
  out of the row.
\<close>

function get_symbol_row :: "string \<Rightarrow> string \<Rightarrow> string \<Rightarrow> nat \<Rightarrow> (status_t \<times> string) option" where
  "get_symbol_row f row symbol position = (case fgets MAX_ROW_LENGTH f of
     None \<Rightarrow> Some (VMI_FAILURE, replicate MAX_ROW_LENGTH (CHR 0x00))
   | Some (line, f') \<Rightarrow> (case find_column position (store_row line row) of
       Overrun \<Rightarrow> None
     | Missing \<Rightarrow> Some (VMI_FAILURE, replicate MAX_ROW_LENGTH (CHR 0x00))
     | Column pre tok \<Rightarrow>
         (let tok = end_token tok; row = pre @ tok in
          if strncmp_eq MAX_ROW_LENGTH (c_str tok) symbol then Some (VMI_SUCCESS, row)
          else get_symbol_row f' row symbol position)))"
  by pat_completeness auto
termination
  by (relation "measure (\<lambda>(f, row, symbol, position). length f)")
    (auto simp: MAX_ROW_LENGTH_def intro: fgets_shorter [of 500])

declare get_symbol_row.simps [simp del]

definition linux_system_map_symbol_to_address :: "env \<Rightarrow> string \<Rightarrow> addr_t \<Rightarrow> (status_t \<times> addr_t) vm" where
  "linux_system_map_symbol_to_address E symbol address = do {
     m \<leftarrow> gets sysmap;
     (if m = None \<or> m = Some [] then modify (\<lambda>s. s\<lparr>sysmap := Some ''unknown''\<rparr>) else return ());
     m \<leftarrow> gets sysmap;
     let row = map (heap_bytes E) [0..<MAX_ROW_LENGTH];
     (case m of
       None \<Rightarrow> raise_fault (VMI_FAILURE, address)
     | Some path \<Rightarrow> (case host_file E path of
         None \<Rightarrow> return (VMI_FAILURE, address)
       | Some bs \<Rightarrow> (case get_symbol_row (chars_of bs) row symbol 2 of
           None \<Rightarrow> raise_fault (VMI_FAILURE, address)
         | Some (VMI_FAILURE, _) \<Rightarrow> return (VMI_FAILURE, address)
         | Some (VMI_SUCCESS, row) \<Rightarrow> return (VMI_SUCCESS, strtoull16 (c_str row))))) }"

subsection \<open>os/linux/memory.c\<close>

text \<open>
  The walk of the task list, with a bound on the number of rounds; \<open>task_pid\<close> keeps its value where
  the field cannot be read. Offsets are \<open>int\<close>s and are widened with their sign.
\<close>

primrec task_loop :: "env \<Rightarrow> nat \<Rightarrow> cint \<Rightarrow> cint \<Rightarrow> cint \<Rightarrow> addr_t \<Rightarrow> addr_t \<Rightarrow> cint \<Rightarrow> addr_t option vm" where
  "task_loop E 0 pid pid_offset tasks_offset list_head next_process task_pid = return None"
| "task_loop E (Suc fuel) pid pid_offset tasks_offset list_head next_process task_pid = do {
     (_, next_process_tmp) \<leftarrow> vmi_read_addr_kva E next_process 0;
     if list_head = next_process_tmp then return (Some 0)
     else do {
       (_, task_pid) \<leftarrow> vmi_read_X_kva E (next_process + scast pid_offset - scast tasks_offset) task_pid;
       if task_pid = pid then return (Some next_process)
       else task_loop E fuel pid pid_offset tasks_offset list_head next_process_tmp task_pid } }"

definition linux_get_taskstruct_addr :: "env \<Rightarrow> nat \<Rightarrow> cint \<Rightarrow> addr_t option vm" where
  "linux_get_taskstruct_addr E fuel pid = do {
     os \<leftarrow> gets linux_os;
     next_process \<leftarrow> gets init_task;
     task_loop E fuel pid (linux_pid_offset os) (linux_tasks_offset os) next_process next_process 0 }"

definition linux_pid_to_pgd :: "env \<Rightarrow> nat \<Rightarrow> cint \<Rightarrow> addr_t option vm" where
  "linux_pid_to_pgd E fuel pid = do {
     os \<leftarrow> gets linux_os;
     obind (linux_get_taskstruct_addr E fuel pid) (\<lambda>ts_addr.
       if ts_addr = 0 then return (Some 0)
       else do {
         (_, ptr) \<leftarrow> vmi_read_addr_kva E (ts_addr + scast (linux_mm_offset os) - scast (linux_tasks_offset os)) 0;
         (_, pgd) \<leftarrow> vmi_read_addr_kva E (ptr + scast (linux_pgd_offset os)) 0;
         pgd \<leftarrow> vmi_translate_kv2p E pgd;
         return (Some pgd) }) }"

subsection \<open>The symbol table\<close>

text \<open>A line of the file: an address, a type and a name, with one blank between them.\<close>

definition map_line :: "string \<times> string \<times> string \<Rightarrow> string" where
  "map_line e = (case e of (a, t, n) \<Rightarrow> a @ CHR '' '' # t @ CHR '' '' # n @ [CHR 0x0A])"

definition word_chars :: "string \<Rightarrow> bool" where
  "word_chars w \<longleftrightarrow> w \<noteq> [] \<and> (\<forall>c \<in> set w. \<not> c_isspace c \<and> c \<noteq> CHR 0x00)"

definition entry_ok :: "string \<times> string \<times> string \<Rightarrow> bool" where
  "entry_ok e \<longleftrightarrow> (case e of (a, t, n) \<Rightarrow> word_chars a \<and> word_chars t \<and> word_chars n)
     \<and> length (map_line e) < MAX_ROW_LENGTH"

definition symbol_entry :: "string \<Rightarrow> (string \<times> string \<times> string) list \<Rightarrow> (string \<times> string \<times> string) option" where
  "symbol_entry symbol es = find (\<lambda>(a, t, n). n = symbol) es"

lemma blank [simp]: "c_isspace CHR '' ''" "c_isspace CHR 0x0A" "\<not> c_isspace CHR 0x00"
  by (simp_all add: c_isspace_def)

lemma find_column_word:
  "\<forall>c \<in> set w. \<not> c_isspace c \<Longrightarrow> find_column (Suc p) (w @ r) = (case find_column (Suc p) r of
     Column pre tok \<Rightarrow> Column (w @ pre) tok | other \<Rightarrow> other)"
  by (induction w) (auto split: column.split)

lemma find_column_blank:
  "\<not> c_isspace d \<Longrightarrow> find_column (Suc p) (CHR '' '' # d # r) = (case find_column p (d # r) of
     Column pre tok \<Rightarrow> Column (CHR 0x00 # pre) tok | other \<Rightarrow> other)"
  by (simp add: Let_def split: column.split)

lemma find_column_line:
  assumes "word_chars a" "word_chars t" "word_chars n"
  shows "find_column 2 (a @ CHR '' '' # t @ CHR '' '' # n @ r)
    = Column (a @ CHR 0x00 # t @ [CHR 0x00]) (n @ r)"
proof -
  obtain t0 ts where t: "t = t0 # ts" "\<not> c_isspace t0" using assms(2) by (cases t) (auto simp: word_chars_def)
  obtain n0 ns where n: "n = n0 # ns" "\<not> c_isspace n0" using assms(3) by (cases n) (auto simp: word_chars_def)
  have w: "\<forall>c \<in> set a. \<not> c_isspace c" "\<forall>c \<in> set t. \<not> c_isspace c" using assms by (simp_all add: word_chars_def)
  have one: "find_column (Suc 0) (t @ CHR '' '' # n @ r) = Column (t @ [CHR 0x00]) (n @ r)"
    unfolding find_column_word [OF w(2)] using find_column_blank [OF n(2), of 0] by (simp add: n)
  have "find_column (Suc (Suc 0)) (CHR '' '' # t @ CHR '' '' # n @ r)
      = Column (CHR 0x00 # t @ [CHR 0x00]) (n @ r)"
    using find_column_blank [OF t(2), of "Suc 0" "ts @ CHR '' '' # n @ r"] one t by simp
  then show ?thesis by (simp add: numeral_2_eq_2 find_column_word [OF w(1)])
qed

lemma end_token_name: "word_chars n \<Longrightarrow> end_token (n @ CHR 0x0A # r) = n @ CHR 0x00 # r"
  by (simp add: end_token_def Let_def word_chars_def takeWhile_append)

lemma c_str_word: "word_chars w \<Longrightarrow> c_str (w @ CHR 0x00 # r) = w"
  by (simp add: c_str_def word_chars_def takeWhile_append)

lemma word_chars_newline: "word_chars w \<Longrightarrow> c \<in> set w \<Longrightarrow> c \<noteq> CHR 0x0A"
  unfolding word_chars_def using blank(2) by metis

lemma fgets_line:
  assumes "entry_ok e"
  shows "fgets MAX_ROW_LENGTH (map_line e @ f) = Some (map_line e, f)"
proof -
  obtain a t n where e: "e = (a, t, n)" by (cases e)
  let ?body = "a @ CHR '' '' # t @ CHR '' '' # n"
  have no: "\<forall>c \<in> set ?body. c \<noteq> CHR 0x0A"
    using assms word_chars_newline [of a] word_chars_newline [of t] word_chars_newline [of n]
    unfolding entry_ok_def e prod.case by auto
  have "map_line e @ f = ?body @ CHR 0x0A # f" by (simp add: map_line_def e)
  then have "takeWhile (\<lambda>c. c \<noteq> CHR 0x0A) (map_line e @ f) = ?body"
    using no by (simp add: takeWhile_append)
  moreover have "Suc (length ?body) = length (map_line e)" by (simp add: map_line_def e)
  moreover have "length (map_line e) \<le> MAX_ROW_LENGTH - 1" using assms unfolding entry_ok_def by linarith
  moreover have "map_line e @ f \<noteq> []" by (simp add: map_line_def e)
  ultimately show ?thesis by (simp add: fgets_def Let_def min_def)
qed

lemma strncmp_name: "length n < k \<Longrightarrow> strncmp_eq k n symbol \<longleftrightarrow> n = symbol"
  by (auto simp: strncmp_eq_def)

lemma get_symbol_row_finds:
  assumes "\<forall>e \<in> set es. entry_ok e"
  shows "case symbol_entry symbol es of
     None \<Rightarrow> get_symbol_row (concat (map map_line es)) row symbol 2
       = Some (VMI_FAILURE, replicate MAX_ROW_LENGTH (CHR 0x00))
   | Some (a, t, n) \<Rightarrow> \<exists>row'. get_symbol_row (concat (map map_line es)) row symbol 2 = Some (VMI_SUCCESS, row')
       \<and> c_str row' = a"
  using assms
proof (induction es arbitrary: row)
  case Nil
  then show ?case by (simp add: symbol_entry_def get_symbol_row.simps [of "[]"] fgets_def)
next
  case (Cons e es)
  obtain a t n where e: "e = (a, t, n)" by (cases e)
  have ok: "entry_ok e" and w: "word_chars a" "word_chars t" "word_chars n"
    using Cons.prems by (auto simp: e entry_ok_def)
  define r where "r = CHR 0x00 # drop (Suc (length (map_line e))) row"
  let ?row = "a @ CHR 0x00 # t @ CHR 0x00 # n @ CHR 0x00 # r"
  have "store_row (map_line e) row = a @ CHR '' '' # t @ CHR '' '' # n @ CHR 0x0A # r"
    by (simp add: store_row_def map_line_def e r_def)
  then have col: "find_column 2 (store_row (map_line e) row)
      = Column (a @ CHR 0x00 # t @ [CHR 0x00]) (n @ CHR 0x0A # r)"
    using find_column_line [OF w] by simp
  have tok: "end_token (n @ CHR 0x0A # r) = n @ CHR 0x00 # r" "c_str (n @ CHR 0x00 # r) = n"
    by (rule end_token_name [OF w(3)], rule c_str_word [OF w(3)])
  have "length n < MAX_ROW_LENGTH" using ok by (simp add: entry_ok_def e map_line_def)
  then have step: "get_symbol_row (concat (map map_line (e # es))) row symbol 2 =
      (if n = symbol then Some (VMI_SUCCESS, ?row) else get_symbol_row (concat (map map_line es)) ?row symbol 2)"
    using fgets_line [OF ok, of "concat (map map_line es)"] tok
    by (cases "n = symbol") (simp_all add: get_symbol_row.simps [of "map_line e @ _"] col Let_def strncmp_name)
  show ?case
  proof (cases "n = symbol")
    case True
    then show ?thesis using step c_str_word [OF w(1)] by (simp add: symbol_entry_def e)
  next
    case False
    then have eq: "symbol_entry symbol (e # es) = symbol_entry symbol es" by (simp add: symbol_entry_def e)
    have "\<forall>e \<in> set es. entry_ok e" using Cons.prems by simp
    note IH = Cons.IH [OF this, of ?row]
    show ?thesis unfolding eq step using IH by (simp only: False if_False)
  qed
qed

lemma chars_of_bytes_of [simp]: "chars_of (bytes_of s) = s"
proof -
  have "unat (of_nat (of_char c :: nat) :: u8) = of_char c" for c
    using nat_of_char_less_256 [of c] by (simp add: unat_of_nat)
  then show ?thesis by (induction s) (simp_all add: chars_of_def bytes_of_def)
qed

lemma run_system_map:
  assumes "sysmap s = Some path" "path \<noteq> []" "host_file E path = Some (bytes_of (concat (map map_line es)))"
    and "\<forall>e \<in> set es. entry_ok e"
  shows "run_state (linux_system_map_symbol_to_address E symbol address) s =
    ((case symbol_entry symbol es of None \<Rightarrow> (VMI_FAILURE, address)
      | Some (a, t, n) \<Rightarrow> (VMI_SUCCESS, strtoull16 a)), s)"
proof -
  let ?row = "map (heap_bytes E) [0..<MAX_ROW_LENGTH]"
  have "run_state (linux_system_map_symbol_to_address E symbol address) s =
    run_state (case get_symbol_row (concat (map map_line es)) ?row symbol 2 of
        None \<Rightarrow> raise_fault (VMI_FAILURE, address)
      | Some (VMI_FAILURE, _) \<Rightarrow> return (VMI_FAILURE, address)
      | Some (VMI_SUCCESS, row) \<Rightarrow> return (VMI_SUCCESS, strtoull16 (c_str row))) s"
    using assms(1-3) by (simp add: linux_system_map_symbol_to_address_def Let_def)
  then show ?thesis
    using get_symbol_row_finds [OF assms(4), where symbol = symbol and row = ?row]
    by (cases "symbol_entry symbol es") auto
qed

subsection \<open>The task list\<close>

text \<open>What the walk computes from the guest's memory, which it does not change.\<close>

definition node_next :: "env \<Rightarrow> vmi \<Rightarrow> addr_t \<Rightarrow> addr_t" where
  "node_next E s a = snd (virt_addr E s (kpgd s) a 0)"

definition node_pid :: "env \<Rightarrow> vmi \<Rightarrow> cint \<Rightarrow> cint \<Rightarrow> addr_t \<Rightarrow> cint \<Rightarrow> status_t \<times> cint" where
  "node_pid E s pid_offset tasks_offset a = virt_word E s (kpgd s) (a + scast pid_offset - scast tasks_offset)"

primrec task_walk :: "env \<Rightarrow> vmi \<Rightarrow> nat \<Rightarrow> cint \<Rightarrow> cint \<Rightarrow> cint \<Rightarrow> addr_t \<Rightarrow> addr_t \<Rightarrow> cint \<Rightarrow> addr_t option" where
  "task_walk E s 0 pid po to head cur task_pid = None"
| "task_walk E s (Suc fuel) pid po to head cur task_pid =
     (if head = node_next E s cur then Some 0
      else let task_pid = snd (node_pid E s po to cur task_pid) in
        if task_pid = pid then Some cur
        else task_walk E s fuel pid po to head (node_next E s cur) task_pid)"

lemma node_core [simp]: "node_next E (core s) = node_next E s" "node_pid E (core s) = node_pid E s"
  by (simp_all add: node_next_def node_pid_def fun_eq_iff)

lemma reads_task_loop:
  "reads (view E D c) core (task_loop E fuel pid po to head cur p) (\<lambda>s. task_walk E s fuel pid po to head cur p)"
proof (induction fuel arbitrary: cur p)
  case 0
  show ?case by (simp add: reads_return)
next
  case (Suc fuel)
  show ?case
    unfolding task_loop.simps
    by (rule reads_weaken, (rule reads_bind reads_case_prod reads_if reads_return kern.reads_read_addr_va
          kern.reads_read_width_va(3) Suc)+)
      (simp add: node_next_def node_pid_def Let_def case_prod_beta)
qed

lemma task_walk_core [simp]:
  "task_walk E (core s) fuel pid po to head cur p = task_walk E s fuel pid po to head cur p"
  by (induction fuel arbitrary: cur p) (simp_all add: Let_def)

text \<open>A chain of list nodes, and what its \<open>pid\<close> fields hold.\<close>

fun linked :: "(addr_t \<Rightarrow> addr_t) \<Rightarrow> addr_t \<Rightarrow> addr_t list \<Rightarrow> addr_t \<Rightarrow> bool" where
  "linked nxt x [] y \<longleftrightarrow> x = y"
| "linked nxt x (a # as) y \<longleftrightarrow> x = a \<and> linked nxt (nxt a) as y"

definition pids_are :: "env \<Rightarrow> vmi \<Rightarrow> cint \<Rightarrow> cint \<Rightarrow> addr_t list \<Rightarrow> (addr_t \<Rightarrow> cint) \<Rightarrow> bool" where
  "pids_are E s po to nodes f \<longleftrightarrow> (\<forall>a \<in> set nodes. \<forall>old. node_pid E s po to a old = (VMI_SUCCESS, f a))"

lemma task_walk_finds:
  assumes "linked (node_next E s) cur (cur # as) head" "head \<notin> set as"
    and "pids_are E s po to (cur # as) f" and "length as < fuel"
  shows "task_walk E s fuel pid po to head cur p =
    Some (case find (\<lambda>a. f a = pid) (butlast (cur # as)) of None \<Rightarrow> 0 | Some a \<Rightarrow> a)"
  using assms
proof (induction as arbitrary: cur fuel p)
  case Nil
  then show ?case by (cases fuel) auto
next
  case (Cons a as)
  then obtain n where n: "fuel = Suc n" by (cases fuel) auto
  have nx: "node_next E s cur = a" "head \<noteq> a" using Cons.prems by auto
  have pid: "node_pid E s po to cur p = (VMI_SUCCESS, f cur)" using Cons.prems(3) by (simp add: pids_are_def)
  have "task_walk E s n pid po to head a (f cur) =
      Some (case find (\<lambda>a. f a = pid) (butlast (a # as)) of None \<Rightarrow> 0 | Some a \<Rightarrow> a)"
    by (rule Cons.IH) (use Cons.prems n in \<open>auto simp: pids_are_def\<close>)
  then show ?case using nx pid by (simp add: n Let_def)
qed

subsection \<open>Properties\<close>

text \<open>C39: The symbol lookup reads a well-formed \<open>System.map\<close> as the table it is: for a file of lines
\<open>address type name\<close> that fit the row buffer, the address returned is the hexadecimal number of the
first line with that name, and the lookup fails, leaving the caller's variable alone, if no line has
it. What the row held before makes no difference.\<close>

theorem system_map_lookup:
  assumes "sysmap s = Some path" "path \<noteq> []" "host_file E path = Some (bytes_of (concat (map map_line es)))"
    and "\<forall>e \<in> set es. entry_ok e"
  shows "run_state (linux_system_map_symbol_to_address E symbol address) s =
    ((case symbol_entry symbol es of None \<Rightarrow> (VMI_FAILURE, address)
      | Some (a, t, n) \<Rightarrow> (VMI_SUCCESS, strtoull16 a)), s)"
  by (rule run_system_map [OF assms])

definition sample_map :: "(string \<times> string \<times> string) list" where
  "sample_map = [(''c0100000'', ''T'', ''_text''), (''c0505000'', ''d'', ''init_task'')]"

definition map_env :: env where
  "map_env = bare_env\<lparr>host_file := (\<lambda>_. Some (bytes_of (concat (map map_line sample_map))))\<rparr>"

lemma sample_map_facts:
  "\<forall>e \<in> set sample_map. entry_ok e" "strtoull16 ''c0505000'' = 0xc0505000"
  "symbol_entry ''init_task'' sample_map = Some (''c0505000'', ''d'', ''init_task'')"
proof -
  have "word_chars ''c0100000''" "word_chars ''T''" "word_chars ''_text''" "word_chars ''c0505000''"
      "word_chars ''d''" "word_chars ''init_task''"
    by (simp_all add: word_chars_def c_isspace_def)
  then show "\<forall>e \<in> set sample_map. entry_ok e"
    by (simp add: sample_map_def entry_ok_def map_line_def MAX_ROW_LENGTH_def)
  show "strtoull16 ''c0505000'' = 0xc0505000"
    by (simp add: strtoull16_def c_isspace_def sign_split_def hex_prefix_def digit_val_def Let_def)
  show "symbol_entry ''init_task'' sample_map = Some (''c0505000'', ''d'', ''init_task'')"
    by (simp add: symbol_entry_def sample_map_def)
qed

lemma system_map_lookup_witness:
  "fst (run_state (linux_system_map_symbol_to_address map_env ''init_task'' 0)
     (zeroed_vmi\<lparr>sysmap := Some ''map''\<rparr>)) = (VMI_SUCCESS, 0xc0505000)"
  using system_map_lookup [of "zeroed_vmi\<lparr>sysmap := Some ''map''\<rparr>" "''map''" map_env sample_map
      "''init_task''" 0] sample_map_facts
  by (simp add: map_env_def)

text \<open>C38: In a guest with 32-bit paging (legacy or PAE) whose kernel's page tables map no page at or above 4 GiB, and with a
  translation cache that agrees with them (\<open>view\<close>), the task walk returns the first task with the given number among all nodes of a
  circular task list but the one before the head, which in Linux is \<open>init_task\<close> itself, and 0 if there is none; any
  bound above the length of the list is enough for it to end, and only caches change. IA-32e paging is not covered.\<close>

theorem linux_task_walk:
  assumes "view E D c s" and "linked (node_next E s) (init_task s) (init_task s # as) (init_task s)"
    and "init_task s \<notin> set as"
    and "pids_are E s (linux_pid_offset (linux_os s)) (linux_tasks_offset (linux_os s)) (init_task s # as) f"
    and "length as < fuel" and "run_state (linux_get_taskstruct_addr E fuel pid) s = (r, t)"
  shows "r = Some (case find (\<lambda>a. f a = pid) (butlast (init_task s # as)) of None \<Rightarrow> 0 | Some a \<Rightarrow> a)
    \<and> view E D c t \<and> core t = core s"
proof -
  let ?os = "linux_os s" and ?i = "init_task s"
  have run: "run_state (task_loop E fuel pid (linux_pid_offset ?os) (linux_tasks_offset ?os) ?i ?i 0) s = (r, t)"
    using assms(6) by (simp add: linux_get_taskstruct_addr_def)
  from reads_run [OF reads_task_loop assms(1) run] task_walk_finds [OF assms(2-5)]
  show ?thesis by simp
qed

text \<open>A guest with three tasks.\<close>

definition task_memory :: "addr_t \<Rightarrow> u8" where
  "task_memory = (\<lambda>_. 0)(0x401001 := 0x20, 0x401002 := 0x40, 0x401008 := 1,
     0x402001 := 0x30, 0x402002 := 0x40, 0x402008 := 2, 0x403001 := 0x10, 0x403002 := 0x40, 0x403008 := 3)"

definition task_guest :: vmi where
  "task_guest = flat_guest task_memory 0x401000 \<lparr>linux_tasks_offset = 0, linux_mm_offset = 0,
     linux_pid_offset = 8, linux_pgd_offset = 0, linux_name_offset = 0\<rparr> (windows_os zeroed_vmi) VMI_OS_LINUX"

lemma task_guest_fields [simp]:
  "page_mode task_guest = VMI_PM_LEGACY" "kpgd task_guest = 0x1000" "init_task task_guest = 0x401000"
  "linux_pid_offset (linux_os task_guest) = 8" "linux_tasks_offset (linux_os task_guest) = 0"
  by (simp_all add: task_guest_def)

lemma task_guest_view: "view xen_env {0x1000} (Map.empty, Map.empty) task_guest"
  unfolding task_guest_def by (rule flat_guest_view)

lemma task_guest_word:
  assumes "0x400000 \<le> unat va" "unat va < 0x7FFFF0"
  shows "virt_word xen_env task_guest 0x1000 va (v :: u32)
    = (VMI_SUCCESS, le_word [task_memory va, task_memory (va + 1), task_memory (va + 2), task_memory (va + 3)])"
  using flat_guest_word32 [OF assms, of task_memory] by (simp add: task_guest_def)

lemma task_guest_nodes:
  "node_next xen_env task_guest 0x401000 = 0x402000" "node_next xen_env task_guest 0x402000 = 0x403000"
  "node_next xen_env task_guest 0x403000 = 0x401000"
  "pids_are xen_env task_guest 8 0 [0x401000, 0x402000, 0x403000] (\<lambda>a. ucast (task_memory (a + 8)))"
  by (simp_all add: node_next_def node_pid_def virt_addr_def task_guest_word task_memory_def le_word_def
      pids_are_def)

lemma linux_task_walk_witness:
  "fst (run_state (linux_get_taskstruct_addr xen_env 4 2) task_guest) = Some 0x402000"
  using linux_task_walk [OF task_guest_view _ _ _ _ surjective_pairing, of "[0x402000, 0x403000]"
      "\<lambda>a. ucast (task_memory (a + 8))" 4 2] task_guest_nodes
  by (simp add: task_memory_def)

end
