(* ===== verification/C_Structs.thy ===== *)
theory C_Structs
  imports Vmi_Prelude
begin

text \<open>
  Packed structures that the code lays over a byte buffer or reads from the guest: a layout is the list
  of their members with their sizes in bytes, in order and without padding.
\<close>

type_synonym layout = "(string \<times> nat) list"

fun member :: "layout \<Rightarrow> string \<Rightarrow> (nat \<times> nat) option" where
  "member [] f = None"
| "member ((n, k) # l) f = (if n = f then Some (0, k) else map_option (\<lambda>(ofs, w). (k + ofs, w)) (member l f))"

definition layout_size :: "layout \<Rightarrow> nat" where
  "layout_size l = sum_list (map snd l)"

definition offset_of :: "layout \<Rightarrow> string \<Rightarrow> nat option" where
  "offset_of l f = map_option fst (member l f)"

lemma member_in_layout: "member l f = Some (ofs, w) \<Longrightarrow> ofs + w \<le> layout_size l"
proof (induction l arbitrary: ofs)
  case (Cons x l)
  obtain n k where x: "x = (n, k)" by (cases x)
  show ?case
  proof (cases "n = f")
    case True
    then show ?thesis using Cons.prems by (simp add: x layout_size_def)
  next
    case False
    then obtain o' where "member l f = Some (o', w)" "ofs = k + o'" using Cons.prems by (auto simp: x)
    then show ?thesis using Cons.IH [of o'] by (simp add: x layout_size_def)
  qed
qed simp

text \<open>The value of a member, read little-endian.\<close>

definition get_member :: "layout \<Rightarrow> string \<Rightarrow> u8 list \<Rightarrow> 'a::len word" where
  "get_member l f bs = (case member l f of None \<Rightarrow> 0 | Some (ofs, w) \<Rightarrow> le_word (take w (drop ofs bs)))"

text \<open>An access to \<open>n\<close> bytes of a buffer; \<open>None\<close> is one outside its bounds.\<close>

definition bytes_at :: "u8 list \<Rightarrow> nat \<Rightarrow> nat \<Rightarrow> u8 list option" where
  "bytes_at buf ofs n = (if ofs + n \<le> length buf then Some (take n (drop ofs buf)) else None)"

text \<open>The value of a member of a structure laid over a buffer at an offset.\<close>

definition member_at :: "layout \<Rightarrow> string \<Rightarrow> u8 list \<Rightarrow> nat \<Rightarrow> 'a::len word option" where
  "member_at l f buf base = (case member l f of None \<Rightarrow> None
     | Some (ofs, w) \<Rightarrow> map_option le_word (bytes_at buf (base + ofs) w))"

lemma member_at_fits: "base + layout_size l \<le> length buf \<Longrightarrow> member l f \<noteq> None \<Longrightarrow> member_at l f buf base \<noteq> None"
  using member_in_layout [of l f] by (fastforce simp: member_at_def bytes_at_def split: option.split)

lemma bytes_at_Some: "ofs + n \<le> length buf \<Longrightarrow> bytes_at buf ofs n = Some (take n (drop ofs buf))"
  by (simp add: bytes_at_def)

lemma length_bytes_at: "bytes_at buf ofs n = Some bs \<Longrightarrow> length bs = n"
  by (auto simp: bytes_at_def split: if_splits)

end
