(* ===== verification/Pe_Parse.thy ===== *)
theory Pe_Parse
  imports Sample_Guest C_Strings C_Structs "HOL-Library.Signed_Division"
begin

text \<open>
  The parser of the kernel image's export table, \<^verbatim>\<open>os/windows/peparse.c\<close>. Everything is read from the
  kernel's address space (\<open>pid\<close> 0). A string of bytes is read with a bound on the number of its pages,
  and \<open>None\<close> means that the bound was reached. A variable that the code reads before it is set holds
  \<open>junk\<close>.
\<close>

unbundle bit_operations_syntax

subsection \<open>The structures\<close>

definition IMAGE_DOS_HEADER :: u16 where "IMAGE_DOS_HEADER = 0x5A4D"
definition IMAGE_NT_SIGNATURE :: u32 where "IMAGE_NT_SIGNATURE = 0x00004550"
definition IMAGE_PE32_MAGIC :: u16 where "IMAGE_PE32_MAGIC = 0x10b"
definition IMAGE_PE32_PLUS_MAGIC :: u16 where "IMAGE_PE32_PLUS_MAGIC = 0x20b"
definition MAX_HEADER_BYTES :: u64 where "MAX_HEADER_BYTES = 1024"

definition pe_header :: layout where
  "pe_header = [(''signature'', 4), (''machine'', 2), (''number_of_sections'', 2), (''time_date_stamp'', 4),
     (''pointer_to_symbol_table'', 4), (''number_of_symbols'', 4), (''size_of_optional_header'', 2),
     (''characteristics'', 2)]"

definition dos_header :: layout where
  "dos_header = [(''signature'', 2), (''bytes_in_last_block'', 2), (''blocks_in_file'', 2), (''reloc_ct'', 2),
     (''header_size'', 2), (''min_mem'', 2), (''max_mem'', 2), (''ss'', 2), (''sp'', 2), (''chksum'', 2),
     (''ip'', 2), (''cs'', 2), (''reloc_tbl_ofs'', 2), (''overlay'', 2), (''reserved'', 32),
     (''offset_to_pe'', 4)]"

text \<open>The array \<open>idd\<close> of 16 directories is 128 bytes; its element 0 is the export directory.\<close>

definition optional_header_pe32 :: layout where
  "optional_header_pe32 = [(''magic'', 2), (''major_linker_version'', 1), (''minor_linker_version'', 1),
     (''size_of_code'', 4), (''size_of_initialized_data'', 4), (''size_of_uninitialized_data'', 4),
     (''address_of_entry_point'', 4), (''base_of_code'', 4), (''base_of_data'', 4), (''image_base'', 4),
     (''section_alignment'', 4), (''file_alignment'', 4), (''major_os_version'', 2),
     (''minor_os_version'', 2), (''major_image_version'', 2), (''minor_image_version'', 2),
     (''major_subsystem_version'', 2), (''minor_subsystem_version'', 2), (''win32_version_value'', 4),
     (''size_of_image'', 4), (''size_of_headers'', 4), (''checksum'', 4), (''subsystem'', 2),
     (''dll_characteristics'', 2), (''size_of_stack_reserve'', 4), (''size_of_stack_commit'', 4),
     (''size_of_heap_reserve'', 4), (''size_of_heap_commit'', 4), (''loader_flags'', 4),
     (''number_of_rva_and_sizes'', 4), (''idd'', 128)]"

definition optional_header_pe32plus :: layout where
  "optional_header_pe32plus = [(''magic'', 2), (''major_linker_version'', 1), (''minor_linker_version'', 1),
     (''size_of_code'', 4), (''size_of_initialized_data'', 4), (''size_of_uninitialized_data'', 4),
     (''address_of_entry_point'', 4), (''base_of_code'', 4), (''image_base'', 8),
     (''section_alignment'', 4), (''file_alignment'', 4), (''major_os_version'', 2),
     (''minor_os_version'', 2), (''major_image_version'', 2), (''minor_image_version'', 2),
     (''major_subsystem_version'', 2), (''minor_subsystem_version'', 2), (''win32_version_value'', 4),
     (''size_of_image'', 4), (''size_of_headers'', 4), (''checksum'', 4), (''subsystem'', 2),
     (''dll_characteristics'', 2), (''size_of_stack_reserve'', 8), (''size_of_stack_commit'', 8),
     (''size_of_heap_reserve'', 8), (''size_of_heap_commit'', 8), (''loader_flags'', 4),
     (''number_of_rva_and_sizes'', 4), (''idd'', 128)]"

definition image_data_directory :: layout where
  "image_data_directory = [(''virtual_address'', 4), (''size'', 4)]"

definition export_table_layout :: layout where
  "export_table_layout = [(''export_flags'', 4), (''time_date_stamp'', 4), (''major_version'', 2),
     (''minor_version'', 2), (''name'', 4), (''base'', 4), (''number_of_functions'', 4),
     (''number_of_names'', 4), (''address_of_functions'', 4), (''address_of_names'', 4),
     (''address_of_name_ordinals'', 4)]"

record export_table =
  export_flags :: u32
  et_name :: u32
  number_of_functions :: u32
  number_of_names :: u32
  address_of_functions :: u32
  address_of_names :: u32
  address_of_name_ordinals :: u32

definition export_table_of :: "u8 list \<Rightarrow> export_table" where
  "export_table_of bs = (let m = (\<lambda>f. get_member export_table_layout f bs) in
     \<lparr>export_flags = m ''export_flags'', et_name = m ''name'',
      number_of_functions = m ''number_of_functions'', number_of_names = m ''number_of_names'',
      address_of_functions = m ''address_of_functions'', address_of_names = m ''address_of_names'',
      address_of_name_ordinals = m ''address_of_name_ordinals''\<rparr>)"

subsection \<open>Names and functions\<close>

definition rva_to_string :: "env \<Rightarrow> nat \<Rightarrow> addr_t \<Rightarrow> u8 list option vm" where
  "rva_to_string E fuel rva = do {
     w \<leftarrow> gets windows_os;
     let vaddr = ntoskrnl_va w + rva;
     vmi_read_str_kva E fuel vaddr }"

text \<open>
  \<open>dump_exports\<close>: what it prints, line by line. The image's address is cut to 32 bits, and the sums of
  32-bit numbers wrap before they are widened.
\<close>

primrec dump_loop :: "env \<Rightarrow> nat \<Rightarrow> addr_t \<Rightarrow> addr_t \<Rightarrow> addr_t \<Rightarrow> nat \<Rightarrow> u32 \<Rightarrow>
    (u8 list \<times> u16 \<times> u32) list option vm" where
  "dump_loop E fuel base1 base2 base3 0 i = return (Some [])"
| "dump_loop E fuel base1 base2 base3 (Suc k) i = do {
     (_, rva) \<leftarrow> vmi_read_X_kva E (base1 + ucast i * 4) (0 :: u32);
     if rva = 0 then dump_loop E fuel base1 base2 base3 k (i + 1)
     else obind (rva_to_string E fuel (ucast rva)) (\<lambda>str. do {
       (_, ordinal) \<leftarrow> vmi_read_X_kva E (base2 + ucast i * 2) (0 :: u16);
       (_, loc) \<leftarrow> vmi_read_X_kva E (base3 + ucast ordinal + 4) (0 :: u32);
       obind (dump_loop E fuel base1 base2 base3 k (i + 1)) (\<lambda>rest. return (Some ((str, ordinal, loc) # rest))) }) }"

definition dump_exports :: "env \<Rightarrow> nat \<Rightarrow> export_table \<Rightarrow> (u8 list \<times> u16 \<times> u32) list option vm" where
  "dump_exports E fuel et = do {
     w \<leftarrow> gets windows_os;
     let base_addr = (ucast (ntoskrnl_va w) :: u32);
     dump_loop E fuel (ucast (base_addr + address_of_names et)) (ucast (base_addr + address_of_name_ordinals et))
       (ucast (base_addr + address_of_functions et)) (unat (number_of_names et)) 0 }"

definition get_export_rva :: "env \<Rightarrow> cint \<Rightarrow> export_table \<Rightarrow> (status_t \<times> addr_t) vm" where
  "get_export_rva E aof_index et = do {
     w \<leftarrow> gets windows_os;
     let rva_loc = ntoskrnl_va w + ucast (address_of_functions et) + scast aof_index * 4;
     (ret, tmp) \<leftarrow> vmi_read_X_kva E rva_loc (0 :: u32);
     return (ret, ucast tmp) }"

definition get_aof_index :: "env \<Rightarrow> cint \<Rightarrow> export_table \<Rightarrow> cint vm" where
  "get_aof_index E aon_index et = do {
     w \<leftarrow> gets windows_os;
     let aof_index_loc = ntoskrnl_va w + ucast (address_of_name_ordinals et) + scast aon_index * 2;
     (ret, aof_index) \<leftarrow> vmi_read_X_kva E aof_index_loc (0 :: u32);
     (if ret = VMI_SUCCESS then return (aof_index AND 0xffff) else return (-1)) }"

primrec linear_loop :: "env \<Rightarrow> nat \<Rightarrow> u8 list \<Rightarrow> addr_t \<Rightarrow> nat \<Rightarrow> u32 \<Rightarrow> cint option vm" where
  "linear_loop E fuel symbol aon 0 i = return (Some (-1))"
| "linear_loop E fuel symbol aon (Suc k) i = do {
     (_, str_rva) \<leftarrow> vmi_read_X_kva E (aon + ucast i * 4) (0 :: u32);
     if str_rva = 0 then linear_loop E fuel symbol aon k (i + 1)
     else obind (rva_to_string E fuel (ucast str_rva)) (\<lambda>rva.
       if take (length rva) rva = take (length rva) symbol then return (Some i)
       else linear_loop E fuel symbol aon k (i + 1)) }"

definition get_aon_index_linear :: "env \<Rightarrow> nat \<Rightarrow> u8 list \<Rightarrow> export_table \<Rightarrow> cint option vm" where
  "get_aon_index_linear E fuel symbol et = do {
     w \<leftarrow> gets windows_os;
     linear_loop E fuel symbol (ntoskrnl_va w + ucast (address_of_names et)) (unat (number_of_names et)) 0 }"

text \<open>
  The binary search. \<open>low\<close> and \<open>high\<close> are C \<open>int\<close>s, whose sum must not overflow; division truncates.
  The status of the read is ignored.
\<close>

lemma sdiv_two_between:
  fixes low high :: int
  assumes "low \<le> high"
  shows "low \<le> (low + high) sdiv 2 \<and> (low + high) sdiv 2 \<le> high"
proof (cases "0 \<le> low + high")
  case True
  then have "(low + high) sdiv 2 = (low + high) div 2"
    by (cases "low + high = 0") (simp_all add: signed_divide_int_def)
  moreover have "low \<le> (low + high) div 2 \<and> (low + high) div 2 \<le> high" using assms by presburger
  ultimately show ?thesis by simp
next
  case False
  then have "(low + high) sdiv 2 = - ((- (low + high)) div 2)" by (simp add: signed_divide_int_def)
  then show ?thesis using assms by linarith
qed

function find_aon_idx_bin :: "env \<Rightarrow> nat \<Rightarrow> u8 list \<Rightarrow> addr_t \<Rightarrow> int \<Rightarrow> int \<Rightarrow> cint option vm" where
  "find_aon_idx_bin E fuel symbol aon_base_va low high =
     (if high < low then return (Some (-1))
      else if low + high \<ge> 2 ^ 31 then raise_fault (Some (-1))
      else let mid = (low + high) sdiv 2 in do {
        (_, str_rva) \<leftarrow> vmi_read_X_kva E (aon_base_va + of_int mid * 4) (ucast (junk E) :: u32);
        if str_rva = 0 then return (Some (-1))
        else obind (rva_to_string E fuel (ucast str_rva)) (\<lambda>name.
          let cmp = strcmp symbol name in
          if cmp < 0 then find_aon_idx_bin E fuel symbol aon_base_va low (mid - 1)
          else if 0 < cmp then find_aon_idx_bin E fuel symbol aon_base_va (mid + 1) high
          else return (Some (of_int mid))) })"
  by pat_completeness auto
termination
proof (relation "measure (\<lambda>(E, fuel, symbol, aon, low, high). nat (high - low + 1))", goal_cases)
  case 1
  then show ?case by simp
next
  case (2 E fuel symbol aon low high)
  then show ?case using sdiv_two_between [of low high] by simp
next
  case (3 E fuel symbol aon low high)
  then show ?case using sdiv_two_between [of low high] by simp
qed

declare find_aon_idx_bin.simps [simp del]

text \<open>\<open>name_ct\<close> is the count as an \<open>int\<close>; \<open>name_ct - 1\<close> overflows if it is the least one.\<close>

definition get_aon_index_binary :: "env \<Rightarrow> nat \<Rightarrow> u8 list \<Rightarrow> export_table \<Rightarrow> cint option vm" where
  "get_aon_index_binary E fuel symbol et = do {
     w \<leftarrow> gets windows_os;
     let aon_base_addr = ntoskrnl_va w + ucast (address_of_names et);
     let name_ct = sint (number_of_names et);
     (if name_ct = - (2 ^ 31) then raise_fault (Some (-1))
      else find_aon_idx_bin E fuel symbol aon_base_addr 0 (name_ct - 1)) }"

definition get_aon_index :: "env \<Rightarrow> nat \<Rightarrow> u8 list \<Rightarrow> export_table \<Rightarrow> cint option vm" where
  "get_aon_index E fuel symbol et = obind (get_aon_index_binary E fuel symbol et) (\<lambda>index.
     if index = -1 then get_aon_index_linear E fuel symbol et else return (Some index))"

subsection \<open>The headers\<close>

text \<open>\<open>None\<close> is a read outside the buffer.\<close>

definition validate_pe_image :: "u8 list \<Rightarrow> u64 \<Rightarrow> status_t option" where
  "validate_pe_image img len = (let fixed_header_sz =
       of_nat (layout_size optional_header_pe32plus + layout_size pe_header) :: u64 in
     case member_at dos_header ''signature'' img 0 of None \<Rightarrow> None
     | Some dos_signature \<Rightarrow>
       if dos_signature \<noteq> IMAGE_DOS_HEADER then Some VMI_FAILURE
       else (case member_at dos_header ''offset_to_pe'' img 0 of None \<Rightarrow> None
         | Some (ofs_to_pe :: u32) \<Rightarrow>
           if len - fixed_header_sz < ucast ofs_to_pe then Some VMI_FAILURE
           else (case member_at pe_header ''signature'' img (unat ofs_to_pe) of None \<Rightarrow> None
             | Some pe_signature \<Rightarrow>
               if pe_signature \<noteq> IMAGE_NT_SIGNATURE then Some VMI_FAILURE
               else (case member_at optional_header_pe32 ''magic'' img (unat ofs_to_pe + layout_size pe_header) of
                   None \<Rightarrow> None
                 | Some magic \<Rightarrow>
                   if magic \<noteq> IMAGE_PE32_MAGIC \<and> magic \<noteq> IMAGE_PE32_PLUS_MAGIC
                   then Some VMI_FAILURE else Some VMI_SUCCESS))))"

text \<open>Where the export directory is, from the headers of an image that has been validated.\<close>

definition export_header_rva :: "u8 list \<Rightarrow> u32 option" where
  "export_header_rva img = (case member_at dos_header ''offset_to_pe'' img 0 of None \<Rightarrow> None
     | Some (ofs_to_pe :: u32) \<Rightarrow>
       let optional = unat ofs_to_pe + layout_size pe_header in
       (case member_at optional_header_pe32 ''magic'' img optional of None \<Rightarrow> None
        | Some magic \<Rightarrow>
          let oh = (if magic = IMAGE_PE32_MAGIC then optional_header_pe32 else optional_header_pe32plus) in
          (case offset_of oh ''idd'' of None \<Rightarrow> None
           | Some idd \<Rightarrow> member_at image_data_directory ''virtual_address'' img (optional + idd))))"

definition get_export_table :: "env \<Rightarrow> (status_t \<times> export_table option) vm" where
  "get_export_table E = do {
     w \<leftarrow> gets windows_os;
     let base_vaddr = ntoskrnl_va w;
     img \<leftarrow> vmi_read_kva E base_vaddr MAX_HEADER_BYTES;
     if length img \<noteq> unat MAX_HEADER_BYTES then return (VMI_FAILURE, None)
     else case validate_pe_image img MAX_HEADER_BYTES of
       None \<Rightarrow> raise_fault (VMI_FAILURE, None)
     | Some VMI_FAILURE \<Rightarrow> return (VMI_FAILURE, None)
     | Some VMI_SUCCESS \<Rightarrow> (case export_header_rva img of
         None \<Rightarrow> raise_fault (VMI_FAILURE, None)
       | Some rva \<Rightarrow> do {
         bs \<leftarrow> vmi_read_kva E (base_vaddr + ucast rva) (of_nat (layout_size export_table_layout));
         if length bs \<noteq> layout_size export_table_layout then return (VMI_FAILURE, None)
         else let et = export_table_of bs in
           if export_flags et \<noteq> 0 \<or> et_name et = 0 then return (VMI_FAILURE, Some et)
           else return (VMI_SUCCESS, Some et) }) }"

definition windows_export_to_rva :: "env \<Rightarrow> nat \<Rightarrow> u8 list \<Rightarrow> addr_t \<Rightarrow> (status_t \<times> addr_t) option vm" where
  "windows_export_to_rva E fuel symbol rva = do {
     r \<leftarrow> get_export_table E;
     (case r of (VMI_SUCCESS, Some et) \<Rightarrow>
       obind (get_aon_index E fuel symbol et) (\<lambda>aon_index.
         if aon_index = -1 then return (Some (VMI_FAILURE, rva))
         else do {
           aof_index \<leftarrow> get_aof_index E aon_index et;
           if aof_index = -1 then return (Some (VMI_FAILURE, rva))
           else do { r \<leftarrow> get_export_rva E aof_index et; return (Some r) } })
     | _ \<Rightarrow> return (Some (VMI_FAILURE, rva))) }"

subsection \<open>Reading the headers stays in the buffer\<close>

lemma pe_layouts [simp]:
  "layout_size pe_header = 24" "layout_size dos_header = 64" "layout_size optional_header_pe32 = 224"
  "layout_size optional_header_pe32plus = 240" "layout_size export_table_layout = 40"
  "offset_of optional_header_pe32 ''idd'' = Some 96" "offset_of optional_header_pe32plus ''idd'' = Some 112"
  "member dos_header ''signature'' = Some (0, 2)" "member dos_header ''offset_to_pe'' = Some (60, 4)"
  "member pe_header ''signature'' = Some (0, 4)" "member optional_header_pe32 ''magic'' = Some (0, 2)"
  "member image_data_directory ''virtual_address'' = Some (0, 4)"
  by (simp_all add: layout_size_def pe_header_def dos_header_def optional_header_pe32_def
      optional_header_pe32plus_def export_table_layout_def image_data_directory_def offset_of_def)

lemma offset_limit:
  assumes "264 \<le> n" "n < 2 ^ 63"
  shows "of_nat n - (264 :: u64) < ucast (ofs :: u32) \<longleftrightarrow> n < unat ofs + 264"
proof -
  have "unat (of_nat n - (264 :: u64)) = n - 264"
    using assms by (subst unat_sub) (simp_all add: word_le_nat_alt unsigned_of_nat take_bit_eq_mod)
  moreover have "unat (ucast ofs :: u64) = unat ofs"
    using unat_lt_u32 [of ofs] by (simp add: unsigned_ucast_eq take_bit_eq_mod)
  ultimately show ?thesis using assms(1) by (auto simp: word_less_nat_alt)
qed

lemma offset_fits:
  "\<not> of_nat n - (264 :: u64) < ucast (ofs :: u32) \<Longrightarrow> 264 \<le> n \<Longrightarrow> n < 2 ^ 63 \<Longrightarrow> unat ofs + 264 \<le> n"
  by (simp add: offset_limit)

text \<open>The images that the code means to accept, with room for the larger of the two optional headers.\<close>

definition pe_headers_ok :: "u8 list \<Rightarrow> bool" where
  "pe_headers_ok img \<longleftrightarrow> member_at dos_header ''signature'' img 0 = Some IMAGE_DOS_HEADER
     \<and> (case member_at dos_header ''offset_to_pe'' img 0 of None \<Rightarrow> False
        | Some (ofs :: u32) \<Rightarrow>
            unat ofs + layout_size pe_header + layout_size optional_header_pe32 \<le> length img
          \<and> unat ofs + layout_size pe_header + layout_size optional_header_pe32plus \<le> length img
          \<and> member_at pe_header ''signature'' img (unat ofs) = Some IMAGE_NT_SIGNATURE
          \<and> member_at optional_header_pe32 ''magic'' img (unat ofs + layout_size pe_header)
             \<in> {Some IMAGE_PE32_MAGIC, Some IMAGE_PE32_PLUS_MAGIC})"

lemma validate_headers_ok:
  assumes "264 \<le> length img" "length img < 2 ^ 63"
  shows "validate_pe_image img (of_nat (length img)) = Some VMI_SUCCESS \<longleftrightarrow> pe_headers_ok img"
proof (cases "member_at dos_header ''offset_to_pe'' img 0 :: u32 option")
  case None
  then show ?thesis by (auto simp: validate_pe_image_def pe_headers_ok_def split: option.splits)
next
  case (Some ofs)
  then show ?thesis
    using offset_limit [OF assms, of ofs]
    by (auto simp: validate_pe_image_def pe_headers_ok_def Let_def split: option.splits if_splits)
qed

lemma validate_in_bounds:
  assumes "264 \<le> length img" "length img < 2 ^ 63"
  shows "validate_pe_image img (of_nat (length img)) \<noteq> None
    \<and> (validate_pe_image img (of_nat (length img)) = Some VMI_SUCCESS \<longrightarrow> export_header_rva img \<noteq> None)"
proof (cases "member_at dos_header ''offset_to_pe'' img 0 :: u32 option")
  case None
  then show ?thesis using assms(1) by (simp add: member_at_def bytes_at_def)
next
  case (Some ofs)
  show ?thesis
  proof (cases "of_nat (length img) - (264 :: u64) < ucast ofs")
    case True
    then show ?thesis
      using assms(1) Some by (auto simp: validate_pe_image_def member_at_def bytes_at_def)
  next
    case False
    note fits = offset_fits [OF False assms]
    then show ?thesis
      using assms(1) Some False
      by (auto simp: validate_pe_image_def export_header_rva_def member_at_def bytes_at_def Let_def)
  qed
qed

subsection \<open>The table of names\<close>

definition string_at :: "env \<Rightarrow> vmi \<Rightarrow> addr_t \<Rightarrow> u8 list \<Rightarrow> bool" where
  "string_at E s va str \<longleftrightarrow> ends_at (\<lambda>i. virt_byte E s (kpgd s) (va + of_nat i)) (length str)
     \<and> virt_bytes E s (kpgd s) va (length str) = str"

definition names_at :: "env \<Rightarrow> addr_t \<Rightarrow> u8 list list \<Rightarrow> vmi \<Rightarrow> bool" where
  "names_at E aon tab s \<longleftrightarrow> (\<forall>i < length tab. \<exists>r. r \<noteq> 0
     \<and> (\<forall>old. virt_word E s (kpgd s) (aon + of_nat i * 4) (old :: u32) = (VMI_SUCCESS, r))
     \<and> string_at E s (ntoskrnl_va (windows_os s) + ucast r) (tab ! i))"

lemma names_at_core [simp]: "names_at E aon tab (core s) = names_at E aon tab s"
  by (simp add: names_at_def string_at_def)

lemma names_at_cong: "core t = core s \<Longrightarrow> names_at E aon tab s \<Longrightarrow> names_at E aon tab t"
  using names_at_core [of E aon tab t] names_at_core [of E aon tab s] by simp

lemma run_rva_to_string:
  assumes "view E D c s" "string_at E s (ntoskrnl_va (windows_os s) + rva) str" "length str + 1 < fuel"
  shows "\<exists>t. run_state (rva_to_string E fuel rva) s = (Some str, t) \<and> view E D c t \<and> core t = core s"
  using kern.read_str_va_finds [OF assms(1), of "ntoskrnl_va (windows_os s) + rva" "length str" fuel] assms(2,3)
  by (simp add: rva_to_string_def string_at_def)

lemma run_name:
  assumes "view E D c s" "names_at E aon tab s" "i < length tab" "length (tab ! i) + 1 < fuel"
  shows "\<exists>t. run_state (do { (_, r) \<leftarrow> vmi_read_X_kva E (aon + of_nat i * 4) (old :: u32);
      if r = 0 then m else obind (rva_to_string E fuel (ucast r)) k }) s = run_state (k (tab ! i)) t
    \<and> view E D c t \<and> core t = core s"
proof -
  obtain r where r: "r \<noteq> 0" "virt_word E s (kpgd s) (aon + of_nat i * 4) old = (VMI_SUCCESS, r)"
      "string_at E s (ntoskrnl_va (windows_os s) + ucast r) (tab ! i)"
    using assms(2,3) by (auto simp: names_at_def)
  define t where "t = snd (run_state (vmi_read_X_kva E (aon + of_nat i * 4) old) s)"
  have t: "run_state (vmi_read_X_kva E (aon + of_nat i * 4) old) s = ((VMI_SUCCESS, r), t)"
      "view E D c t" "core t = core s"
    using reads_run [OF kern.reads_read_width_va(3) assms(1) surjective_pairing, of "aon + of_nat i * 4" old] r(2)
    by (simp_all add: t_def prod_eq_iff)
  have "string_at E t (ntoskrnl_va (windows_os t) + ucast r) (tab ! i)"
    using r(3) core_fields [of t] core_fields [of s] virt_core(1,2) [of E t] virt_core(1,2) [of E s] t(3)
    by (simp add: string_at_def)
  then obtain u where "run_state (rva_to_string E fuel (ucast r)) t = (Some (tab ! i), u)"
      "view E D c u" "core u = core t"
    using run_rva_to_string [OF t(2) _ assms(4)] by blast
  then show ?thesis using t(1,3) r(1) by (intro exI [of _ u]) (simp add: run_obind)
qed

primrec find_index :: "('a \<Rightarrow> bool) \<Rightarrow> 'a list \<Rightarrow> nat option" where
  "find_index P [] = None"
| "find_index P (x # xs) = (if P x then Some 0 else map_option Suc (find_index P xs))"

definition index_result :: "nat option \<Rightarrow> cint" where
  "index_result r = (case r of None \<Rightarrow> -1 | Some i \<Rightarrow> of_nat i)"

lemma find_index_Some: "find_index P xs = Some i \<Longrightarrow> i < length xs \<and> P (xs ! i)"
  by (induction xs arbitrary: i) (auto split: if_splits)

lemma find_index_None: "find_index P xs = None \<longleftrightarrow> (\<forall>x \<in> set xs. \<not> P x)"
  by (induction xs) auto

lemma find_index_eq: "distinct xs \<Longrightarrow> i < length xs \<Longrightarrow> find_index (\<lambda>y. y = xs ! i) xs = Some i"
proof (induction xs arbitrary: i)
  case (Cons x xs)
  then show ?case by (cases i) auto
qed simp


definition names_sorted :: "u8 list list \<Rightarrow> bool" where
  "names_sorted tab \<longleftrightarrow> sorted_wrt (\<lambda>a b. strcmp a b < 0) tab"

lemma sorted_pos:
  assumes "names_sorted tab" "i < length tab" "j < length tab" "strcmp (tab ! i) (tab ! j) < 0"
  shows "i < j"
proof (rule ccontr)
  assume "\<not> i < j"
  then consider "i = j" | "j < i" by linarith
  then have "i = j \<or> strcmp (tab ! j) (tab ! i) < 0"
    using assms(1,2) by cases (simp_all add: names_sorted_def sorted_wrt_iff_nth_less)
  then show False
    using assms(4) strcmp_swap [of "tab ! i" "tab ! j"] strcmp_eq [of "tab ! i" "tab ! j"] by auto
qed

lemma names_sorted_distinct: "names_sorted tab \<Longrightarrow> distinct tab"
  by (rule distinct_conv_nth [THEN iffD2])
    (metis linorder_neqE_nat names_sorted_def order_less_irrefl sorted_wrt_iff_nth_less strcmp_eq)

lemma bin_finds:
  assumes "view E D c s" "names_at E aon tab s" "names_sorted tab" "length tab \<le> 2 ^ 30"
    and "\<forall>n \<in> set tab. length n + 1 < fuel" and "0 \<le> low" "high < int (length tab)"
    and "\<And>i. i < length tab \<Longrightarrow> tab ! i = symbol \<Longrightarrow> low \<le> int i \<and> int i \<le> high"
  shows "\<exists>t. run_state (find_aon_idx_bin E fuel symbol aon low high) s
      = (Some (index_result (find_index (\<lambda>n. n = symbol) tab)), t) \<and> view E D c t \<and> core t = core s"
  using assms
proof (induction E fuel symbol aon low high arbitrary: s rule: find_aon_idx_bin.induct)
  case (1 E fuel symbol aon low high)
  show ?case
  proof (cases "high < low")
    case True
    then have "find_index (\<lambda>n. n = symbol) tab = None"
      using "1.prems"(8) by (force simp: find_index_None in_set_conv_nth)
    then show ?thesis using True "1.prems"(1) by (simp add: find_aon_idx_bin.simps [of E] index_result_def)
  next
    case False
    define mid where "mid = (low + high) sdiv 2"
    have mid: "low \<le> mid" "mid \<le> high" using sdiv_two_between [of low high] False by (simp_all add: mid_def)
    define m where "m = nat mid"
    have m: "m < length tab" "mid = int m" using mid "1.prems"(6,7) by (auto simp: m_def)
    have small: "\<not> 2 ^ 31 \<le> low + high" using "1.prems"(4,7) False by simp
    have fuel: "length (tab ! m) + 1 < fuel" using "1.prems"(5) m(1) by simp
    define k where "k = (\<lambda>name. let cmp = strcmp symbol name in
       if cmp < 0 then find_aon_idx_bin E fuel symbol aon low (mid - 1)
       else if 0 < cmp then find_aon_idx_bin E fuel symbol aon (mid + 1) high
       else return (Some (of_int mid :: cint)))"
    have ma: "(of_int mid :: addr_t) = of_nat m" by (simp add: m(2))
    have eq: "find_aon_idx_bin E fuel symbol aon low high = do {
        (_, r) \<leftarrow> vmi_read_X_kva E (aon + of_nat m * 4) (ucast (junk E) :: u32);
        if r = 0 then return (Some (-1)) else obind (rva_to_string E fuel (ucast r)) k }"
      unfolding find_aon_idx_bin.simps [of E fuel symbol aon low high] k_def
      using False small by (simp add: Let_def mid_def [symmetric] ma)
    obtain t where t: "run_state (find_aon_idx_bin E fuel symbol aon low high) s = run_state (k (tab ! m)) t"
        "view E D c t" "core t = core s"
      unfolding eq using run_name [OF "1.prems"(1,2) m(1) fuel, of "ucast (junk E)" "return (Some (-1))" k] by blast
    note nt = names_at_cong [OF t(3) "1.prems"(2)]
    consider "strcmp symbol (tab ! m) < 0" | "0 < strcmp symbol (tab ! m)" | "symbol = tab ! m"
      using strcmp_eq [of symbol "tab ! m"] by linarith
    then show ?thesis
    proof cases
      case 1
      have "low \<le> int i \<and> int i \<le> mid - 1" if "i < length tab" "tab ! i = symbol" for i
        using "1.prems"(8) [OF that] sorted_pos [OF "1.prems"(3) that(1) m(1)] 1 that(2) m(2) by auto
      then obtain u where "run_state (find_aon_idx_bin E fuel symbol aon low (mid - 1)) t
          = (Some (index_result (find_index (\<lambda>n. n = symbol) tab)), u)" "view E D c u" "core u = core t"
        using "1.IH"(1) [OF False small mid_def one_neq_zero refl 1 t(2) nt "1.prems"(3-6)] mid "1.prems"(7) by force
      then show ?thesis using t(1,3) 1 by (simp add: k_def)
    next
      case 2
      have "strcmp (tab ! m) symbol < 0" using 2 strcmp_swap [of "tab ! m" symbol] by simp
      then have "mid + 1 \<le> int i \<and> int i \<le> high" if "i < length tab" "tab ! i = symbol" for i
        using "1.prems"(8) [OF that] sorted_pos [OF "1.prems"(3) m(1) that(1)] that(2) m(2) by auto
      then obtain u where "run_state (find_aon_idx_bin E fuel symbol aon (mid + 1) high) t
          = (Some (index_result (find_index (\<lambda>n. n = symbol) tab)), u)" "view E D c u" "core u = core t"
        using "1.IH"(2) [OF False small mid_def one_neq_zero refl _ 2 t(2) nt "1.prems"(3-5)] mid "1.prems"(6,7) 2 by force
      then show ?thesis using t(1,3) 2 by (simp add: k_def)
    next
      case 3
      then have "find_index (\<lambda>n. n = symbol) tab = Some m"
        using find_index_eq [OF names_sorted_distinct [OF "1.prems"(3)] m(1)] by simp
      then show ?thesis using t 3 strcmp_eq [of symbol symbol] by (simp add: k_def index_result_def m(2))
    qed
  qed
qed

definition is_prefix_of :: "u8 list \<Rightarrow> u8 list \<Rightarrow> bool" where
  "is_prefix_of symbol n \<longleftrightarrow> take (length n) n = take (length n) symbol"

lemma ucast_small: "i < 2 ^ 32 \<Longrightarrow> (ucast (of_nat i :: u32) :: u64) = of_nat i"
  by (rule word_unat_eq_iff [THEN iffD2]) (simp add: unsigned_ucast_eq unsigned_of_nat take_bit_eq_mod)

lemma linear_finds:
  assumes "view E D c s" "names_at E aon tab s" "\<forall>n \<in> set tab. length n + 1 < fuel" "length tab < 2 ^ 32"
    and "i + k = length tab"
  shows "\<exists>t. run_state (linear_loop E fuel symbol aon k (of_nat i)) s =
      (Some (index_result (map_option ((+) i) (find_index (is_prefix_of symbol) (drop i tab)))), t)
    \<and> view E D c t \<and> core t = core s"
  using assms
proof (induction k arbitrary: s i)
  case 0
  then show ?case by (simp add: index_result_def)
next
  case (Suc k)
  then have i: "i < length tab" by simp
  then have d: "drop i tab = tab ! i # drop (Suc i) tab" by (simp add: Cons_nth_drop_Suc)
  have fuel: "length (tab ! i) + 1 < fuel" using Suc.prems(3) i by simp
  have u: "(ucast (of_nat i :: u32) :: addr_t) = of_nat i" using ucast_small [of i] i Suc.prems(4) by simp
  define f where "f = (\<lambda>rva. if take (length rva) rva = take (length rva) symbol then return (Some (of_nat i :: cint))
       else linear_loop E fuel symbol aon k (of_nat i + 1))"
  obtain t where t: "run_state (linear_loop E fuel symbol aon (Suc k) (of_nat i)) s = run_state (f (tab ! i)) t"
      "view E D c t" "core t = core s"
    using run_name [OF Suc.prems(1,2) i fuel, of 0 "linear_loop E fuel symbol aon k (of_nat i + 1)" f]
    unfolding linear_loop.simps u f_def by blast
  show ?case
  proof (cases "is_prefix_of symbol (tab ! i)")
    case True
    then show ?thesis using t by (simp add: f_def is_prefix_of_def d index_result_def)
  next
    case False
    have one: "(of_nat i :: u32) + 1 = of_nat (Suc i)" by simp
    have e: "Suc i + k = length tab" using Suc.prems(5) by simp
    obtain u where "run_state (linear_loop E fuel symbol aon k (of_nat (Suc i))) t =
        (Some (index_result (map_option ((+) (Suc i)) (find_index (is_prefix_of symbol) (drop (Suc i) tab)))), u)"
        "view E D c u" "core u = core t"
      using Suc.IH [OF t(2) names_at_cong [OF t(3) Suc.prems(2)] Suc.prems(3,4) e] by blast
    moreover have "map_option ((+) (Suc i)) r = map_option ((+) i) (map_option Suc r)" for r
      by (cases r) simp_all
    moreover have "run_state (f (tab ! i)) t = run_state (linear_loop E fuel symbol aon k (of_nat (Suc i))) t"
      using False by (simp add: f_def is_prefix_of_def add.commute)
    ultimately show ?thesis using t(1,3) False by (simp add: d)
  qed
qed

lemma not_minus_one: "i < 2 ^ 30 \<Longrightarrow> (of_nat i :: cint) \<noteq> - 1"
proof
  assume i: "i < 2 ^ 30" "(of_nat i :: cint) = - 1"
  from i(2) have "(of_nat (Suc i) :: cint) = 0" by simp
  then have "2 ^ 32 dvd Suc i" by (simp only: word_of_nat_eq_0_iff) simp
  then have "2 ^ 32 \<le> Suc i" by (rule dvd_imp_le) simp
  then show False using i(1) by simp
qed

lemma run_aon_index:
  assumes "view E D c s" "names_at E (ntoskrnl_va (windows_os s) + ucast (address_of_names et)) tab s"
    and "unat (number_of_names et) = length tab" "length tab \<le> 2 ^ 30" "names_sorted tab"
    and "\<forall>n \<in> set tab. length n + 1 < fuel"
  shows "\<exists>t. run_state (get_aon_index E fuel symbol et) s =
      (Some (index_result (case find_index (\<lambda>n. n = symbol) tab of
         None \<Rightarrow> find_index (is_prefix_of symbol) tab | Some i \<Rightarrow> Some i)), t)
    \<and> view E D c t \<and> core t = core s"
proof -
  let ?aon = "ntoskrnl_va (windows_os s) + ucast (address_of_names et)"
  have n: "sint (number_of_names et) = int (length tab)"
  proof -
    have "uint (number_of_names et) = int (length tab)" by (metis assms(3) of_nat_unat)
    then show ?thesis using assms(4) signed_take_bit_int_eq_self [of 31 "int (length tab)"] by (simp add: sint_uint)
  qed
  obtain t where t: "run_state (get_aon_index_binary E fuel symbol et) s
      = (Some (index_result (find_index (\<lambda>n. n = symbol) tab)), t)" "view E D c t" "core t = core s"
    using bin_finds [OF assms(1,2,5,4,6), of 0 "int (length tab) - 1" symbol]
    by (auto simp: get_aon_index_binary_def n)
  show ?thesis
  proof (cases "find_index (\<lambda>n. n = symbol) tab")
    case (Some i)
    then have "i < 2 ^ 30" using find_index_Some [OF Some] assms(4) by linarith
    note not_minus_one [OF this]
    with t Some show ?thesis by (simp add: get_aon_index_def run_obind index_result_def)
  next
    case None
    note w = core_eqD(11) [OF t(3)]
    have id: "map_option ((+) (0 :: nat)) r = r" for r by (cases r) simp_all
    obtain u where "run_state (linear_loop E fuel symbol ?aon (length tab) 0) t =
        (Some (index_result (find_index (is_prefix_of symbol) tab)), u)" "view E D c u" "core u = core t"
      using linear_finds [OF t(2) names_at_cong [OF t(3) assms(2)] assms(6), of 0 "length tab" symbol] assms(4)
      by (auto simp: id)
    then show ?thesis using t None w
      by (simp add: get_aon_index_def run_obind index_result_def get_aon_index_linear_def assms(3))
  qed
qed


subsection \<open>The lookup of a symbol\<close>

text \<open>The export table that the headers lead to.\<close>

definition export_table_read :: "env \<Rightarrow> vmi \<Rightarrow> status_t \<times> export_table option" where
  "export_table_read E s = (let base = ntoskrnl_va (windows_os s); img = virt_bytes E s (kpgd s) base 1024 in
     if length img \<noteq> 1024 then (VMI_FAILURE, None)
     else case (validate_pe_image img 1024, export_header_rva img) of
       (Some VMI_SUCCESS, Some rva) \<Rightarrow>
         (let bs = virt_bytes E s (kpgd s) (base + ucast rva) 40 in
          if length bs \<noteq> 40 then (VMI_FAILURE, None)
          else let et = export_table_of bs in
            (if export_flags et \<noteq> 0 \<or> et_name et = 0 then VMI_FAILURE else VMI_SUCCESS, Some et))
     | _ \<Rightarrow> (VMI_FAILURE, None))"

lemma run_read_kva:
  assumes "view E D c s" "unat count < 2 ^ 63"
  obtains t where "run_state (vmi_read_kva E va count) s = (virt_bytes E s (kpgd s) va (unat count), t)"
    "view E D c t" "core t = core s"
  using reads_run [OF kern.reads_read_va [OF assms(2)] assms(1) surjective_pairing, of va] that
  by (simp add: prod_eq_iff)

lemma run_read_kva32:
  assumes "view E D c s"
  obtains t where "run_state (vmi_read_X_kva E va (v :: u32)) s = (virt_word E s (kpgd s) va v, t)"
    "view E D c t" "core t = core s"
  using reads_run [OF kern.reads_read_width_va(3) assms(1) surjective_pairing, of va v] that
  by (simp add: prod_eq_iff)

lemma virt_cong:
  assumes "core t = core s"
  shows "virt_word E t d va v = virt_word E s d va v" "virt_bytes E t = virt_bytes E s"
  by (metis assms virt_core(3), metis assms virt_core(2))

lemma run_get_export_table:
  assumes "view E D c s"
  obtains t where "run_state (get_export_table E) s = (export_table_read E s, t)" "view E D c t" "core t = core s"
proof -
  let ?base = "ntoskrnl_va (windows_os s)"
  define img where "img = virt_bytes E s (kpgd s) ?base 1024"
  obtain t where t: "run_state (vmi_read_kva E ?base MAX_HEADER_BYTES) s = (img, t)" "view E D c t" "core t = core s"
    by (rule run_read_kva [OF assms, of MAX_HEADER_BYTES ?base]) (simp_all add: img_def MAX_HEADER_BYTES_def)
  show ?thesis
  proof (cases "length img = 1024 \<and> validate_pe_image img 1024 = Some VMI_SUCCESS")
    case True
    then obtain rva where rva: "export_header_rva img = Some rva"
      using validate_in_bounds [of img] by auto
    obtain u where u: "run_state (vmi_read_kva E (?base + ucast rva) 40) t
        = (virt_bytes E s (kpgd s) (?base + ucast rva) 40, u)" "view E D c u" "core u = core t"
      by (rule run_read_kva [OF t(2), of 40 "?base + ucast rva"])
        (simp_all add: virt_cong(2) [OF t(3)] core_eqD(3) [OF t(3)])
    have "run_state (get_export_table E) s = (export_table_read E s, u)"
      using t(1) u(1) True rva
      by (simp add: get_export_table_def export_table_read_def Let_def img_def [symmetric] MAX_HEADER_BYTES_def)
    then show ?thesis using that u t by simp
  next
    case False
    have "validate_pe_image img 1024 \<noteq> None" if "length img = 1024"
      using validate_in_bounds [of img] that by simp
    then have "run_state (get_export_table E) s = (export_table_read E s, t)"
      using t(1) False
      by (auto simp: get_export_table_def export_table_read_def Let_def img_def [symmetric] MAX_HEADER_BYTES_def
          split: option.splits status_t.splits)
    then show ?thesis using that t by simp
  qed
qed

lemma low_half:
  fixes x :: u32
  shows "(scast (x AND 0xffff) :: u64) = ucast (x AND 0xffff)" "x AND 0xffff \<noteq> - 1"
proof -
  have m: "(0xffff :: u32) = mask 16" by (simp add: mask_eq_exp_minus_1)
  then have h: "\<not> bit (x AND 0xffff) 31" by (simp add: bit_simps)
  have "bit (- 1 :: u32) 31" by simp
  with h show "x AND 0xffff \<noteq> - 1" by metis
  show "(scast (x AND 0xffff) :: u64) = ucast (x AND 0xffff)"
    by (rule bit_word_eqI) (use h in \<open>auto simp: bit_simps m\<close>)
qed

lemma run_function_rva:
  assumes "view E D c s" and "i < 2 ^ 30"
  shows "fst (run_state (get_aof_index E (of_nat i) et \<bind> (\<lambda>a. if a = - 1 then return (Some (VMI_FAILURE, rva))
      else get_export_rva E a et \<bind> (\<lambda>r. return (Some r)))) s)
    = (case virt_word E s (kpgd s) (ntoskrnl_va (windows_os s) + ucast (address_of_name_ordinals et) + of_nat i * 2) (0 :: u32) of
        (VMI_SUCCESS, x) \<Rightarrow> Some (map_prod id ucast (virt_word E s (kpgd s)
          (ntoskrnl_va (windows_os s) + ucast (address_of_functions et) + ucast (x AND 0xffff) * 4) (0 :: u32)))
      | (VMI_FAILURE, _) \<Rightarrow> Some (VMI_FAILURE, rva))"
proof -
  have si: "(scast (of_nat i :: cint) :: u64) = of_nat i"
  proof -
    have "sint (of_nat i :: cint) = int i"
      using assms(2) signed_take_bit_int_eq_self [of 31 "int i"]
      by (simp add: sint_uint unsigned_of_nat take_bit_nat_eq_self)
    then show ?thesis by (simp add: scast_eq)
  qed
  let ?base = "ntoskrnl_va (windows_os s)"
  obtain r x where o: "virt_word E s (kpgd s) (?base + ucast (address_of_name_ordinals et) + of_nat i * 2) (0 :: u32) = (r, x)"
    by fastforce
  obtain t where t: "run_state (vmi_read_X_kva E (?base + ucast (address_of_name_ordinals et) + of_nat i * 2) (0 :: u32)) s
      = ((r, x), t)" "view E D c t" "core t = core s"
    by (rule run_read_kva32 [OF assms(1), of "?base + ucast (address_of_name_ordinals et) + of_nat i * 2" 0])
      (simp add: o)
  obtain u where u: "run_state (vmi_read_X_kva E (?base + ucast (address_of_functions et) + ucast (x AND 0xffff) * 4) (0 :: u32)) t
      = (virt_word E s (kpgd s) (?base + ucast (address_of_functions et) + ucast (x AND 0xffff) * 4) 0, u)"
    by (rule run_read_kva32 [OF t(2), of "?base + ucast (address_of_functions et) + ucast (x AND 0xffff) * 4" 0])
      (simp add: virt_cong(1) [OF t(3)] core_eqD(3) [OF t(3)])
  show ?thesis
    using t(1) u low_half(2) [of x] core_eqD(11) [OF t(3)] o
    by (cases r) (simp_all add: get_aof_index_def get_export_rva_def si low_half(1) Let_def case_prod_beta map_prod_def)
qed

lemma run_windows_export:
  assumes "view E D c s" "export_table_read E s = (VMI_SUCCESS, Some et)"
    and "names_at E (ntoskrnl_va (windows_os s) + ucast (address_of_names et)) tab s"
    and "unat (number_of_names et) = length tab" "length tab \<le> 2 ^ 30" "names_sorted tab"
    and "\<forall>n \<in> set tab. length n + 1 < fuel" and "i < length tab"
  shows "fst (run_state (windows_export_to_rva E fuel (tab ! i) rva) s)
    = (case virt_word E s (kpgd s) (ntoskrnl_va (windows_os s) + ucast (address_of_name_ordinals et) + of_nat i * 2) (0 :: u32) of
        (VMI_SUCCESS, x) \<Rightarrow> Some (map_prod id ucast (virt_word E s (kpgd s)
          (ntoskrnl_va (windows_os s) + ucast (address_of_functions et) + ucast (x AND 0xffff) * 4) (0 :: u32)))
      | (VMI_FAILURE, _) \<Rightarrow> Some (VMI_FAILURE, rva))"
proof -
  obtain t where t: "run_state (get_export_table E) s = ((VMI_SUCCESS, Some et), t)" "view E D c t" "core t = core s"
    by (rule run_get_export_table [OF assms(1)]) (simp add: assms(2))
  note w = core_eqD(11) [OF t(3)]
  note names = names_at_cong [OF t(3) assms(3)]
  obtain u where u: "run_state (get_aon_index E fuel (tab ! i) et) t = (Some (of_nat i), u)" "view E D c u"
      "core u = core t"
    using run_aon_index [OF t(2) names [folded w] assms(4-7), of "tab ! i"]
      find_index_eq [OF names_sorted_distinct [OF assms(6)] assms(8)]
    by (auto simp: index_result_def)
  have i: "i < 2 ^ 30" using assms(5,8) by simp
  have cs: "core u = core s" using u(3) t(3) by simp
  from run_function_rva [OF u(2) i, of et rva, unfolded virt_cong(1) [OF cs] core_eqD(3,11) [OF cs]] t(1) u(1) not_minus_one [OF i]
  show ?thesis by (simp add: windows_export_to_rva_def run_obind)
qed

subsection \<open>Properties\<close>

text \<open>C40: The headers of a buffer of at least 264 bytes are validated without a read outside of it, and the image is
  accepted if and only if the two signatures and one of the two magic numbers are where they should be and, behind the
  offset that the DOS header gives, the buffer has room for the PE header and either kind of optional header. In an
  accepted image the address of the export directory is also read within the buffer.\<close>

theorem validate_pe_image_bounds:
  assumes "264 \<le> length img" and "length img < 2 ^ 63"
  shows "validate_pe_image img (of_nat (length img)) \<noteq> None
    \<and> (validate_pe_image img (of_nat (length img)) = Some VMI_SUCCESS \<longleftrightarrow> pe_headers_ok img)
    \<and> (pe_headers_ok img \<longrightarrow> export_header_rva img \<noteq> None)"
  using validate_in_bounds [OF assms] validate_headers_ok [OF assms] by blast

definition sample_image :: "u8 list" where
  "sample_image = [0x4D, 0x5A] @ replicate 58 0 @ [64, 0, 0, 0] @ [0x50, 0x45, 0, 0] @ replicate 20 0
     @ [0x0B, 1] @ replicate 238 0"

lemma validate_pe_image_bounds_witness:
  "validate_pe_image sample_image 328 = Some VMI_SUCCESS \<and> pe_headers_ok sample_image \<and> export_header_rva sample_image \<noteq> None"
proof -
  have "validate_pe_image sample_image 328 = Some VMI_SUCCESS"
    by (simp add: validate_pe_image_def member_at_def bytes_at_def sample_image_def Let_def IMAGE_DOS_HEADER_def
        IMAGE_NT_SIGNATURE_def IMAGE_PE32_MAGIC_def le_word_def)
  then show ?thesis using validate_pe_image_bounds [of sample_image] by (simp add: sample_image_def)
qed

text \<open>C37: In a guest with 32-bit paging (legacy or PAE) whose kernel's page tables map no page at or above 4 GiB, and with a
  translation cache that agrees with them (\<open>view\<close>), the index of an export: if the names are sorted, the binary search with its
  fallback returns the index of the symbol whenever the table has it. If it does not, the linear search answers with
  the first name that is a prefix of the symbol, and -1 only if there is none. IA-32e paging is not covered.\<close>

theorem get_aon_index_lookup:
  assumes "view E D c s" "names_at E (ntoskrnl_va (windows_os s) + ucast (address_of_names et)) tab s"
    and "unat (number_of_names et) = length tab" "length tab \<le> 2 ^ 30" "names_sorted tab"
    and "\<forall>n \<in> set tab. length n + 1 < fuel"
  shows "fst (run_state (get_aon_index E fuel symbol et) s) = Some (case find_index (\<lambda>n. n = symbol) tab of
      Some i \<Rightarrow> of_nat i
    | None \<Rightarrow> index_result (find_index (is_prefix_of symbol) tab))"
proof -
  from run_aon_index [OF assms, of symbol] show ?thesis
    by (cases "find_index (\<lambda>n. n = symbol) tab") (auto simp: index_result_def)
qed

text \<open>A guest with a kernel image that exports two symbols, \<open>A\<close> and \<open>B\<close>.\<close>

definition pe_memory :: "addr_t \<Rightarrow> u8" where
  "pe_memory = (\<lambda>_. 0)(0x400000 := 0x4D, 0x400001 := 0x5A, 0x40003C := 0x40, 0x400040 := 0x50, 0x400041 := 0x45,
     0x400058 := 0x0B, 0x400059 := 1, 0x4000B9 := 0x10,
     0x40100C := 1, 0x401018 := 2, 0x40101D := 0x11, 0x401021 := 0x12, 0x401025 := 0x13,
     0x401104 := 0x78, 0x401105 := 0x56, 0x401201 := 0x14, 0x401204 := 0x10, 0x401205 := 0x14, 0x401302 := 1,
     0x401400 := 65, 0x401410 := 66)"

definition pe_guest :: vmi where
  "pe_guest = flat_guest pe_memory 0 (linux_os zeroed_vmi) ((windows_os zeroed_vmi)\<lparr>ntoskrnl_va := 0x400000\<rparr>)
     VMI_OS_WINDOWS"

definition pe_exports :: export_table where
  "pe_exports = \<lparr>export_flags = 0, et_name = 1, number_of_functions = 0, number_of_names = 2,
     address_of_functions = 0x1100, address_of_names = 0x1200, address_of_name_ordinals = 0x1300\<rparr>"

lemma pe_guest_fields [simp]:
  "kpgd pe_guest = 0x1000" "ntoskrnl_va (windows_os pe_guest) = 0x400000"
  "number_of_names pe_exports = 2" "address_of_names pe_exports = 0x1200"
  "address_of_functions pe_exports = 0x1100" "address_of_name_ordinals pe_exports = 0x1300"
  by (simp_all add: pe_guest_def pe_exports_def)

lemma pe_guest_view: "view xen_env {0x1000} (Map.empty, Map.empty) pe_guest"
  unfolding pe_guest_def by (rule flat_guest_view)

lemma pe_guest_word:
  assumes "0x400000 \<le> unat va" "unat va < 0x7FFFF0"
  shows "virt_word xen_env pe_guest 0x1000 va (v :: u32)
    = (VMI_SUCCESS, le_word [pe_memory va, pe_memory (va + 1), pe_memory (va + 2), pe_memory (va + 3)])"
  using flat_guest_word32 [OF assms, of pe_memory] by (simp add: pe_guest_def)

lemma pe_guest_names: "names_at xen_env 0x401200 [[65], [66]] pe_guest"
proof -
  have b: "virt_byte xen_env pe_guest 0x1000 va = Some (pe_memory va)" if "in_flat va" for va
    using flat_guest_virt(2) [OF that] by (simp add: pe_guest_def)
  have a: "in_flat 0x401400" "in_flat 0x401401" "in_flat 0x401410" "in_flat 0x401411"
    by (simp_all add: in_flat_def)
  have "string_at xen_env pe_guest 0x401400 [65]" "string_at xen_env pe_guest 0x401410 [66]"
    using b [OF a(1)] b [OF a(2)] b [OF a(3)] b [OF a(4)]
    by (simp_all add: string_at_def ends_at_def virt_bytes_def pe_memory_def)
  moreover have "i = 0 \<or> i = 1" if "i < length [[65], [66 :: u8]]" for i using that by auto
  ultimately show ?thesis
    unfolding names_at_def by (fastforce simp: pe_guest_word pe_memory_def le_word_def)
qed

lemma get_aon_index_lookup_witness:
  "fst (run_state (get_aon_index xen_env 3 [66] pe_exports) pe_guest) = Some 1"
  using get_aon_index_lookup [OF pe_guest_view, of pe_exports "[[65], [66]]" 3 "[66]"] pe_guest_names
  by (simp add: names_sorted_def)

text \<open>C36: In a guest with 32-bit paging (legacy or PAE) whose kernel's page tables map no page at or above 4 GiB, and with a
  translation cache that agrees with them (\<open>view\<close>), the address of an exported symbol: if the headers lead to an export
  table with sorted names, \<open>windows_export_to_rva\<close> returns, for the name with index \<open>i\<close>, what the table of functions
  holds at the index in the low half of the 32 bits that can be read at the entry \<open>i\<close> of the table of ordinals. If these 32 bits
  can not be read, also where the entry itself, of 16 bits, could be, it fails and leaves the caller's variable alone.
  IA-32e paging is not covered.\<close>

theorem windows_export_to_rva_exact:
  assumes "view E D c s" "export_table_read E s = (VMI_SUCCESS, Some et)"
    and "names_at E (ntoskrnl_va (windows_os s) + ucast (address_of_names et)) tab s"
    and "unat (number_of_names et) = length tab" "length tab \<le> 2 ^ 30" "names_sorted tab"
    and "\<forall>n \<in> set tab. length n + 1 < fuel" and "i < length tab"
  shows "fst (run_state (windows_export_to_rva E fuel (tab ! i) rva) s)
    = (case virt_word E s (kpgd s) (ntoskrnl_va (windows_os s) + ucast (address_of_name_ordinals et) + of_nat i * 2) (0 :: u32) of
        (VMI_SUCCESS, x) \<Rightarrow> Some (map_prod id ucast (virt_word E s (kpgd s)
          (ntoskrnl_va (windows_os s) + ucast (address_of_functions et) + ucast (x AND 0xffff) * 4) (0 :: u32)))
      | (VMI_FAILURE, _) \<Rightarrow> Some (VMI_FAILURE, rva))"
  by (rule run_windows_export [OF assms])

lemma member_at_map:
  assumes "member l m = Some (ofs, w)" "base + ofs + w \<le> n"
  shows "member_at l m (map f [0..<n]) base = Some (le_word (map f [base + ofs..<base + ofs + w]))"
  using assms by (simp add: member_at_def bytes_at_def take_map drop_map take_upt)

lemma pe_guest_bytes:
  assumes "0x400000 \<le> unat va" "unat va + n \<le> 0x800000"
  shows "virt_bytes xen_env pe_guest 0x1000 va n = map (\<lambda>j. pe_memory (va + of_nat j)) [0..<n]"
  unfolding pe_guest_def by (rule flat_guest_bytes) (use assms in \<open>simp add: in_flat_add\<close>)

lemma pe_guest_table: "export_table_read xen_env pe_guest = (VMI_SUCCESS, Some pe_exports)"
proof -
  let ?img = "map (\<lambda>j. pe_memory (0x400000 + of_nat j)) [0..<1024]"
  have m: "member_at dos_header ''signature'' ?img 0 = Some IMAGE_DOS_HEADER"
      "member_at dos_header ''offset_to_pe'' ?img 0 = Some (0x40 :: u32)"
      "member_at pe_header ''signature'' ?img 64 = Some IMAGE_NT_SIGNATURE"
      "member_at optional_header_pe32 ''magic'' ?img 88 = Some IMAGE_PE32_MAGIC"
      "member_at image_data_directory ''virtual_address'' ?img 184 = Some (0x1000 :: u32)"
    by (subst member_at_map, rule pe_layouts, simp, simp add: le_word_def upt_rec pe_memory_def
        IMAGE_DOS_HEADER_def IMAGE_NT_SIGNATURE_def IMAGE_PE32_MAGIC_def)+
  have "validate_pe_image ?img 1024 = Some VMI_SUCCESS" "export_header_rva ?img = Some 0x1000"
    by (simp_all add: validate_pe_image_def export_header_rva_def m Let_def)
  moreover have "export_table_of (map (\<lambda>j. pe_memory (0x401000 + of_nat j)) [0..<40]) = pe_exports"
    by (simp add: export_table_of_def get_member_def export_table_layout_def take_map drop_map le_word_def
        upt_rec pe_memory_def pe_exports_def)
  ultimately show ?thesis
    by (simp add: export_table_read_def Let_def pe_guest_bytes pe_exports_def)
qed

lemma windows_export_to_rva_exact_witness:
  "fst (run_state (windows_export_to_rva xen_env 3 [66] 0) pe_guest) = Some (VMI_SUCCESS, 0x5678)"
proof -
  have "virt_word xen_env pe_guest 0x1000 0x401302 (0 :: u32) = (VMI_SUCCESS, 1)"
    "virt_word xen_env pe_guest 0x1000 0x401104 (0 :: u32) = (VMI_SUCCESS, 0x5678)"
    by (simp_all add: pe_guest_word pe_memory_def le_word_def)
  then show ?thesis
    using windows_export_to_rva_exact [OF pe_guest_view pe_guest_table, of "[[65], [66]]" 3 1 0] pe_guest_names
    by (simp add: names_sorted_def)
qed

end
