(* ===== verification/Boyer_Moore.thy ===== *)
theory Boyer_Moore
  imports Vmi_Prelude
begin

text \<open>
  The string search of \<^verbatim>\<open>strmatch.c\<close>. Patterns and texts are byte lists, whose lengths are the
  arguments \<open>m\<close> and \<open>n\<close> of the code; the tables are lists of integers, which the sizes the callers use
  (at most 12 and 4096) keep far below the bounds of an \<open>int\<close>. The table that \<open>suffixes\<close> fills is
  allocated without being set: it starts with zeros here, and each of its entries is written before
  it is read.
\<close>

subsection \<open>The tables\<close>

definition preBmBc :: "u8 list \<Rightarrow> int list" where
  "preBmBc x = fold (\<lambda>i bmBc. bmBc[unat (x ! i) := int (length x) - int i - 1])
     [0..<length x - 1] (replicate 256 (int (length x)))"

function match_down :: "u8 list \<Rightarrow> int \<Rightarrow> int \<Rightarrow> int" where
  "match_down x f g =
     (if 0 \<le> g \<and> x ! nat g = x ! nat (g + int (length x) - 1 - f) then match_down x f (g - 1) else g)"
  by pat_completeness auto
termination
  by (relation "measure (\<lambda>(x, f, g). nat (g + 1))") auto

declare match_down.simps [simp del]

definition suffixes_step :: "u8 list \<Rightarrow> nat \<Rightarrow> int \<times> int \<times> int list \<Rightarrow> int \<times> int \<times> int list" where
  "suffixes_step x i = (\<lambda>(f, g, suff). let m = int (length x) in
     if g < int i \<and> suff ! nat (int i + m - 1 - f) < int i - g
     then (f, g, suff[i := suff ! nat (int i + m - 1 - f)])
     else (let g = (if int i < g then int i else g); f = int i; g = match_down x f g
           in (f, g, suff[i := f - g])))"

text \<open>The loop counts down to zero; \<open>f\<close> is not set before its first round.\<close>

primrec suffixes_loop :: "u8 list \<Rightarrow> nat \<Rightarrow> int \<times> int \<times> int list \<Rightarrow> int \<times> int \<times> int list" where
  "suffixes_loop x 0 st = st"
| "suffixes_loop x (Suc i) st = suffixes_loop x i (suffixes_step x i st)"

definition suffixes :: "u8 list \<Rightarrow> int list" where
  "suffixes x = (let m = length x
     in snd (snd (suffixes_loop x (m - 1) (0, int m - 1, (replicate m 0)[m - 1 := int m]))))"

primrec border_loop :: "nat \<Rightarrow> int list \<Rightarrow> nat \<Rightarrow> nat \<times> int list \<Rightarrow> nat \<times> int list" where
  "border_loop m suff 0 st = st"
| "border_loop m suff (Suc i) st = border_loop m suff i (case st of (j, bmGs) \<Rightarrow>
     if suff ! i = int i + 1
     then (max j (m - 1 - i), fold (\<lambda>j bmGs. if bmGs ! j = int m then bmGs[j := int (m - 1 - i)] else bmGs)
       [j..<m - 1 - i] bmGs)
     else st)"

definition preBmGs :: "u8 list \<Rightarrow> int list" where
  "preBmGs x = (let m = length x; suff = suffixes x;
       bmGs = snd (border_loop m suff m (0, replicate m (int m)))
     in fold (\<lambda>i bmGs. bmGs[nat (int m - 1 - suff ! i) := int (m - 1 - i)]) [0..<m - 1] bmGs)"

record boyer_moore_data =
  bm_x :: "u8 list"
  bm_bmBc :: "int list"
  bm_bmGs :: "int list"

definition boyer_moore_init :: "u8 list \<Rightarrow> boyer_moore_data" where
  "boyer_moore_init x = \<lparr>bm_x = x, bm_bmBc = preBmBc x, bm_bmGs = preBmGs x\<rparr>"

subsection \<open>The search\<close>

text \<open>The comparison runs from the end of the pattern; \<open>-1\<close> is a match.\<close>

primrec mismatch :: "u8 list \<Rightarrow> u8 list \<Rightarrow> nat \<Rightarrow> nat \<Rightarrow> int" where
  "mismatch x y j 0 = -1"
| "mismatch x y j (Suc i) = (if x ! i = y ! (i + j) then mismatch x y j i else int i)"

partial_function (option) bm_search :: "boyer_moore_data \<Rightarrow> u8 list \<Rightarrow> int \<Rightarrow> int option" where
  "bm_search bm y j = (let x = bm_x bm; m = int (length x); n = int (length y) in
     if j \<le> n - m then
       (let i = mismatch x y (nat j) (length x) in
        if i < 0 then Some j
        else bm_search bm y
          (j + max (bm_bmGs bm ! nat i) (bm_bmBc bm ! unat (y ! nat (i + j)) - m + 1 + i)))
     else Some (-1))"

definition boyer_moore2 :: "boyer_moore_data \<Rightarrow> u8 list \<Rightarrow> int option" where
  "boyer_moore2 bm y = bm_search bm y 0"

definition boyer_moore :: "u8 list \<Rightarrow> u8 list \<Rightarrow> int option" where
  "boyer_moore x y = (let bmGs = preBmGs x; bmBc = preBmBc x
     in bm_search \<lparr>bm_x = x, bm_bmBc = bmBc, bm_bmGs = bmGs\<rparr> y 0)"

subsection \<open>The suffix table\<close>

text \<open>
  \<open>suffix_len x i l\<close>: the longest common suffix of the pattern and of its part up to position \<open>i\<close>
  has \<open>l\<close> bytes.
\<close>

definition common_suffix :: "u8 list \<Rightarrow> int \<Rightarrow> int \<Rightarrow> bool" where
  "common_suffix x i l \<longleftrightarrow>
     (\<forall>t. 0 \<le> t \<and> t < l \<longrightarrow> x ! nat (i - t) = x ! nat (int (length x) - 1 - t))"

definition suffix_len :: "u8 list \<Rightarrow> int \<Rightarrow> int \<Rightarrow> bool" where
  "suffix_len x i l \<longleftrightarrow> 0 \<le> l \<and> l \<le> i + 1 \<and> common_suffix x i l
     \<and> (l \<le> i \<longrightarrow> x ! nat (i - l) \<noteq> x ! nat (int (length x) - 1 - l))"

lemma suffix_len_common: "suffix_len x i l \<Longrightarrow> k \<le> l \<Longrightarrow> common_suffix x i k"
  by (simp add: suffix_len_def common_suffix_def)

lemma suffix_len_unique:
  assumes "suffix_len x i l" and "suffix_len x i k"
  shows "l = k"
proof (rule ccontr)
  assume "l \<noteq> k"
  then consider "l < k" | "k < l" by linarith
  then show False
    using assms by cases (auto simp: suffix_len_def common_suffix_def)
qed

lemma match_down_suffix:
  assumes "g \<le> f" "-1 \<le> g" and "common_suffix x f (f - g)"
  shows "match_down x f g \<le> g \<and> -1 \<le> match_down x f g \<and> suffix_len x f (f - match_down x f g)"
  using assms
proof (induction x f g rule: match_down.induct)
  case (1 x f g)
  let ?m = "int (length x)"
  show ?case
  proof (cases "0 \<le> g \<and> x ! nat g = x ! nat (g + ?m - 1 - f)")
    case True
    have "common_suffix x f (f - (g - 1))"
      unfolding common_suffix_def
    proof (intro allI impI)
      fix t
      assume t: "0 \<le> t \<and> t < f - (g - 1)"
      show "x ! nat (f - t) = x ! nat (?m - 1 - t)"
      proof (cases "t = f - g")
        case eq: True
        then have "f - t = g" "?m - 1 - t = g + ?m - 1 - f" by simp_all
        with True show ?thesis by metis
      next
        case False
        with t "1.prems"(3) show ?thesis by (simp add: common_suffix_def)
      qed
    qed
    with "1.IH" [OF True] "1.prems" True show ?thesis
      by (simp add: match_down.simps [of x f g])
  next
    case False
    then show ?thesis
      using "1.prems" by (auto simp: match_down.simps [of x f g] suffix_len_def algebra_simps)
  qed
qed

text \<open>
  The invariant of the loop: the window from \<open>g\<close> to \<open>f\<close> is a longest common suffix, and the entries
  above \<open>i\<close> are right.
\<close>

definition window :: "u8 list \<Rightarrow> int \<Rightarrow> int \<Rightarrow> int \<Rightarrow> bool" where
  "window x i f g \<longleftrightarrow> i < g \<or> (i < f \<and> f < int (length x) - 1 \<and> -1 \<le> g \<and> suffix_len x f (f - g))"

lemma window_shift:
  assumes "window x (int i) f g" and "g < int i" and "0 \<le> t" "t < int i - g"
  shows "x ! nat (int i - t) = x ! nat (int i + int (length x) - 1 - f - t)"
proof -
  have "common_suffix x f (f - g)" "int i < f" using assms by (auto simp: window_def suffix_len_def)
  then have "x ! nat (f - (f - int i + t)) = x ! nat (int (length x) - 1 - (f - int i + t))"
  proof -
    have "0 \<le> f - int i + t" "f - int i + t < f - g" using assms(3,4) \<open>int i < f\<close> by linarith+
    with \<open>common_suffix x f (f - g)\<close> show ?thesis unfolding common_suffix_def by blast
  qed
  moreover have "f - (f - int i + t) = int i - t"
    "int (length x) - 1 - (f - int i + t) = int i + int (length x) - 1 - f - t" by linarith+
  ultimately show ?thesis by metis
qed

lemma suffixes_step_correct:
  assumes "length suff = length x" and "int i < int (length x) - 1" and "window x (int i) f g"
    and "\<And>k. i < k \<Longrightarrow> k < length x \<Longrightarrow> suffix_len x (int k) (suff ! k)"
    and "suffixes_step x i (f, g, suff) = (f', g', suff')"
  shows "length suff' = length x \<and> window x (int i - 1) f' g'
    \<and> (\<forall>k. i \<le> k \<longrightarrow> k < length x \<longrightarrow> suffix_len x (int k) (suff' ! k))"
proof -
  let ?m = "int (length x)" and ?k = "int i + int (length x) - 1 - f"
  let ?copy = "g < int i \<and> suff ! nat ?k < int i - g"
  have inside: "i < nat ?k" "nat ?k < length x" "suffix_len x ?k (suff ! nat ?k)" "-1 \<le> g" "int i < f"
    "f < int (length x) - 1" "suffix_len x f (f - g)" if "g < int i"
  proof -
    show *: "int i < f" "f < ?m - 1" "-1 \<le> g" "suffix_len x f (f - g)"
      using assms(3) that by (auto simp: window_def)
    then show k: "i < nat ?k" "nat ?k < length x" by linarith+
    have "int (nat ?k) = ?k" using k(1) by linarith
    then show "suffix_len x ?k (suff ! nat ?k)" using assms(4) [OF k] by metis
  qed
  show ?thesis
  proof (cases ?copy)
    case True
    then have g: "g < int i" and l: "suff ! nat ?k < int i - g" by simp_all
    note w = inside [OF g]
    let ?l = "suff ! nat ?k"
    have "suffix_len x (int i) ?l"
      unfolding suffix_len_def
    proof (intro conjI impI)
      show "0 \<le> ?l" using w(3) by (simp add: suffix_len_def)
      show "?l \<le> int i + 1" using l w(4) by simp
      show "common_suffix x (int i) ?l"
        unfolding common_suffix_def
      proof (intro allI impI)
        fix t
        assume t: "0 \<le> t \<and> t < ?l"
        then have "x ! nat (int i - t) = x ! nat (?k - t)"
          using window_shift [OF assms(3) g, of t] l by simp
        also have "\<dots> = x ! nat (?m - 1 - t)"
          using w(3) t by (simp add: suffix_len_def common_suffix_def)
        finally show "x ! nat (int i - t) = x ! nat (?m - 1 - t)" .
      qed
      assume "?l \<le> int i"
      have "x ! nat (int i - ?l) = x ! nat (?k - ?l)"
        using window_shift [OF assms(3) g, of ?l] l w(3) by (simp add: suffix_len_def)
      moreover have "?l \<le> ?k" using w(1) \<open>?l \<le> int i\<close> by linarith
      ultimately show "x ! nat (int i - ?l) \<noteq> x ! nat (?m - 1 - ?l)"
        using w(3) by (simp add: suffix_len_def)
    qed
    moreover have "f' = f" "g' = g" "suff' = suff[i := ?l]"
      using assms(5) True by (auto simp: suffixes_step_def Let_def)
    moreover have "window x (int i - 1) f g" using w by (simp add: window_def)
    ultimately show ?thesis using assms(1,2,4) by (auto simp: nth_list_update)
  next
    case False
    define g0 where "g0 = (if int i < g then int i else g)"
    have "g0 \<le> int i \<and> -1 \<le> g0 \<and> common_suffix x (int i) (int i - g0)"
    proof (cases "g < int i")
      case g: True
      note w = inside [OF g]
      have big: "int i - g \<le> suff ! nat ?k" using False g by simp
      have "common_suffix x (int i) (int i - g)"
        unfolding common_suffix_def
      proof (intro allI impI)
        fix t
        assume t: "0 \<le> t \<and> t < int i - g"
        then have "x ! nat (int i - t) = x ! nat (?k - t)"
          using window_shift [OF assms(3) g, of t] by simp
        also have "\<dots> = x ! nat (?m - 1 - t)"
          using w(3) t big by (simp add: suffix_len_def common_suffix_def)
        finally show "x ! nat (int i - t) = x ! nat (?m - 1 - t)" .
      qed
      with g w show ?thesis by (simp add: g0_def)
    next
      case False
      then show ?thesis by (auto simp: g0_def common_suffix_def)
    qed
    then have md: "match_down x (int i) g0 \<le> g0" "-1 \<le> match_down x (int i) g0"
      "suffix_len x (int i) (int i - match_down x (int i) g0)" "g0 \<le> int i"
      using match_down_suffix [of g0 "int i" x] by simp_all
    moreover have "f' = int i" "g' = match_down x (int i) g0" "suff' = suff[i := f' - g']"
      using assms(5) False by (auto simp: suffixes_step_def Let_def g0_def)
    ultimately show ?thesis using assms(1,2,4) by (auto simp: nth_list_update window_def)
  qed
qed

lemma suffixes_loop_correct:
  assumes "length suff = length x" and "int i \<le> int (length x) - 1" and "window x (int i - 1) f g"
    and "\<And>k. i \<le> k \<Longrightarrow> k < length x \<Longrightarrow> suffix_len x (int k) (suff ! k)"
  shows "length (snd (snd (suffixes_loop x i (f, g, suff)))) = length x
    \<and> (\<forall>k < length x. suffix_len x (int k) (snd (snd (suffixes_loop x i (f, g, suff))) ! k))"
  using assms
proof (induction i arbitrary: f g suff)
  case 0
  then show ?case by simp
next
  case (Suc i)
  obtain f' g' suff' where s: "suffixes_step x i (f, g, suff) = (f', g', suff')" by (metis prod_cases3)
  have "length suff' = length x \<and> window x (int i - 1) f' g'
    \<and> (\<forall>k. i \<le> k \<longrightarrow> k < length x \<longrightarrow> suffix_len x (int k) (suff' ! k))"
    using Suc.prems by (intro suffixes_step_correct [OF Suc.prems(1) _ _ _ s]) auto
  then show ?case using Suc.IH [of suff' f' g'] Suc.prems(2) s by simp
qed

lemma suffix_len_whole: "x \<noteq> [] \<Longrightarrow> suffix_len x (int (length x) - 1) (int (length x))"
  by (auto simp: suffix_len_def common_suffix_def)

lemma suffixes_correct:
  assumes "x \<noteq> []"
  shows "length (suffixes x) = length x" "k < length x \<Longrightarrow> suffix_len x (int k) (suffixes x ! k)"
proof -
  let ?m = "length x" and ?s = "(replicate (length x) 0)[length x - 1 := int (length x)]"
  have "suffix_len x (int k) (?s ! k)" if "?m - 1 \<le> k" "k < ?m" for k
  proof -
    have "k = ?m - 1" "int k = int ?m - 1" using that by linarith+
    then show ?thesis using suffix_len_whole [OF assms] assms by simp
  qed
  moreover have "window x (int (?m - 1) - 1) 0 (int ?m - 1)" using assms by (simp add: window_def)
  moreover have "int (?m - 1) \<le> int ?m - 1" using assms by (cases x) auto
  ultimately have "length (suffixes x) = ?m \<and> (\<forall>k < ?m. suffix_len x (int k) (suffixes x ! k))"
    using suffixes_loop_correct [of ?s x "?m - 1" 0 "int ?m - 1"]
    by (simp add: suffixes_def Let_def)
  then show "length (suffixes x) = ?m" "k < ?m \<Longrightarrow> suffix_len x (int k) (suffixes x ! k)" by simp_all
qed

subsection \<open>The shift tables\<close>

lemma preBmBc_bound:
  "length (preBmBc x) = 256 \<and> preBmBc x ! unat (c :: u8) \<le> int (length x)
    \<and> (\<forall>k < length x - 1. x ! k = c \<longrightarrow> preBmBc x ! unat c \<le> int (length x) - int k - 1)"
proof -
  have c: "unat c < 256" using unat_lt [of c] by simp
  define bc where "bc n = fold (\<lambda>i bmBc. bmBc[unat (x ! i) := int (length x) - int i - 1])
      [0..<n] (replicate 256 (int (length x)))" for n
  have "length (bc n) = 256 \<and> bc n ! unat c \<le> int (length x)
      \<and> (\<forall>k < n. x ! k = c \<longrightarrow> bc n ! unat c \<le> int (length x) - int k - 1)" for n
  proof (induction n)
    case 0
    then show ?case using c by (simp add: bc_def)
  next
    case (Suc n)
    have s: "bc (Suc n) = (bc n)[unat (x ! n) := int (length x) - int n - 1]" by (simp add: bc_def)
    show ?case
    proof (cases "x ! n = c")
      case True
      then show ?thesis using Suc c by (auto simp: s)
    next
      case False
      then have "unat (x ! n) \<noteq> unat c" by (simp add: word_unat_eq_iff)
      then show ?thesis using Suc c False by (auto simp: s less_Suc_eq)
    qed
  qed
  from this [of "length x - 1"] show ?thesis by (simp add: bc_def preBmBc_def)
qed

lemma fold_fill:
  "length (fold (\<lambda>j gs. if gs ! j = M then gs[j := V] else gs) [a..<b] gs) = length gs
   \<and> (\<forall>t < length gs. fold (\<lambda>j gs. if gs ! j = M then gs[j := V] else gs) [a..<b] gs ! t =
      (if a \<le> t \<and> t < b \<and> gs ! t = M then V else gs ! t))"
proof (induction b)
  case 0
  then show ?case by simp
next
  case (Suc b)
  let ?F = "fold (\<lambda>j gs. if gs ! j = M then gs[j := V] else gs) [a..<b] gs"
  have "(?F[b := V]) ! t = (if t = b then V else ?F ! t)" if "t < length gs" for t
    using Suc that by (cases "t = b") simp_all
  with Suc show ?case by (cases "a \<le> b") (auto simp: less_Suc_eq split: if_splits)
qed

text \<open>What the loop over the borders of the pattern keeps, for the positions from \<open>i\<close> on.\<close>

definition borders_ok :: "nat \<Rightarrow> int list \<Rightarrow> nat \<Rightarrow> nat \<times> int list \<Rightarrow> bool" where
  "borders_ok m suff i = (\<lambda>(j, gs). length gs = m \<and> j \<le> m - i
     \<and> (\<forall>t < m. if t < j then 1 \<le> gs ! t \<and> gs ! t < int m else gs ! t = int m)
     \<and> (\<forall>p < m. i \<le> p \<and> suff ! p = int p + 1 \<longrightarrow> m - 1 - p \<le> j \<and> (\<forall>t < m - 1 - p. gs ! t \<le> int (m - 1 - p))))"

lemma border_loop_ok:
  assumes "i \<le> m" and "borders_ok m suff i (j, gs)" and "\<forall>t < j. gs ! t \<le> int (m - i)"
  shows "borders_ok m suff 0 (border_loop m suff i (j, gs))"
  using assms
proof (induction i arbitrary: j gs)
  case 0
  then show ?case by simp
next
  case (Suc i)
  show ?case
  proof (cases "suff ! i = int i + 1")
    case False
    have "Suc i \<le> p" if "i \<le> p" "suff ! p = int p + 1" for p
      using that False by (cases "p = i") auto
    then have "borders_ok m suff i (j, gs)"
      using Suc.prems(2) unfolding borders_ok_def prod.case
      by (meson diff_le_mono2 le_SucI le_refl le_trans)
    moreover have "\<forall>t < j. gs ! t \<le> int (m - i)" using Suc.prems(3) by force
    ultimately show ?thesis using Suc.IH [of j gs] Suc.prems(1) False by simp
  next
    case True
    let ?v = "m - 1 - i"
    let ?gs = "fold (\<lambda>j gs. if gs ! j = int m then gs[j := int ?v] else gs) [j..<?v] gs"
    have j: "j \<le> ?v" "length gs = m" using Suc.prems(1,2) by (auto simp: borders_ok_def)
    have old: "if t < j then 1 \<le> gs ! t \<and> gs ! t < int m else gs ! t = int m" if "t < m" for t
      using Suc.prems(2) that by (simp add: borders_ok_def)
    have gs: "length ?gs = m" "\<And>t. t < m \<Longrightarrow> ?gs ! t = (if j \<le> t \<and> t < ?v then int ?v else gs ! t)"
      using fold_fill [of "int m" "int ?v" j ?v gs] j old by auto
    have le: "\<forall>t < ?v. ?gs ! t \<le> int ?v"
    proof (intro allI impI)
      fix t
      assume t: "t < ?v"
      then have "t < m" by simp
      from gs(2) [OF this] show "?gs ! t \<le> int ?v"
        using Suc.prems(3) t by (cases "t < j") auto
    qed
    have "borders_ok m suff i (?v, ?gs)"
      unfolding borders_ok_def prod.case
    proof (intro conjI allI impI)
      fix t
      assume t: "t < m"
      from gs(2) [OF t] old [OF t] show "if t < ?v then 1 \<le> ?gs ! t \<and> ?gs ! t < int m else ?gs ! t = int m"
        using j by (cases "t < j"; cases "t < ?v") auto
    next
      fix p
      assume p: "p < m" "i \<le> p \<and> suff ! p = int p + 1"
      then show "m - 1 - p \<le> ?v" by (intro diff_le_mono2) simp
      fix t
      assume t: "t < m - 1 - p"
      show "?gs ! t \<le> int (m - 1 - p)"
      proof (cases "p = i")
        case True
        then show ?thesis using le t by simp
      next
        case False
        then have p': "m - 1 - p \<le> j" "\<forall>t < m - 1 - p. gs ! t \<le> int (m - 1 - p)"
          using Suc.prems(2) p by (auto simp: borders_ok_def)
        then have "t < j" "t < m" using t by simp_all
        then show ?thesis using gs(2) [of t] p'(2) t by simp
      qed
    qed (use gs j Suc.prems(1) in auto)
    moreover have "\<forall>t < ?v. ?gs ! t \<le> int (m - i)" using le by force
    moreover have "max j ?v = ?v" using j(1) by simp
    ultimately show ?thesis using Suc.IH [of ?v ?gs] Suc.prems(1) True by simp
  qed
qed

text \<open>The last loop stores, for each position, the smallest shift that its suffix lengths give.\<close>

lemma suffix_fill:
  assumes "length gs = length x" "x \<noteq> []" and "n \<le> length x - 1"
    and "\<And>t. t < length x \<Longrightarrow> 1 \<le> gs ! t \<and> gs ! t \<le> int (length x)"
    and "\<And>p. p < length x - 1 \<Longrightarrow> 0 \<le> suff ! p \<and> suff ! p \<le> int p + 1"
  defines "r \<equiv> fold (\<lambda>i bmGs. bmGs[nat (int (length x) - 1 - suff ! i) := int (length x - 1 - i)]) [0..<n] gs"
  shows "length r = length x
    \<and> (\<forall>t < length x. 1 \<le> r ! t \<and> r ! t \<le> int (length x))
    \<and> (\<forall>p < n. r ! nat (int (length x) - 1 - suff ! p) \<le> int (length x - 1 - p))
    \<and> (\<forall>t < length x. r ! t = gs ! t
        \<or> (\<exists>p < n. int t = int (length x) - 1 - suff ! p \<and> r ! t = int (length x - 1 - p)))"
  using assms(3) unfolding r_def
proof (induction n)
  case 0
  then show ?case using assms(1,4) by simp
next
  case (Suc n)
  let ?m = "length x" and ?k = "nat (int (length x) - 1 - suff ! n)"
  let ?r = "fold (\<lambda>i bmGs. bmGs[nat (int ?m - 1 - suff ! i) := int (?m - 1 - i)]) [0..<n] gs"
  let ?r' = "?r[?k := int (?m - 1 - n)]"
  have n: "n < ?m - 1" using Suc.prems by simp
  have IH: "length ?r = ?m" "\<And>t. t < ?m \<Longrightarrow> 1 \<le> ?r ! t \<and> ?r ! t \<le> int ?m"
    "\<And>p. p < n \<Longrightarrow> ?r ! nat (int ?m - 1 - suff ! p) \<le> int (?m - 1 - p)"
    "\<And>t. t < ?m \<Longrightarrow> ?r ! t = gs ! t
        \<or> (\<exists>p < n. int t = int ?m - 1 - suff ! p \<and> ?r ! t = int (?m - 1 - p))"
    using Suc.IH n by simp_all
  have k: "?k < ?m" "int ?k = int ?m - 1 - suff ! n" using assms(5) [OF n] n by linarith+
  have nth: "?r' ! t = (if t = ?k then int (?m - 1 - n) else ?r ! t)" if "t < ?m" for t
    using that IH(1) k by simp
  have A: "1 \<le> ?r' ! t \<and> ?r' ! t \<le> int ?m" if "t < ?m" for t
    using nth [OF that] IH(2) [OF that] n by auto
  have B: "?r' ! nat (int ?m - 1 - suff ! p) \<le> int (?m - 1 - p)" if p: "p < Suc n" for p
  proof -
    have b: "nat (int ?m - 1 - suff ! p) < ?m" using assms(5) [of p] p n by linarith
    show ?thesis
    proof (cases "p = n")
      case True
      then show ?thesis using nth [OF b] by simp
    next
      case False
      then have "p < n" using p by simp
      moreover have "int (?m - 1 - n) \<le> int (?m - 1 - p)" using \<open>p < n\<close> by simp
      ultimately show ?thesis using nth [OF b] IH(3) [of p] by simp
    qed
  qed
  have C: "?r' ! t = gs ! t \<or> (\<exists>p < Suc n. int t = int ?m - 1 - suff ! p \<and> ?r' ! t = int (?m - 1 - p))"
    if t: "t < ?m" for t
  proof (cases "t = ?k")
    case True
    then show ?thesis using nth [OF t] k by (intro disjI2 exI [of _ n]) simp
  next
    case False
    then show ?thesis using nth [OF t] IH(4) [OF t] by (auto intro: less_SucI)
  qed
  have L: "length ?r' = ?m" using IH(1) by simp
  have D: "length ?r' = ?m \<and> (\<forall>t < ?m. 1 \<le> ?r' ! t \<and> ?r' ! t \<le> int ?m)
    \<and> (\<forall>p < Suc n. ?r' ! nat (int ?m - 1 - suff ! p) \<le> int (?m - 1 - p))
    \<and> (\<forall>t < ?m. ?r' ! t = gs ! t
        \<or> (\<exists>p < Suc n. int t = int ?m - 1 - suff ! p \<and> ?r' ! t = int (?m - 1 - p)))"
    using L A B C by blast
  have F: "fold (\<lambda>i bmGs. bmGs[nat (int ?m - 1 - suff ! i) := int (?m - 1 - i)]) [0..<Suc n] gs = ?r'"
    by simp
  show ?case unfolding F by (rule D)
qed

text \<open>The shifts by \<open>k\<close> after a mismatch at \<open>i\<close> that the matched suffix does not rule out.\<close>

definition possible_shift :: "u8 list \<Rightarrow> nat \<Rightarrow> nat \<Rightarrow> bool" where
  "possible_shift x i k \<longleftrightarrow> (\<forall>t. i < t \<and> t < length x \<and> k \<le> t \<longrightarrow> x ! (t - k) = x ! t)
     \<and> (k \<le> i \<longrightarrow> x ! (i - k) \<noteq> x ! i)"

lemma possible_shift_suffix:
  assumes "possible_shift x i k" and "1 \<le> k" "k < length x" "i < length x"
  shows "suffix_len x (int (length x - 1 - k))
    (if k \<le> i then int (length x - 1 - i) else int (length x - k))"
proof -
  let ?m = "length x" and ?p = "length x - 1 - k"
  have common: "x ! nat (int ?p - t) = x ! nat (int ?m - 1 - t)"
    if t: "0 \<le> t" "t < int (?m - 1 - i)" "t \<le> int ?p" for t
  proof -
    obtain q where q: "t = int q" using t(1) by (cases t) auto
    have "q < ?m - 1 - i" "q \<le> ?p" using t(2,3) q by simp_all
    then have T: "i < ?m - 1 - q" "?m - 1 - q < ?m" "k \<le> ?m - 1 - q" using assms(2-4) by simp_all
    have "nat (int ?p - t) = ?m - 1 - q - k" "nat (int ?m - 1 - t) = ?m - 1 - q"
      using \<open>q \<le> ?p\<close> q by simp_all
    then show ?thesis using assms(1) T unfolding possible_shift_def by metis
  qed
  show ?thesis
  proof (cases "k \<le> i")
    case True
    have "nat (int ?p - int (?m - 1 - i)) = i - k" "nat (int ?m - 1 - int (?m - 1 - i)) = i"
      using True assms(3,4) by linarith+
    then have "x ! nat (int ?p - int (?m - 1 - i)) \<noteq> x ! nat (int ?m - 1 - int (?m - 1 - i))"
      using assms(1) True by (simp add: possible_shift_def)
    moreover have "common_suffix x (int ?p) (int (?m - 1 - i))"
      unfolding common_suffix_def using common True assms(3,4) by auto
    ultimately show ?thesis using True assms(3,4) by (auto simp: suffix_len_def)
  next
    case False
    have "common_suffix x (int ?p) (int (?m - k))"
      unfolding common_suffix_def using common False assms(2,3,4) by auto
    then show ?thesis using False assms(2,3) by (auto simp: suffix_len_def)
  qed
qed

lemma preBmGs_bound:
  assumes "i < length x"
  shows "1 \<le> preBmGs x ! i \<and> (\<forall>k. 1 \<le> k \<and> possible_shift x i k \<longrightarrow> preBmGs x ! i \<le> int k)"
proof -
  let ?m = "length x" and ?suff = "suffixes x"
  have ne: "x \<noteq> []" using assms by auto
  have sl: "suffix_len x (int p) (?suff ! p)" if "p < ?m" for p
    by (rule suffixes_correct(2) [OF ne that])
  obtain j gs where b: "border_loop ?m ?suff ?m (0, replicate ?m (int ?m)) = (j, gs)" by fastforce
  have "borders_ok ?m ?suff ?m (0, replicate ?m (int ?m))" using ne by (auto simp: borders_ok_def)
  from border_loop_ok [OF le_refl this] have ok: "borders_ok ?m ?suff 0 (j, gs)" by (simp add: b)
  then have gs: "length gs = ?m" "1 \<le> gs ! t \<and> gs ! t \<le> int ?m" if "t < ?m" for t
    using that ne by (auto simp: borders_ok_def Suc_le_eq split: if_splits)
  have "0 \<le> ?suff ! p \<and> ?suff ! p \<le> int p + 1" if "p < ?m - 1" for p
    using sl [of p] that by (simp add: suffix_len_def)
  from suffix_fill [OF gs(1) [OF assms] ne le_refl gs(2) this]
  have r: "1 \<le> preBmGs x ! t \<and> preBmGs x ! t \<le> int ?m"
    "p < ?m - 1 \<Longrightarrow> preBmGs x ! nat (int ?m - 1 - ?suff ! p) \<le> int (?m - 1 - p)"
    "preBmGs x ! t = gs ! t
        \<or> (\<exists>p < ?m - 1. int t = int ?m - 1 - ?suff ! p \<and> preBmGs x ! t = int (?m - 1 - p))"
    if "t < ?m" for t p
    using that by (auto simp: preBmGs_def Let_def b)
  have "preBmGs x ! i \<le> int k" if k: "1 \<le> k" "possible_shift x i k" for k
  proof (cases "k < ?m")
    case False
    then show ?thesis using r(1) [OF assms] by simp
  next
    case True
    let ?p = "?m - 1 - k"
    have p: "?p < ?m - 1" "?p < ?m" "int (?m - 1 - ?p) = int k" using k True by linarith+
    note s = suffix_len_unique [OF sl [OF p(2)] possible_shift_suffix [OF k(2,1) True assms]]
    show ?thesis
    proof (cases "k \<le> i")
      case le: True
      then have "nat (int ?m - 1 - ?suff ! ?p) = i" using s assms by simp
      then show ?thesis using r(2) [OF assms p(1)] p(3) by simp
    next
      case False
      then have "?suff ! ?p = int ?p + 1" using s True by simp
      moreover have "i < ?m - 1 - ?p" using False True by linarith
      moreover have "\<forall>t < ?m - 1 - ?p. gs ! t \<le> int (?m - 1 - ?p)"
        if "?suff ! ?p = int ?p + 1"
        using ok p(2) that unfolding borders_ok_def prod.case by blast
      ultimately have "gs ! i \<le> int k" using p(3) by simp
      moreover have "int (?m - 1 - q) \<le> int k" if "q < ?m - 1" "int i = int ?m - 1 - ?suff ! q" for q
      proof -
        have "?suff ! q \<le> int q + 1" using sl [of q] that(1) by (simp add: suffix_len_def)
        then show ?thesis using that False by linarith
      qed
      ultimately show ?thesis using r(3) [OF assms] by auto
    qed
  qed
  then show ?thesis using r(1) [OF assms] by auto
qed

subsection \<open>The search finds the first occurrence\<close>

definition occurs_at :: "u8 list \<Rightarrow> u8 list \<Rightarrow> nat \<Rightarrow> bool" where
  "occurs_at x y j \<longleftrightarrow> take (length x) (drop j y) = x"

lemma occurs_at_nth:
  assumes "x \<noteq> []"
  shows "occurs_at x y j \<longleftrightarrow> j + length x \<le> length y \<and> (\<forall>t < length x. x ! t = y ! (t + j))"
proof
  assume o: "occurs_at x y j"
  then have "length (take (length x) (drop j y)) = length x" by (simp add: occurs_at_def)
  then have le: "j + length x \<le> length y" using assms by (cases "j \<le> length y") (auto simp: min_def split: if_splits)
  moreover have "x ! t = y ! (t + j)" if "t < length x" for t
  proof -
    have "take (length x) (drop j y) ! t = y ! (t + j)" using that le by (simp add: add.commute)
    with o show ?thesis by (simp add: occurs_at_def)
  qed
  ultimately show "j + length x \<le> length y \<and> (\<forall>t < length x. x ! t = y ! (t + j))" by simp
next
  assume "j + length x \<le> length y \<and> (\<forall>t < length x. x ! t = y ! (t + j))"
  then show "occurs_at x y j"
    unfolding occurs_at_def by (intro nth_equalityI) (auto simp: add.commute)
qed

text \<open>The reference: try every position.\<close>

definition first_match :: "u8 list \<Rightarrow> u8 list \<Rightarrow> int" where
  "first_match x y = (case find (occurs_at x y) [0..<Suc (length y)] of None \<Rightarrow> -1 | Some j \<Rightarrow> int j)"

lemma first_match_Some:
  assumes "x \<noteq> []" "occurs_at x y j" "\<And>k. k < j \<Longrightarrow> \<not> occurs_at x y k"
  shows "first_match x y = int j"
proof -
  have "j \<le> length y" using occurs_at_nth [OF assms(1), of y j] assms(2) by simp
  then have "find (occurs_at x y) [0..<Suc (length y)] = Some j"
    unfolding find_Some_iff using assms(2,3) by (intro exI [of _ j]) (simp del: upt_Suc)
  then show ?thesis by (simp add: first_match_def del: upt_Suc)
qed

lemma first_match_None:
  assumes "\<And>k. k \<le> length y \<Longrightarrow> \<not> occurs_at x y k"
  shows "first_match x y = -1"
proof -
  have "find (occurs_at x y) [0..<Suc (length y)] = None"
    unfolding find_None_iff using assms by (auto simp: less_Suc_eq_le simp del: upt_Suc)
  then show ?thesis by (simp add: first_match_def del: upt_Suc)
qed

lemma mismatch_cases:
  "mismatch x y j n = -1 \<and> (\<forall>t < n. x ! t = y ! (t + j))
   \<or> (\<exists>i < n. mismatch x y j n = int i \<and> x ! i \<noteq> y ! (i + j) \<and> (\<forall>t. i < t \<and> t < n \<longrightarrow> x ! t = y ! (t + j)))"
proof (induction n)
  case 0
  then show ?case by simp
next
  case (Suc n)
  show ?case
  proof (cases "x ! n = y ! (n + j)")
    case True
    with Suc show ?thesis by (auto simp: less_Suc_eq)
  next
    case False
    then show ?thesis by auto
  qed
qed

text \<open>The shift after a mismatch skips no occurrence.\<close>

lemma shift_safe:
  assumes "j + length x \<le> length y" and "i < length x" "x ! i \<noteq> y ! (i + j)"
    and "\<And>t. i < t \<Longrightarrow> t < length x \<Longrightarrow> x ! t = y ! (t + j)"
    and "occurs_at x y (j + k)" "1 \<le> k"
  shows "max (preBmGs x ! i) (preBmBc x ! unat (y ! (i + j)) - int (length x) + 1 + int i) \<le> int k"
proof (rule max.boundedI)
  have "x \<noteq> []" using assms(2) by auto
  from assms(5) have m: "x ! t = y ! (t + (j + k))" if "t < length x" for t
    using that by (simp add: occurs_at_nth [OF \<open>x \<noteq> []\<close>])
  have "x ! (t - k) = x ! t" if "i < t" "t < length x" "k \<le> t" for t
  proof -
    have "t - k + (j + k) = t + j" using that(3) by simp
    then show ?thesis using m [of "t - k"] assms(4) [OF that(1,2)] that(2) by simp
  qed
  moreover have "x ! (i - k) = y ! (i + j)" if "k \<le> i"
  proof -
    have "i - k + (j + k) = i + j" using that by simp
    then show ?thesis using m [of "i - k"] assms(2) by simp
  qed
  ultimately have "possible_shift x i k" using assms(3) by (auto simp: possible_shift_def)
  then show "preBmGs x ! i \<le> int k" using preBmGs_bound [OF assms(2)] assms(6) by blast
  let ?c = "y ! (i + j)"
  show "preBmBc x ! unat ?c - int (length x) + 1 + int i \<le> int k"
  proof (cases "k \<le> i")
    case True
    then have "i - k + (j + k) = i + j" by simp
    then have "x ! (i - k) = ?c" using m [of "i - k"] assms(2) by simp
    moreover have "i - k < length x - 1" using assms(2,6) True by linarith
    ultimately have "preBmBc x ! unat ?c \<le> int (length x) - int (i - k) - 1"
      using preBmBc_bound [of x ?c] by blast
    then show ?thesis using True by simp
  next
    case False
    have "preBmBc x ! unat ?c \<le> int (length x)" using preBmBc_bound [of x ?c] by blast
    then show ?thesis using False by simp
  qed
qed

lemma bm_search_first:
  assumes "x \<noteq> []" and "\<And>k. k < j \<Longrightarrow> \<not> occurs_at x y k"
  shows "bm_search (boyer_moore_init x) y (int j) = Some (first_match x y)"
  using assms(2)
proof (induction "length y - j" arbitrary: j rule: less_induct)
  case less
  let ?m = "length x" and ?n = "length y" and ?i = "mismatch x y j (length x)"
  show ?case
  proof (cases "j + ?m \<le> ?n")
    case False
    then have "\<not> occurs_at x y k" if "k \<le> ?n" for k
      using less.prems [of k] occurs_at_nth [OF assms(1), of y k] by (cases "k < j") auto
    then have "first_match x y = -1" by (rule first_match_None)
    with False show ?thesis
      by (subst bm_search.simps) (simp add: boyer_moore_init_def Let_def)
  next
    case True
    consider (match) "?i = -1" "\<forall>t < ?m. x ! t = y ! (t + j)"
      | (miss) i where "i < ?m" "?i = int i" "x ! i \<noteq> y ! (i + j)"
        "\<And>t. i < t \<Longrightarrow> t < ?m \<Longrightarrow> x ! t = y ! (t + j)"
      using mismatch_cases [of x y j ?m] by blast
    then show ?thesis
    proof cases
      case match
      then have "occurs_at x y j" using True by (simp add: occurs_at_nth [OF assms(1)])
      then have "first_match x y = int j" using first_match_Some [OF assms(1)] less.prems by blast
      with True match show ?thesis
        by (subst bm_search.simps) (simp add: boyer_moore_init_def Let_def)
    next
      case miss
      define s where "s = max (preBmGs x ! i) (preBmBc x ! unat (y ! (i + j)) - int ?m + 1 + int i)"
      have "1 \<le> preBmGs x ! i" using preBmGs_bound [OF miss(1)] by blast
      then have s: "1 \<le> s" by (simp add: s_def)
      have no: "\<not> occurs_at x y k" if "k < j + nat s" for k
      proof (cases "k \<le> j")
        case True
        then show ?thesis
          using less.prems [of k] miss(1,3) occurs_at_nth [OF assms(1), of y j] by (cases "k = j") auto
      next
        case False
        then have "int (k - j) < s" "1 \<le> k - j" "j + (k - j) = k" using that by linarith+
        then show ?thesis
          using shift_safe [OF True miss(1,3,4), of "k - j"] by (auto simp: s_def)
      qed
      have "j < ?n" using True assms(1) by (cases x) auto
      then have "?n - (j + nat s) < ?n - j" using s by linarith
      from less.hyps [OF this no]
      have "bm_search (boyer_moore_init x) y (int (j + nat s)) = Some (first_match x y)" .
      moreover have "int (j + nat s) = int j + s" using s by simp
      moreover have "bm_search (boyer_moore_init x) y (int j) =
          bm_search (boyer_moore_init x) y (int j + s)"
        using True miss(2)
        by (subst bm_search.simps) (simp add: boyer_moore_init_def Let_def s_def nat_int_add)
      ultimately show ?thesis by simp
    qed
  qed
qed

subsection \<open>Properties\<close>

text \<open>C4: The search with precomputed tables returns, for every non-empty pattern and every text, the
position of the first occurrence, or \<open>-1\<close> if there is none: it ends, and the shifts of the bad-character
and good-suffix tables skip no occurrence.\<close>

theorem boyer_moore_first_match:
  assumes "x \<noteq> []"
  shows "boyer_moore2 (boyer_moore_init x) y = Some (first_match x y) \<and> boyer_moore x y = Some (first_match x y)"
  using bm_search_first [OF assms, of 0 y]
  by (simp add: boyer_moore2_def boyer_moore_def boyer_moore_init_def Let_def)

text \<open>A pattern with a period, in a text in which it first fails by its border.\<close>

lemma boyer_moore_first_match_witness:
  "boyer_moore2 (boyer_moore_init [1, 2, 1]) [1, 1, 2, 2, 1, 2, 1, 2] = Some 4"
proof -
  have "first_match [1, 2, 1] [1, 1, 2, 2, 1, 2, 1, 2 :: u8] = 4"
    by (simp add: first_match_def occurs_at_def upt_rec)
  then show ?thesis using boyer_moore_first_match [of "[1, 2, 1]" "[1, 1, 2, 2, 1, 2, 1, 2]"] by simp
qed

end
