(* ===== verification/Kpcr.thy ===== *)
theory Kpcr
  imports Pe_Parse Boyer_Moore
begin

text \<open>
  The kernel's debugger data block, \<^verbatim>\<open>os/windows/kpcr.c\<close>: the block is found by its signature in
  physical memory, and symbols are read from it by the offset of the member with the symbol's name. The
  search has a bound on the number of its blocks; \<open>None\<close> means that the bound was reached.
\<close>

unbundle bit_operations_syntax

subsection \<open>The structure\<close>

definition KDDEBUGGER_DATA64 :: layout where
  "KDDEBUGGER_DATA64 = [(''List'', 16), (''OwnerTag'', 4), (''Size'', 4), (''KernBase'', 8), (''BreakpointWithStatus'', 8),
     (''SavedContext'', 8), (''ThCallbackStack'', 2), (''NextCallback'', 2), (''FramePointer'', 2),
     (''PaeEnabled'', 2), (''KiCallUserMode'', 8), (''KeUserCallbackDispatcher'', 8),
     (''PsLoadedModuleList'', 8), (''PsActiveProcessHead'', 8), (''PspCidTable'', 8),
     (''ExpSystemResourcesList'', 8), (''ExpPagedPoolDescriptor'', 8), (''ExpNumberOfPagedPools'', 8),
     (''KeTimeIncrement'', 8), (''KeBugCheckCallbackListHead'', 8), (''KiBugcheckData'', 8),
     (''IopErrorLogListHead'', 8), (''ObpRootDirectoryObject'', 8), (''ObpTypeObjectType'', 8),
     (''MmSystemCacheStart'', 8), (''MmSystemCacheEnd'', 8), (''MmSystemCacheWs'', 8), (''MmPfnDatabase'', 8),
     (''MmSystemPtesStart'', 8), (''MmSystemPtesEnd'', 8), (''MmSubsectionBase'', 8),
     (''MmNumberOfPagingFiles'', 8), (''MmLowestPhysicalPage'', 8), (''MmHighestPhysicalPage'', 8),
     (''MmNumberOfPhysicalPages'', 8), (''MmMaximumNonPagedPoolInBytes'', 8), (''MmNonPagedSystemStart'', 8),
     (''MmNonPagedPoolStart'', 8), (''MmNonPagedPoolEnd'', 8), (''MmPagedPoolStart'', 8),
     (''MmPagedPoolEnd'', 8), (''MmPagedPoolInformation'', 8), (''MmPageSize'', 8),
     (''MmSizeOfPagedPoolInBytes'', 8), (''MmTotalCommitLimit'', 8), (''MmTotalCommittedPages'', 8),
     (''MmSharedCommit'', 8), (''MmDriverCommit'', 8), (''MmProcessCommit'', 8), (''MmPagedPoolCommit'', 8),
     (''MmExtendedCommit'', 8), (''MmZeroedPageListHead'', 8), (''MmFreePageListHead'', 8),
     (''MmStandbyPageListHead'', 8), (''MmModifiedPageListHead'', 8), (''MmModifiedNoWritePageListHead'', 8),
     (''MmAvailablePages'', 8), (''MmResidentAvailablePages'', 8), (''PoolTrackTable'', 8),
     (''NonPagedPoolDescriptor'', 8), (''MmHighestUserAddress'', 8), (''MmSystemRangeStart'', 8),
     (''MmUserProbeAddress'', 8), (''KdPrintCircularBuffer'', 8), (''KdPrintCircularBufferEnd'', 8),
     (''KdPrintWritePointer'', 8), (''KdPrintRolloverCount'', 8), (''MmLoadedUserImageList'', 8),
     (''NtBuildLab'', 8), (''KiNormalSystemCall'', 8), (''KiProcessorBlock'', 8), (''MmUnloadedDrivers'', 8),
     (''MmLastUnloadedDriver'', 8), (''MmTriageActionTaken'', 8), (''MmSpecialPoolTag'', 8),
     (''KernelVerifier'', 8), (''MmVerifierData'', 8), (''MmAllocatedNonPagedPool'', 8),
     (''MmPeakCommitment'', 8), (''MmTotalCommitLimitMaximum'', 8), (''CmNtCSDVersion'', 8),
     (''MmPhysicalMemoryBlock'', 8), (''MmSessionBase'', 8), (''MmSessionSize'', 8),
     (''MmSystemParentTablePage'', 8), (''MmVirtualTranslationBase'', 8), (''OffsetKThreadNextProcessor'', 2),
     (''OffsetKThreadTeb'', 2), (''OffsetKThreadKernelStack'', 2), (''OffsetKThreadInitialStack'', 2),
     (''OffsetKThreadApcProcess'', 2), (''OffsetKThreadState'', 2), (''OffsetKThreadBStore'', 2),
     (''OffsetKThreadBStoreLimit'', 2), (''SizeEProcess'', 2), (''OffsetEprocessPeb'', 2),
     (''OffsetEprocessParentCID'', 2), (''OffsetEprocessDirectoryTableBase'', 2), (''SizePrcb'', 2),
     (''OffsetPrcbDpcRoutine'', 2), (''OffsetPrcbCurrentThread'', 2), (''OffsetPrcbMhz'', 2),
     (''OffsetPrcbCpuType'', 2), (''OffsetPrcbVendorString'', 2), (''OffsetPrcbProcStateContext'', 2),
     (''OffsetPrcbNumber'', 2), (''SizeEThread'', 2), (''KdPrintCircularBufferPtr'', 8),
     (''KdPrintBufferSize'', 8), (''KeLoaderBlock'', 8), (''SizePcr'', 2), (''OffsetPcrSelfPcr'', 2),
     (''OffsetPcrCurrentPrcb'', 2), (''OffsetPcrContainedPrcb'', 2), (''OffsetPcrInitialBStore'', 2),
     (''OffsetPcrBStoreLimit'', 2), (''OffsetPcrInitialStack'', 2), (''OffsetPcrStackLimit'', 2),
     (''OffsetPrcbPcrPage'', 2), (''OffsetPrcbProcStateSpecialReg'', 2), (''GdtR0Code'', 2),
     (''GdtR0Data'', 2), (''GdtR0Pcr'', 2), (''GdtR3Code'', 2), (''GdtR3Data'', 2), (''GdtR3Teb'', 2),
     (''GdtLdt'', 2), (''GdtTss'', 2), (''Gdt64R3CmCode'', 2), (''Gdt64R3CmTeb'', 2),
     (''IopNumTriageDumpDataBlocks'', 8), (''IopTriageDumpDataBlocks'', 8), (''VfCrashDataBlock'', 8)]"

text \<open>The names that \<open>kpcr_symbol_offset\<close> compares with, in this order; each is that of a member.\<close>

definition kpcr_symbols :: "string list" where
  "kpcr_symbols = [''KernBase'', ''BreakpointWithStatus'', ''SavedContext'', ''KiCallUserMode'', ''KeUserCallbackDispatcher'',
     ''PsLoadedModuleList'', ''PsActiveProcessHead'', ''PspCidTable'', ''ExpSystemResourcesList'',
     ''ExpPagedPoolDescriptor'', ''ExpNumberOfPagedPools'', ''KeTimeIncrement'',
     ''KeBugCheckCallbackListHead'', ''KiBugcheckData'', ''IopErrorLogListHead'', ''ObpRootDirectoryObject'',
     ''ObpTypeObjectType'', ''MmSystemCacheStart'', ''MmSystemCacheEnd'', ''MmSystemCacheWs'',
     ''MmPfnDatabase'', ''MmSystemPtesStart'', ''MmSystemPtesEnd'', ''MmSubsectionBase'',
     ''MmNumberOfPagingFiles'', ''MmLowestPhysicalPage'', ''MmHighestPhysicalPage'',
     ''MmNumberOfPhysicalPages'', ''MmMaximumNonPagedPoolInBytes'', ''MmNonPagedSystemStart'',
     ''MmNonPagedPoolStart'', ''MmNonPagedPoolEnd'', ''MmPagedPoolStart'', ''MmPagedPoolEnd'',
     ''MmPagedPoolInformation'', ''MmPageSize'', ''MmSizeOfPagedPoolInBytes'', ''MmTotalCommitLimit'',
     ''MmTotalCommittedPages'', ''MmSharedCommit'', ''MmDriverCommit'', ''MmProcessCommit'',
     ''MmPagedPoolCommit'', ''MmExtendedCommit'', ''MmZeroedPageListHead'', ''MmFreePageListHead'',
     ''MmStandbyPageListHead'', ''MmModifiedPageListHead'', ''MmModifiedNoWritePageListHead'',
     ''MmAvailablePages'', ''MmResidentAvailablePages'', ''PoolTrackTable'', ''NonPagedPoolDescriptor'',
     ''MmHighestUserAddress'', ''MmSystemRangeStart'', ''MmUserProbeAddress'', ''KdPrintCircularBuffer'',
     ''KdPrintCircularBufferEnd'', ''KdPrintWritePointer'', ''KdPrintRolloverCount'',
     ''MmLoadedUserImageList'', ''NtBuildLab'', ''KiNormalSystemCall'', ''KiProcessorBlock'',
     ''MmUnloadedDrivers'', ''MmLastUnloadedDriver'', ''MmTriageActionTaken'', ''MmSpecialPoolTag'',
     ''KernelVerifier'', ''MmVerifierData'', ''MmAllocatedNonPagedPool'', ''MmPeakCommitment'',
     ''MmTotalCommitLimitMaximum'', ''CmNtCSDVersion'', ''MmPhysicalMemoryBlock'', ''MmSessionBase'',
     ''MmSessionSize'', ''MmSystemParentTablePage'', ''MmVirtualTranslationBase'',
     ''KdPrintCircularBufferPtr'', ''KdPrintBufferSize'', ''KeLoaderBlock'', ''IopNumTriageDumpDataBlocks'',
     ''IopTriageDumpDataBlocks'', ''VfCrashDataBlock'']"

definition kpcr_symbol_offset :: "string \<Rightarrow> u64 option" where
  "kpcr_symbol_offset symbol = (case find (strncmp_eq 50 symbol) kpcr_symbols of
     None \<Rightarrow> None
   | Some f \<Rightarrow> map_option of_nat (offset_of KDDEBUGGER_DATA64 f))"

definition kpcr_symbol_resolve :: "env \<Rightarrow> u64 \<Rightarrow> addr_t \<Rightarrow> (status_t \<times> addr_t) vm" where
  "kpcr_symbol_resolve E offset address = do {
     w \<leftarrow> gets windows_os;
     (st, tmp) \<leftarrow> vmi_read_X_kva E (kdversion_block w + offset) (0 :: u64);
     return (if st = VMI_FAILURE then (VMI_FAILURE, address) else (VMI_SUCCESS, tmp)) }"

subsection \<open>Finding the block\<close>

definition set_version :: "win_ver_t \<Rightarrow> unit vm" where
  "set_version v = modify (\<lambda>s. s\<lparr>windows_os := (windows_os s)\<lparr>version := v\<rparr>\<rparr>)"

definition version_of_size :: "u16 \<Rightarrow> win_ver_t" where
  "version_of_size sz =
     (if sz = 0x0208 then VMI_OS_WINDOWS_2000 else if sz = 0x0290 then VMI_OS_WINDOWS_XP
      else if sz = 0x0318 then VMI_OS_WINDOWS_2003 else if sz = 0x0328 then VMI_OS_WINDOWS_VISTA
      else if sz = 0x0330 then VMI_OS_WINDOWS_2008 else if sz = 0x0340 then VMI_OS_WINDOWS_7
      else VMI_OS_WINDOWS_UNKNOWN)"

definition find_windows_version :: "env \<Rightarrow> addr_t \<Rightarrow> unit vm" where
  "find_windows_version E KdVersionBlock = do {
     w \<leftarrow> gets windows_os;
     if version w \<noteq> VMI_OS_WINDOWS_NONE \<and> version w \<noteq> VMI_OS_WINDOWS_UNKNOWN then return ()
     else do {
       (_, sz) \<leftarrow> vmi_read_16_pa E (KdVersionBlock + 0x14) 0;
       set_version (version_of_size sz) } }"

definition kdbg_pattern :: "page_mode_t \<Rightarrow> u8 list" where
  "kdbg_pattern pm = (if pm = VMI_PM_IA32E then [0x00, 0xF8, 0xFF, 0xFF, 0x4B, 0x44, 0x42, 0x47]
     else [0, 0, 0, 0, 0, 0, 0, 0, 0x4B, 0x44, 0x42, 0x47])"

definition find_ofs :: "page_mode_t \<Rightarrow> addr_t" where
  "find_ofs pm = (if pm = VMI_PM_IA32E then 0xC else 0x8)"

text \<open>\<open>memcmp\<close> looks at 8 bytes in IA-32e mode.\<close>

primrec kdvb_slow_loop :: "env \<Rightarrow> nat \<Rightarrow> addr_t \<Rightarrow> addr_t option vm" where
  "kdvb_slow_loop E 0 paddr = return None"
| "kdvb_slow_loop E (Suc fuel) paddr = do {
     memsize \<leftarrow> gets vmi_size;
     pm \<leftarrow> gets page_mode;
     if memsize \<le> paddr then return (Some 0)
     else do {
       buf \<leftarrow> vmi_read_pa E paddr 12;
       if length buf = 12 \<and> take (length (kdbg_pattern pm)) buf = kdbg_pattern pm
       then return (Some (paddr - find_ofs pm))
       else kdvb_slow_loop E fuel (paddr + 4) } }"

definition find_kdversionblock_address :: "env \<Rightarrow> nat \<Rightarrow> addr_t option vm" where
  "find_kdversionblock_address E fuel = kdvb_slow_loop E fuel 0"

definition KD_BLOCK_SIZE :: u64 where "KD_BLOCK_SIZE = 1024 * 1024 * 1"

primrec kdvb_loop :: "env \<Rightarrow> boyer_moore_data \<Rightarrow> addr_t \<Rightarrow> addr_t \<Rightarrow> nat \<Rightarrow> addr_t \<Rightarrow> addr_t option vm" where
  "kdvb_loop E bm ofs memsize 0 block_pa = return None"
| "kdvb_loop E bm ofs memsize (Suc fuel) block_pa =
     (if memsize \<le> block_pa then return (Some 0)
      else do {
        haystack \<leftarrow> vmi_read_pa E block_pa KD_BLOCK_SIZE;
        if length haystack \<noteq> unat KD_BLOCK_SIZE
        then kdvb_loop E bm ofs memsize fuel (block_pa + KD_BLOCK_SIZE)
        else (case boyer_moore2 bm haystack of
            None \<Rightarrow> return None
          | Some match_offset \<Rightarrow>
              if match_offset \<noteq> -1 then return (Some (block_pa + of_int match_offset - ofs))
              else kdvb_loop E bm ofs memsize fuel (block_pa + KD_BLOCK_SIZE)) })"

definition find_kdversionblock_address_fast :: "env \<Rightarrow> nat \<Rightarrow> addr_t option vm" where
  "find_kdversionblock_address_fast E fuel = do {
     memsize \<leftarrow> gets vmi_size;
     pm \<leftarrow> gets page_mode;
     let bm = boyer_moore_init (kdbg_pattern pm);
     kdvb_loop E bm (find_ofs pm) memsize fuel 4096 }"

definition init_kdversion_block :: "env \<Rightarrow> nat \<Rightarrow> status_t option vm" where
  "init_kdversion_block E fuel = obind (find_kdversionblock_address_fast E fuel) (\<lambda>KdVersionBlock_phys.
     if KdVersionBlock_phys = 0
     then do { set_version VMI_OS_WINDOWS_UNKNOWN; return (Some VMI_FAILURE) }
     else do {
       find_windows_version E KdVersionBlock_phys;
       (st, DebuggerDataList) \<leftarrow> vmi_read_addr_pa E KdVersionBlock_phys 0;
       if st = VMI_FAILURE then do { set_version VMI_OS_WINDOWS_UNKNOWN; return (Some VMI_FAILURE) }
       else do {
         (st, ListPtr) \<leftarrow> vmi_read_addr_kva E DebuggerDataList 0;
         if st = VMI_FAILURE then do { set_version VMI_OS_WINDOWS_UNKNOWN; return (Some VMI_FAILURE) }
         else do {
           w \<leftarrow> gets windows_os;
           (if ListPtr \<noteq> 0 \<and> kdversion_block w = 0
            then modify (\<lambda>s. s\<lparr>windows_os := (windows_os s)\<lparr>kdversion_block := ListPtr\<rparr>\<rparr>)
            else return ());
           return (Some VMI_SUCCESS) } } })"

definition windows_kpcr_lookup :: "env \<Rightarrow> nat \<Rightarrow> string \<Rightarrow> addr_t \<Rightarrow> (status_t \<times> addr_t) option vm" where
  "windows_kpcr_lookup E fuel symbol address = do {
     w \<leftarrow> gets windows_os;
     obind (if kdversion_block w = 0 then init_kdversion_block E fuel else return (Some VMI_SUCCESS)) (\<lambda>st.
       if st = VMI_FAILURE then return (Some (VMI_FAILURE, address))
       else (case kpcr_symbol_offset symbol of
           None \<Rightarrow> return (Some (VMI_FAILURE, address))
         | Some offset \<Rightarrow> do { r \<leftarrow> kpcr_symbol_resolve E offset address; return (Some r) })) }"

subsection \<open>Searching memory block by block\<close>

text \<open>
  The searches of this library for a signature and for a process have one shape: a loop over blocks of
  1 MB that ends with 0 at the end of memory, and with what it finds in the first block in which it finds
  something. \<open>hit\<close> is what there is to find in the block at an address.
\<close>

definition block_at :: "addr_t \<Rightarrow> nat \<Rightarrow> addr_t" where
  "block_at start n = start + of_nat n * 0x100000"

text \<open>The number of blocks that start below the end of memory.\<close>

definition blocks_from :: "addr_t \<Rightarrow> addr_t \<Rightarrow> nat" where
  "blocks_from start memsize = (unat memsize - unat start + 0xFFFFF) div 0x100000"

definition first_hit :: "(addr_t \<Rightarrow> addr_t option) \<Rightarrow> addr_t \<Rightarrow> nat list \<Rightarrow> addr_t" where
  "first_hit hit start ns = (case find (\<lambda>n. hit (block_at start n) \<noteq> None) ns of
     None \<Rightarrow> 0 | Some n \<Rightarrow> the (hit (block_at start n)))"

lemma first_hit_simps [simp]:
  "first_hit hit start [] = 0"
  "first_hit hit start (n # ns) =
    (case hit (block_at start n) of None \<Rightarrow> first_hit hit start ns | Some a \<Rightarrow> a)"
  by (auto simp: first_hit_def split: option.split)

lemma block_at_Suc: "block_at start n + KD_BLOCK_SIZE = block_at start (Suc n)"
  by (simp add: block_at_def KD_BLOCK_SIZE_def algebra_simps)

lemma unat_block_at:
  "unat start + n * 0x100000 < 2 ^ 64 \<Longrightarrow> unat (block_at start n) = unat start + n * 0x100000"
  by (simp add: block_at_def unat_word_ariths unsigned_of_nat take_bit_eq_mod)

locale block_scan =
  fixes J :: "vmi \<Rightarrow> bool" and loop :: "nat \<Rightarrow> addr_t \<Rightarrow> addr_t option vm" and memsize :: addr_t
    and hit :: "vmi \<Rightarrow> addr_t \<Rightarrow> addr_t option"
  assumes scan_end: "memsize \<le> pa \<Longrightarrow> reads J core (loop (Suc fuel) pa) (\<lambda>s. Some 0)"
    and scan_step: "pa < memsize \<Longrightarrow> reads J core (loop fuel (pa + KD_BLOCK_SIZE)) (\<lambda>s. Some (g s)) \<Longrightarrow>
      reads J core (loop (Suc fuel) pa) (\<lambda>s. Some (case hit s pa of None \<Rightarrow> g s | Some a \<Rightarrow> a))"
begin

lemma reads_scan:
  assumes "unat memsize \<le> unat start + (n + k) * 0x100000"
    and "k \<noteq> 0 \<longrightarrow> unat start + (n + (k - 1)) * 0x100000 < unat memsize"
    and "unat start + (n + k) * 0x100000 < 2 ^ 64" "k < fuel"
  shows "reads J core (loop fuel (block_at start n)) (\<lambda>s. Some (first_hit (hit s) start [n..<n + k]))"
  using assms
proof (induction k arbitrary: n fuel)
  case 0
  then obtain f where f: "fuel = Suc f" by (cases fuel) auto
  have "memsize \<le> block_at start n" using 0 by (simp add: word_le_nat_alt unat_block_at)
  from scan_end [OF this] show ?case by (simp add: f)
next
  case (Suc k)
  then obtain f where f: "fuel = Suc f" by (cases fuel) auto
  have "unat start + n * 0x100000 < unat memsize" using Suc.prems(2) by simp
  then have lt: "block_at start n < memsize" using Suc.prems(3) by (simp add: word_less_nat_alt unat_block_at)
  have "reads J core (loop f (block_at start n + KD_BLOCK_SIZE))
      (\<lambda>s. Some (first_hit (hit s) start [Suc n..<Suc n + k]))"
    unfolding block_at_Suc using Suc.prems f by (intro Suc.IH) auto
  moreover have "[n..<n + Suc k] = n # [Suc n..<Suc n + k]" by (simp add: upt_rec)
  ultimately show ?case using scan_step [OF lt] by (simp only: f first_hit_simps)
qed

lemma reads_blocks:
  assumes "blocks_from start memsize < fuel" "unat memsize \<le> 2 ^ 62"
  shows "reads J core (loop fuel start) (\<lambda>s. Some (first_hit (hit s) start [0..<blocks_from start memsize]))"
proof (cases "memsize \<le> start")
  case True
  then have "unat memsize - unat start = 0" by (simp add: word_le_nat_alt)
  then have "blocks_from start memsize = 0" by (simp add: blocks_from_def)
  moreover obtain f where "fuel = Suc f" using assms(1) by (cases fuel) auto
  ultimately show ?thesis using scan_end [OF True] by simp
next
  case False
  define b where "b = blocks_from start memsize"
  have b: "b * 0x100000 \<le> unat memsize - unat start + 0xFFFFF"
      "unat memsize - unat start + 0xFFFFF < (b + 1) * 0x100000"
    unfolding b_def blocks_from_def by (simp_all add: div_times_less_eq_dividend dividend_less_times_div)
  have less: "unat start < unat memsize" using False by (simp add: word_le_nat_alt)
  have fits: "unat memsize \<le> unat start + (0 + b) * 0x100000" using b(2) less by simp
  have last: "b \<noteq> 0 \<longrightarrow> unat start + (0 + (b - 1)) * 0x100000 < unat memsize" using b(1) less by (cases b) auto
  have small: "unat start + (0 + b) * 0x100000 < 2 ^ 64" using b(1) assms(2) less by simp
  show ?thesis
    using reads_scan [OF fits last small, of fuel] assms(1) by (simp add: block_at_def b_def)
qed

end

subsection \<open>The search for the signature\<close>

text \<open>The signature in a block: not if the block cannot be read as a whole.\<close>

definition signature_in :: "env \<Rightarrow> u8 list \<Rightarrow> addr_t \<Rightarrow> vmi \<Rightarrow> addr_t \<Rightarrow> addr_t option" where
  "signature_in E pat ofs s pa = (let bs = phys_bytes E s pa 0x100000; m = first_match pat bs
     in if length bs = 0x100000 \<and> m \<noteq> -1 then Some (pa + of_int m - ofs) else None)"

lemma signature_in_core [simp]: "signature_in E pat ofs (core s) = signature_in E pat ofs s"
  by (simp add: signature_in_def fun_eq_iff)

lemma kdbg_pattern_ne: "kdbg_pattern pm \<noteq> []"
  by (simp add: kdbg_pattern_def)

lemma unat_block_size: "unat KD_BLOCK_SIZE = 0x100000" "unat KD_BLOCK_SIZE < 2 ^ 63"
  by (simp_all add: KD_BLOCK_SIZE_def)

context page_source
begin

lemma reads_kdvb_step:
  assumes "pa < memsize" "pat \<noteq> []"
    and "reads I core (kdvb_loop E (boyer_moore_init pat) ofs memsize fuel (pa + KD_BLOCK_SIZE)) (\<lambda>s. Some (g s))"
  shows "reads I core (kdvb_loop E (boyer_moore_init pat) ofs memsize (Suc fuel) pa)
    (\<lambda>s. Some (case signature_in E pat ofs s pa of None \<Rightarrow> g s | Some a \<Rightarrow> a))"
proof -
  have lt: "\<not> memsize \<le> pa" using assms(1) by simp
  have bm: "boyer_moore2 (boyer_moore_init pat) y = Some (first_match pat y)" for y
    using bm_search_first [OF assms(2), of 0 y] by (simp add: boyer_moore2_def boyer_moore_init_def)
  show ?thesis
    unfolding kdvb_loop.simps if_not_P [OF lt] bm option.case
    by (rule reads_weaken, (rule reads_bind reads_if reads_return assms(3) reads_vmi_read_pa [OF unat_block_size(2)])+)
      (simp add: unat_block_size signature_in_def Let_def)
qed

end

interpretation kdvb: block_scan "vm_ok E" "kdvb_loop E (boyer_moore_init (kdbg_pattern pm)) ofs memsize" memsize
    "signature_in E (kdbg_pattern pm) ofs" for E pm ofs memsize
proof
  show "reads (vm_ok E) core (kdvb_loop E (boyer_moore_init (kdbg_pattern pm)) ofs memsize (Suc fuel) pa) (\<lambda>s. Some 0)"
    if "memsize \<le> pa" for pa fuel
    using that by (simp add: reads_return)
qed (rule phys.reads_kdvb_step [OF _ kdbg_pattern_ne])

subsection \<open>The symbols\<close>

lemma kpcr_symbols_wide: "kpcr_symbols = map fst (filter (\<lambda>(f, w). w = 8) KDDEBUGGER_DATA64)"
  by (simp add: kpcr_symbols_def KDDEBUGGER_DATA64_def)

lemma kpcr_symbols_short: "f \<in> set kpcr_symbols \<Longrightarrow> length f < 50"
proof -
  have "list_all (\<lambda>f. length f < 50) kpcr_symbols" by (simp add: kpcr_symbols_def)
  then show "f \<in> set kpcr_symbols \<Longrightarrow> length f < 50" by (simp add: list_all_iff)
qed

text \<open>No shorter member has the name of a symbol: their names begin differently.\<close>

definition symbol_starts :: "string list" where
  "symbol_starts = [''Ke'', ''Br'', ''Sa'', ''Ki'', ''Ps'', ''Ex'', ''Io'', ''Ob'', ''Mm'', ''Po'', ''No'', ''Kd'',
     ''Nt'', ''Cm'', ''Vf'']"

lemma symbols_start: "list_all (\<lambda>f. take 2 f \<in> set symbol_starts) kpcr_symbols"
  by (simp add: kpcr_symbols_def symbol_starts_def)

lemma narrow_members: "list_all (\<lambda>(f, w). w = 8 \<or> take 2 f \<notin> set symbol_starts) KDDEBUGGER_DATA64"
  by (simp add: KDDEBUGGER_DATA64_def symbol_starts_def)

lemma member_width:
  assumes "f \<in> fst ` set l" "\<And>w. (f, w) \<in> set l \<Longrightarrow> w = k"
  shows "\<exists>ofs. member l f = Some (ofs, k)"
  using assms by (induction l) (auto, metis fst_conv image_eqI)

lemma kpcr_member:
  assumes "f \<in> set kpcr_symbols"
  obtains ofs where "member KDDEBUGGER_DATA64 f = Some (ofs, 8)" "ofs + 8 \<le> layout_size KDDEBUGGER_DATA64"
proof -
  have "w = 8" if "(f, w) \<in> set KDDEBUGGER_DATA64" for w
    using narrow_members symbols_start assms that unfolding list_all_iff by fast
  moreover have "f \<in> fst ` set KDDEBUGGER_DATA64" using assms by (auto simp: kpcr_symbols_wide)
  ultimately obtain ofs where "member KDDEBUGGER_DATA64 f = Some (ofs, 8)" using member_width by metis
  with that member_in_layout [OF this] show ?thesis by simp
qed

lemma strncmp_known: "length f < 50 \<Longrightarrow> strncmp_eq 50 symbol f \<longleftrightarrow> symbol = f"
  by (auto simp: strncmp_eq_def)

lemma find_known: "find (strncmp_eq 50 symbol) kpcr_symbols = (if symbol \<in> set kpcr_symbols then Some symbol else None)"
proof -
  have "find (strncmp_eq 50 symbol) l = (if symbol \<in> set l then Some symbol else None)"
    if "\<forall>f \<in> set l. length f < 50" for l
    using that by (induction l) (auto simp: strncmp_known)
  then show ?thesis using kpcr_symbols_short by blast
qed

subsection \<open>Properties\<close>

text \<open>C12: Looking for the debugger data block gives the first occurrence of the signature in the first
  whole block of 1 MB, from frame 1 on, that can be read and contains it, less the signature's offset in the block, and
  0 if there is none, for a memory of at most \<open>2 ^ 62\<close> bytes; a bound above the number of blocks is enough for the
  search to end.\<close>

theorem find_kdversionblock_first:
  assumes "vm_ok E s" and "unat (vmi_size s) \<le> 2 ^ 62" and "blocks_from 4096 (vmi_size s) < fuel"
  shows "fst (run_state (find_kdversionblock_address_fast E fuel) s) = Some (first_hit
    (signature_in E (kdbg_pattern (page_mode s)) (find_ofs (page_mode s)) s) 4096 [0..<blocks_from 4096 (vmi_size s)])"
  using reads_run [OF kdvb.reads_blocks [OF assms(3,2)] assms(1) surjective_pairing, of "page_mode s" "find_ofs (page_mode s)"]
  by (simp add: find_kdversionblock_address_fast_def)

text \<open>A guest whose first block of 1 MB, from frame 1 on, holds the given bytes.\<close>

definition block_guest :: "(addr_t \<Rightarrow> u8) \<Rightarrow> windows_instance \<Rightarrow> vmi" where
  "block_guest m w = xen_guest m\<lparr>vmi_size := 0x2000, windows_os := w\<rparr>"

lemma block_guest_ok:
  "vm_ok xen_env (block_guest m w)" "page_mode (block_guest m w) = VMI_PM_UNKNOWN"
  "vmi_size (block_guest m w) = 0x2000" "windows_os (block_guest m w) = w"
  by (simp_all add: vm_ok_def page_cache_ok_def backing_ready_def entries_ok_def block_guest_def xen_guest_def
      attach_def attached_def xen_vmi_def zeroed_vmi_def)

lemma block_guest_byte: "drop_bit 12 a \<noteq> 0 \<Longrightarrow> phys_byte xen_env (block_guest m w) a = Some (m a)"
  using page_base_offset [of a]
  by (simp add: phys_byte_def frame_read_def frame_page_def page_fetch_def memory_of_def Let_def
      page_byte_def push_drop_drop block_guest_def xen_guest_def attach_def xen_vmi_def zeroed_vmi_def
      xen_env_def beyond_memory_def)

lemma in_block:
  assumes "i < 0x101000"
  shows "unat (0x1000 + of_nat i :: u64) = 0x1000 + i" "drop_bit 12 (0x1000 + of_nat i :: u64) \<noteq> 0"
proof -
  show u: "unat (0x1000 + of_nat i :: u64) = 0x1000 + i"
    using assms by (simp add: unat_word_ariths unsigned_of_nat take_bit_eq_mod)
  have "unat (drop_bit 12 (0x1000 + of_nat i :: u64)) = (0x1000 + i) div 2 ^ 12"
    unfolding unat_drop_bit_eq unfolding u drop_bit_eq_div ..
  then show "drop_bit 12 (0x1000 + of_nat i :: u64) \<noteq> 0" by (auto simp: div_add_self1)
qed

lemma block_guest_bytes:
  "n \<le> 0x101000 \<Longrightarrow> phys_bytes xen_env (block_guest m w) 0x1000 n = map (\<lambda>i. m (0x1000 + of_nat i)) [0..<n]"
  by (rule phys_bytes_all) (use block_guest_byte in_block in auto)

definition kdbg_memory :: "addr_t \<Rightarrow> u8" where
  "kdbg_memory = (\<lambda>_. 0)(0x5008 := 0x4B, 0x5009 := 0x44, 0x500A := 0x42, 0x500B := 0x47)"

lemma take_drop_map: "j + w \<le> n \<Longrightarrow> take w (drop j (map f [0..<n])) = map f [j..<j + w]"
  by (simp add: take_map drop_map take_upt)

lemma kdbg_memory_K: "kdbg_memory a = 0x4B \<longleftrightarrow> a = 0x5008"
  by (simp add: kdbg_memory_def)

lemma find_kdversionblock_first_witness:
  "fst (run_state (find_kdversionblock_address_fast xen_env 2) (block_guest kdbg_memory (windows_os zeroed_vmi)))
    = Some 0x4FF8"
proof -
  let ?s = "block_guest kdbg_memory (windows_os zeroed_vmi)" and ?p = "kdbg_pattern VMI_PM_UNKNOWN"
  define bs where "bs = map (\<lambda>i. kdbg_memory (0x1000 + of_nat i)) [0..<0x100000]"
  have nth: "bs ! i = kdbg_memory (0x1000 + of_nat i)" if "i < 0x100000" for i
    using that by (simp add: bs_def)
  have len: "length bs = 0x100000" by (simp add: bs_def)
  have at: "0x1000 + of_nat i = (0x5008 :: u64) \<longleftrightarrow> i = 0x4008" if "i < 0x100000" for i
    using in_block(1) [of i] that by (simp add: word_unat_eq_iff)
  have here: "occurs_at ?p bs 0x4000"
  proof -
    have "take 12 (drop 0x4000 bs) = map (\<lambda>i. kdbg_memory (0x1000 + of_nat i)) [0x4000..<0x4000 + 12]"
      unfolding bs_def by (rule take_drop_map) simp
    also have "\<dots> = ?p" by (simp add: upt_rec kdbg_memory_def kdbg_pattern_def)
    finally have t: "take 12 (drop 0x4000 bs) = ?p" .
    have "length ?p = 12" by (simp add: kdbg_pattern_def)
    with t show ?thesis by (simp only: occurs_at_def)
  qed
  have before: "\<not> occurs_at ?p bs k" if "k < 0x4000" for k
  proof
    assume "occurs_at ?p bs k"
    moreover have "?p \<noteq> []" "8 < length ?p" "?p ! 8 = 0x4B" by (simp_all add: kdbg_pattern_def)
    ultimately have "bs ! (8 + k) = 0x4B" using occurs_at_nth [of ?p bs k] by metis
    then have "kdbg_memory (0x1000 + of_nat (8 + k)) = 0x4B" using nth [of "8 + k"] that by simp
    then show False using at [of "8 + k"] that unfolding kdbg_memory_K by simp
  qed
  have "first_match ?p bs = 0x4000"
    using first_match_Some [OF _ here before] by (simp add: kdbg_pattern_def)
  then have "signature_in xen_env ?p 8 ?s 0x1000 = Some 0x4FF8"
    by (simp add: signature_in_def block_guest_bytes bs_def [symmetric] len)
  then show ?thesis
    using find_kdversionblock_first [OF block_guest_ok(1), of _ _ 2]
    by (simp add: block_guest_ok blocks_from_def block_at_def find_ofs_def)
qed

text \<open>Every symbol the lookup knows is an 8-byte member of the debugger data block, inside the block,
and its value is what the guest holds at that member's offset; for every other name the lookup fails and
the caller's variable keeps its value.\<close>

theorem windows_kpcr_lookup_member:
  assumes "view E D c s" and "kdversion_block (windows_os s) \<noteq> 0"
  shows "(symbol \<in> set kpcr_symbols \<and> (\<exists>ofs. member KDDEBUGGER_DATA64 symbol = Some (ofs, 8)
        \<and> ofs + 8 \<le> layout_size KDDEBUGGER_DATA64
        \<and> fst (run_state (windows_kpcr_lookup E fuel symbol address) s) =
          (case virt_word E s (kpgd s) (kdversion_block (windows_os s) + of_nat ofs) (0 :: u64) of
             (VMI_SUCCESS, v) \<Rightarrow> Some (VMI_SUCCESS, v) | (VMI_FAILURE, _) \<Rightarrow> Some (VMI_FAILURE, address))))
    \<or> (symbol \<notin> set kpcr_symbols \<and> run_state (windows_kpcr_lookup E fuel symbol address) s
        = (Some (VMI_FAILURE, address), s))"
proof (cases "symbol \<in> set kpcr_symbols")
  case False
  then show ?thesis
    using assms(2) by (simp add: windows_kpcr_lookup_def kpcr_symbol_offset_def find_known run_obind)
next
  case True
  then obtain ofs where m: "member KDDEBUGGER_DATA64 symbol = Some (ofs, 8)" "ofs + 8 \<le> layout_size KDDEBUGGER_DATA64"
    by (rule kpcr_member)
  let ?va = "kdversion_block (windows_os s) + of_nat ofs"
  obtain st v where v: "virt_word E s (kpgd s) ?va (0 :: u64) = (st, v)" by (rule prod.exhaust)
  then obtain t where "run_state (vmi_read_X_kva E ?va (0 :: u64)) s = ((st, v), t)"
    using reads_run [OF kern.reads_read_width_va(4) assms(1) surjective_pairing, of ?va 0] by (simp add: prod_eq_iff)
  then have "fst (run_state (windows_kpcr_lookup E fuel symbol address) s) =
      (case (st, v) of (VMI_SUCCESS, v) \<Rightarrow> Some (VMI_SUCCESS, v) | (VMI_FAILURE, _) \<Rightarrow> Some (VMI_FAILURE, address))"
    using assms(2) True m(1)
    by (cases st) (simp_all add: windows_kpcr_lookup_def kpcr_symbol_offset_def find_known run_obind offset_of_def
        kpcr_symbol_resolve_def)
  with True m v show ?thesis by (auto simp del: split_paired_Ex)
qed


definition kdbg_guest :: vmi where
  "kdbg_guest = flat_guest ((\<lambda>_. 0)(0x401018 := 0x34, 0x401019 := 0x12)) 0 (linux_os zeroed_vmi)
     ((windows_os zeroed_vmi)\<lparr>kdversion_block := 0x401000\<rparr>) VMI_OS_WINDOWS"

lemma windows_kpcr_lookup_member_witness:
  "fst (run_state (windows_kpcr_lookup xen_env 0 ''KernBase'' 0) kdbg_guest) = Some (VMI_SUCCESS, 0x1234)"
proof -
  have "in_flat (0x401018 + of_nat j)" if "j < 8" for j :: nat
    using in_flat_add [of "0x401018" j] that by simp
  then have v: "virt_word xen_env kdbg_guest 0x1000 0x401018 (0 :: u64) = (VMI_SUCCESS, 0x1234)"
    unfolding kdbg_guest_def by (subst flat_guest_word) (simp_all add: upt_rec le_word_def)
  have "''KernBase'' \<in> set kpcr_symbols" "member KDDEBUGGER_DATA64 ''KernBase'' = Some (24, 8)"
    by (simp_all add: kpcr_symbols_def KDDEBUGGER_DATA64_def)
  moreover have "view xen_env {0x1000} (Map.empty, Map.empty) kdbg_guest"
    unfolding kdbg_guest_def by (rule flat_guest_view)
  moreover have "kdversion_block (windows_os kdbg_guest) = 0x401000" "kpgd kdbg_guest = 0x1000"
    by (simp_all add: kdbg_guest_def)
  ultimately show ?thesis
    using windows_kpcr_lookup_member [of xen_env "{0x1000}" "(Map.empty, Map.empty)" kdbg_guest "''KernBase''" 0 0] v
    by simp
qed

end
