(* ===== verification/Windows_Proc.thy ===== *)
theory Windows_Proc
  imports Kpcr
begin

text \<open>
  Windows guests: symbols and the process list of \<^verbatim>\<open>os/windows/memory.c\<close>, and the search of physical
  memory for process structures of \<^verbatim>\<open>os/windows/process.c\<close>. Walks and searches have a bound on the number
  of their rounds; \<open>None\<close> means that it was reached.
\<close>

unbundle bit_operations_syntax

subsection \<open>os/windows/memory.c\<close>

text \<open>The value of CR3 is looked up and not used.\<close>

definition windows_symbol_to_address :: "env \<Rightarrow> nat \<Rightarrow> string \<Rightarrow> addr_t \<Rightarrow> (status_t \<times> addr_t) option vm" where
  "windows_symbol_to_address E fuel symbol address = do {
     k \<leftarrow> gets kpgd;
     (if k \<noteq> 0 then return () else do { _ \<leftarrow> driver_get_vcpureg E 0 CR3 0; return () });
     obind (windows_kpcr_lookup E fuel symbol address) (\<lambda>(st, address).
       if st = VMI_SUCCESS then return (Some (VMI_SUCCESS, address))
       else obind (windows_export_to_rva E fuel (bytes_of symbol) address) (\<lambda>(st, rva).
         if st = VMI_SUCCESS then do {
           w \<leftarrow> gets windows_os;
           return (Some (VMI_SUCCESS, ntoskrnl_va w + rva)) }
         else return (Some (VMI_FAILURE, rva)))) }"

primrec eprocess_loop :: "env \<Rightarrow> nat \<Rightarrow> cint \<Rightarrow> cint \<Rightarrow> cint \<Rightarrow> addr_t \<Rightarrow> addr_t \<Rightarrow> cint \<Rightarrow> addr_t option vm" where
  "eprocess_loop E 0 pid pid_offset tasks_offset list_head next_process task_pid = return None"
| "eprocess_loop E (Suc fuel) pid pid_offset tasks_offset list_head next_process task_pid = do {
     (_, next_process_tmp) \<leftarrow> vmi_read_addr_kva E next_process 0;
     if list_head = next_process_tmp then return (Some 0)
     else do {
       (_, task_pid) \<leftarrow> vmi_read_X_kva E (next_process + scast pid_offset - scast tasks_offset) task_pid;
       if task_pid = pid then return (Some next_process)
       else eprocess_loop E fuel pid pid_offset tasks_offset
         (if list_head = 0 then next_process_tmp else list_head) next_process_tmp task_pid } }"

definition windows_get_EPROCESS :: "env \<Rightarrow> nat \<Rightarrow> cint \<Rightarrow> addr_t option vm" where
  "windows_get_EPROCESS E fuel pid = do {
     w \<leftarrow> gets windows_os;
     next_process \<leftarrow> gets init_task;
     eprocess_loop E fuel pid (win_pid_offset w) (win_tasks_offset w) 0 next_process 0 }"

definition windows_pid_to_pgd :: "env \<Rightarrow> nat \<Rightarrow> cint \<Rightarrow> addr_t option vm" where
  "windows_pid_to_pgd E fuel pid = do {
     w \<leftarrow> gets windows_os;
     obind (windows_get_EPROCESS E fuel pid) (\<lambda>eprocess.
       if eprocess = 0 then return (Some 0)
       else do {
         (_, pgd) \<leftarrow> vmi_read_addr_kva E (eprocess + scast (win_pdbase_offset w) - scast (win_tasks_offset w)) 0;
         return (Some pgd) }) }"

subsection \<open>os/windows/process.c\<close>

definition windows_get_eprocess_name :: "env \<Rightarrow> addr_t \<Rightarrow> u8 list option vm" where
  "windows_get_eprocess_name E paddr = do {
     w \<leftarrow> gets windows_os;
     bs \<leftarrow> vmi_read_pa E (paddr + scast (win_pname_offset w)) 16;
     return (if length bs = 16 then Some bs else None) }"

definition MAGIC1 :: u32 where "MAGIC1 = 0x1b0003"
definition MAGIC2 :: u32 where "MAGIC2 = 0x200003"
definition MAGIC3 :: u32 where "MAGIC3 = 0x580003"

definition check_magic_2k :: "u32 \<Rightarrow> bool" where "check_magic_2k a \<longleftrightarrow> a = MAGIC1"
definition check_magic_xp :: "u32 \<Rightarrow> bool" where "check_magic_xp a \<longleftrightarrow> a = MAGIC1"
definition check_magic_2k3 :: "u32 \<Rightarrow> bool" where "check_magic_2k3 a \<longleftrightarrow> a = MAGIC1"
definition check_magic_vista :: "u32 \<Rightarrow> bool" where "check_magic_vista a \<longleftrightarrow> a = MAGIC2"
definition check_magic_2k8 :: "u32 \<Rightarrow> bool" where "check_magic_2k8 a \<longleftrightarrow> a = MAGIC1 \<or> a = MAGIC2 \<or> a = MAGIC3"
definition check_magic_7 :: "u32 \<Rightarrow> bool" where "check_magic_7 a \<longleftrightarrow> a = MAGIC3"
definition check_magic_unknown :: "u32 \<Rightarrow> bool" where
  "check_magic_unknown a \<longleftrightarrow> a = MAGIC1 \<or> a = MAGIC2 \<or> a = MAGIC3"

definition get_check_magic_func :: "(u32 \<Rightarrow> bool) vm" where
  "get_check_magic_func = do {
     w \<leftarrow> gets windows_os;
     return (case version w of
         VMI_OS_WINDOWS_2000 \<Rightarrow> check_magic_2k
       | VMI_OS_WINDOWS_XP \<Rightarrow> check_magic_xp
       | VMI_OS_WINDOWS_2003 \<Rightarrow> check_magic_2k3
       | VMI_OS_WINDOWS_VISTA \<Rightarrow> check_magic_vista
       | VMI_OS_WINDOWS_2008 \<Rightarrow> check_magic_2k8
       | VMI_OS_WINDOWS_7 \<Rightarrow> check_magic_7
       | VMI_OS_WINDOWS_UNKNOWN \<Rightarrow> check_magic_unknown
       | _ \<Rightarrow> check_magic_unknown) }"

text \<open>The word that the code copies out of a block at an offset.\<close>

definition block_value :: "u8 list \<Rightarrow> nat \<Rightarrow> u32" where
  "block_value block_buffer offset = le_word (take 4 (drop offset block_buffer))"

text \<open>
  The searches look at every eighth byte of a block of 1 MB; the list holds the offsets left. The inner
  result is \<open>None\<close> where the search of the block goes on with the next one.
\<close>

primrec pname_block :: "env \<Rightarrow> boyer_moore_data \<Rightarrow> (u32 \<Rightarrow> bool) \<Rightarrow> addr_t \<Rightarrow> u8 list \<Rightarrow> nat list \<Rightarrow> cint option option vm" where
  "pname_block E bm check block_pa block_buffer [] = return (Some None)"
| "pname_block E bm check block_pa block_buffer (offset # offsets) =
     (if check (block_value block_buffer offset) then do {
        haystack \<leftarrow> vmi_read_pa E (block_pa + of_nat offset) 0x500;
        if length haystack \<noteq> 0x500 then pname_block E bm check block_pa block_buffer offsets
        else (case boyer_moore2 bm haystack of
            None \<Rightarrow> return None
          | Some i \<Rightarrow>
              if i = -1 then pname_block E bm check block_pa block_buffer offsets
              else do {
                w \<leftarrow> gets windows_os;
                modify (\<lambda>s. s\<lparr>init_task := block_pa + of_nat offset + scast (win_tasks_offset w)\<rparr>);
                return (Some (Some (of_int i))) }) }
      else pname_block E bm check block_pa block_buffer offsets)"

definition block_offsets :: "nat list" where
  "block_offsets = map (\<lambda>k. 8 * k) [0..<0x20000]"

primrec pname_loop :: "env \<Rightarrow> boyer_moore_data \<Rightarrow> (u32 \<Rightarrow> bool) \<Rightarrow> nat \<Rightarrow> addr_t \<Rightarrow> cint option vm" where
  "pname_loop E bm check 0 block_pa = return None"
| "pname_loop E bm check (Suc fuel) block_pa = do {
     memsize \<leftarrow> gets vmi_size;
     if memsize \<le> block_pa then return (Some 0)
     else do {
       block_buffer \<leftarrow> vmi_read_pa E block_pa KD_BLOCK_SIZE;
       if length block_buffer \<noteq> unat KD_BLOCK_SIZE
       then pname_loop E bm check fuel (block_pa + KD_BLOCK_SIZE)
       else obind (pname_block E bm check block_pa block_buffer block_offsets) (\<lambda>r. case r of
           Some i \<Rightarrow> return (Some i)
         | None \<Rightarrow> pname_loop E bm check fuel (block_pa + KD_BLOCK_SIZE)) } }"

definition find_pname_offset :: "env \<Rightarrow> nat \<Rightarrow> (u32 \<Rightarrow> bool) option \<Rightarrow> cint option vm" where
  "find_pname_offset E fuel check = do {
     let bm = boyer_moore_init (bytes_of ''Idle'');
     check \<leftarrow> (case check of None \<Rightarrow> get_check_magic_func | Some f \<Rightarrow> return f);
     pname_loop E bm check fuel 4096 }"

text \<open>
  \<open>strncmp(procname, name, 50)\<close> on the 16 bytes read: without a zero among them the comparison goes
  past the buffer if it has not found a difference.
\<close>

definition same_name :: "u8 list \<Rightarrow> u8 list \<Rightarrow> bool vm" where
  "same_name procname name = (let p = takeWhile (\<lambda>b. b \<noteq> 0) procname in
     if length p = length procname \<and> take (length p) name = p then raise_fault False
     else return (p = name))"

primrec eprocess_block :: "env \<Rightarrow> (u32 \<Rightarrow> bool) \<Rightarrow> u8 list \<Rightarrow> addr_t \<Rightarrow> u8 list \<Rightarrow> nat list \<Rightarrow> addr_t option vm" where
  "eprocess_block E check name block_pa block_buffer [] = return None"
| "eprocess_block E check name block_pa block_buffer (offset # offsets) =
     (if check (block_value block_buffer offset) then do {
        procname \<leftarrow> windows_get_eprocess_name E (block_pa + of_nat offset);
        found \<leftarrow> (case procname of None \<Rightarrow> return False | Some p \<Rightarrow> same_name p name);
        if found then return (Some (block_pa + of_nat offset))
        else eprocess_block E check name block_pa block_buffer offsets }
      else eprocess_block E check name block_pa block_buffer offsets)"

primrec eprocess_search :: "env \<Rightarrow> (u32 \<Rightarrow> bool) \<Rightarrow> u8 list \<Rightarrow> nat \<Rightarrow> addr_t \<Rightarrow> addr_t option vm" where
  "eprocess_search E check name 0 block_pa = return None"
| "eprocess_search E check name (Suc fuel) block_pa = do {
     memsize \<leftarrow> gets vmi_size;
     if memsize \<le> block_pa then return (Some 0)
     else do {
       block_buffer \<leftarrow> vmi_read_pa E block_pa KD_BLOCK_SIZE;
       if length block_buffer \<noteq> unat KD_BLOCK_SIZE
       then eprocess_search E check name fuel (block_pa + KD_BLOCK_SIZE)
       else do {
         r \<leftarrow> eprocess_block E check name block_pa block_buffer block_offsets;
         (case r of
           Some a \<Rightarrow> return (Some a)
         | None \<Rightarrow> eprocess_search E check name fuel (block_pa + KD_BLOCK_SIZE)) } } }"

definition find_process_by_name :: "env \<Rightarrow> nat \<Rightarrow> (u32 \<Rightarrow> bool) option \<Rightarrow> addr_t \<Rightarrow> u8 list \<Rightarrow> addr_t option vm" where
  "find_process_by_name E fuel check start_address name = do {
     check \<leftarrow> (case check of None \<Rightarrow> get_check_magic_func | Some f \<Rightarrow> return f);
     eprocess_search E check name fuel start_address }"

definition windows_find_eprocess :: "env \<Rightarrow> nat \<Rightarrow> string \<Rightarrow> addr_t option vm" where
  "windows_find_eprocess E fuel name = do {
     check \<leftarrow> get_check_magic_func;
     w \<leftarrow> gets windows_os;
     obind (if win_pname_offset w = 0
         then obind (find_pname_offset E fuel (Some check)) (\<lambda>ofs. do {
           modify (\<lambda>s. s\<lparr>windows_os := (windows_os s)\<lparr>win_pname_offset := ofs\<rparr>\<rparr>);
           return (Some (ofs \<noteq> 0)) })
         else return (Some True)) (\<lambda>known.
       if \<not> known then return (Some 0)
       else do {
         task \<leftarrow> gets init_task;
         w \<leftarrow> gets windows_os;
         find_process_by_name E fuel (Some check)
           (if task \<noteq> 0 then task - scast (win_tasks_offset w) else 0) (bytes_of name) }) }"

subsection \<open>The search for a process\<close>

text \<open>A process structure by that name at an address, and the first one in a block.\<close>

definition named :: "env \<Rightarrow> vmi \<Rightarrow> u8 list \<Rightarrow> addr_t \<Rightarrow> bool" where
  "named E s name a \<longleftrightarrow> (let bs = phys_bytes E s (a + scast (win_pname_offset (windows_os s))) 16
     in length bs = 16 \<and> takeWhile (\<lambda>b. b \<noteq> 0) bs = name)"

definition process_in :: "env \<Rightarrow> (u32 \<Rightarrow> bool) \<Rightarrow> u8 list \<Rightarrow> vmi \<Rightarrow> addr_t \<Rightarrow> addr_t option" where
  "process_in E check name s pa = (let bs = phys_bytes E s pa 0x100000 in
     if length bs = 0x100000
     then map_option (\<lambda>ofs. pa + of_nat ofs)
       (find (\<lambda>ofs. check (block_value bs ofs) \<and> named E s name (pa + of_nat ofs)) block_offsets)
     else None)"

lemma named_core [simp]: "named E (core s) = named E s"
  by (simp add: named_def fun_eq_iff)

lemma reads_same_name:
  assumes "length p = 16" "length name < 16"
  shows "reads J core (same_name p name) (\<lambda>s. takeWhile (\<lambda>b. b \<noteq> 0) p = name)"
proof -
  have "\<not> (length (takeWhile (\<lambda>b. b \<noteq> 0) p) = length p \<and> take (length (takeWhile (\<lambda>b. b \<noteq> 0) p)) name
      = takeWhile (\<lambda>b. b \<noteq> 0) p)"
  proof
    assume h: "length (takeWhile (\<lambda>b. b \<noteq> 0) p) = length p \<and> take (length (takeWhile (\<lambda>b. b \<noteq> 0) p)) name
      = takeWhile (\<lambda>b. b \<noteq> 0) p"
    then have "length (take (length p) name) = length p" by metis
    then show False using assms by simp
  qed
  then show ?thesis unfolding same_name_def Let_def by (simp only: if_False reads_return)
qed

text \<open>The offset of the name is the state's; the size of memory is fixed during a search.\<close>

lemma reads_field:
  assumes "reads J core m f" "\<And>s. g (core s) = g s"
  shows "reads (\<lambda>s. J s \<and> g s = v) core m f"
  using assms core_field_eq [of _ _ g] unfolding reads_def by metis

interpretation sized: page_source E "\<lambda>s. vm_ok E s \<and> vmi_size s = memsize" for E memsize
  by unfold_locales (auto intro: reads_field phys.source_read)

context page_source
begin

lemma reads_eprocess_name:
  "reads I core (windows_get_eprocess_name E a)
    (\<lambda>s. let bs = phys_bytes E s (a + scast (win_pname_offset (windows_os s))) 16
      in if length bs = 16 then Some bs else None)"
proof -
  have c: "unat (16 :: u64) < 2 ^ 63" by simp
  show ?thesis
    unfolding windows_get_eprocess_name_def
    by (rule reads_weaken, (rule reads_bind reads_gets reads_return reads_vmi_read_pa [OF c] core_fields)+)
      (simp add: Let_def)
qed

lemma reads_eprocess_block:
  assumes "length name < 16"
  shows "reads I core (eprocess_block E check name pa buf offs)
    (\<lambda>s. map_option (\<lambda>ofs. pa + of_nat ofs)
      (find (\<lambda>ofs. check (block_value buf ofs) \<and> named E s name (pa + of_nat ofs)) offs))"
proof (induction offs)
  case Nil
  show ?case by (simp add: reads_return)
next
  case (Cons ofs offs)
  have found: "reads I core (windows_get_eprocess_name E (pa + of_nat ofs) \<bind>
      (\<lambda>procname. case procname of None \<Rightarrow> return False | Some p \<Rightarrow> same_name p name))
      (\<lambda>s. named E s name (pa + of_nat ofs))"
  proof (rule reads_bind_at [OF reads_eprocess_name])
    fix s
    let ?bs = "phys_bytes E (core s) (pa + of_nat ofs + scast (win_pname_offset (windows_os (core s)))) 16"
    assume "I s"
    then show "I (snd (run_state (case let bs = ?bs in if length bs = 16 then Some bs else None of
          None \<Rightarrow> return False | Some p \<Rightarrow> same_name p name) s))
      \<and> core (snd (run_state (case let bs = ?bs in if length bs = 16 then Some bs else None of
          None \<Rightarrow> return False | Some p \<Rightarrow> same_name p name) s)) = core s
      \<and> fst (run_state (case let bs = ?bs in if length bs = 16 then Some bs else None of
          None \<Rightarrow> return False | Some p \<Rightarrow> same_name p name) s) = named E (core s) name (pa + of_nat ofs)"
      using reads_run [OF reads_same_name [OF _ assms, of ?bs] _ surjective_pairing, of I s]
      by (simp add: Let_def named_def)
  qed
  have hit: "reads I core (do {
      found \<leftarrow> windows_get_eprocess_name E (pa + of_nat ofs) \<bind>
        (\<lambda>procname. case procname of None \<Rightarrow> return False | Some p \<Rightarrow> same_name p name);
      if found then return (Some (pa + of_nat ofs)) else eprocess_block E check name pa buf offs })
    (\<lambda>s. if named E s name (pa + of_nat ofs) then Some (pa + of_nat ofs)
      else map_option (\<lambda>ofs. pa + of_nat ofs)
        (find (\<lambda>ofs. check (block_value buf ofs) \<and> named E s name (pa + of_nat ofs)) offs))"
    by (rule reads_bind [OF found]) (intro reads_if reads_return Cons.IH)
  show ?case
  proof (cases "check (block_value buf ofs)")
    case True
    then have eq: "eprocess_block E check name pa buf (ofs # offs) = do {
        found \<leftarrow> windows_get_eprocess_name E (pa + of_nat ofs) \<bind>
          (\<lambda>procname. case procname of None \<Rightarrow> return False | Some p \<Rightarrow> same_name p name);
        if found then return (Some (pa + of_nat ofs)) else eprocess_block E check name pa buf offs }"
      by (simp add: bind_assoc)
    show ?thesis unfolding eq by (rule reads_weaken [OF hit]) (simp add: True)
  next
    case False
    then show ?thesis using Cons.IH by simp
  qed
qed

end


lemma reads_known:
  assumes "\<And>s. J s \<Longrightarrow> g s = v" "reads J c (k v) f"
  shows "reads J c (gets g \<bind> k) f"
  using assms by (simp add: reads_def)

lemma short_take: "length (take 15 name) < 16" by simp

interpretation procs: block_scan "\<lambda>s. vm_ok E s \<and> vmi_size s = memsize"
    "eprocess_search E check (take 15 name)" memsize "process_in E check (take 15 name)" for E check name memsize
proof
  fix pa :: addr_t and fuel and g :: "vmi \<Rightarrow> addr_t"
  let ?J = "\<lambda>s. vm_ok E s \<and> vmi_size s = memsize"
  show "reads ?J core (eprocess_search E check (take 15 name) (Suc fuel) pa) (\<lambda>s. Some 0)" if "memsize \<le> pa"
    unfolding eprocess_search.simps using that by (intro reads_known [where v = memsize]) (simp_all add: reads_return)
  show "reads ?J core (eprocess_search E check (take 15 name) (Suc fuel) pa)
      (\<lambda>s. Some (case process_in E check (take 15 name) s pa of None \<Rightarrow> g s | Some a \<Rightarrow> a))"
    if "pa < memsize" and IH: "reads ?J core (eprocess_search E check (take 15 name) fuel (pa + KD_BLOCK_SIZE)) (\<lambda>s. Some (g s))"
  proof -
    have lt: "\<not> memsize \<le> pa" using that(1) by simp
    show ?thesis
      unfolding eprocess_search.simps
    proof (rule reads_known [where v = memsize])
      show "reads ?J core (if memsize \<le> pa then return (Some 0) else do {
          block_buffer \<leftarrow> vmi_read_pa E pa KD_BLOCK_SIZE;
          if length block_buffer \<noteq> unat KD_BLOCK_SIZE then eprocess_search E check (take 15 name) fuel (pa + KD_BLOCK_SIZE)
          else do {
            r \<leftarrow> eprocess_block E check (take 15 name) pa block_buffer block_offsets;
            case r of None \<Rightarrow> eprocess_search E check (take 15 name) fuel (pa + KD_BLOCK_SIZE) | Some a \<Rightarrow> return (Some a) } })
        (\<lambda>s. Some (case process_in E check (take 15 name) s pa of None \<Rightarrow> g s | Some a \<Rightarrow> a))"
        unfolding if_not_P [OF lt]
        by (rule reads_weaken, (rule reads_bind reads_if reads_option reads_return IH sized.reads_eprocess_block [OF short_take]
              sized.reads_vmi_read_pa [OF unat_block_size(2)])+)
          (simp add: unat_block_size process_in_def Let_def split: option.split)
    qed simp
  qed
qed

subsection \<open>Properties\<close>

text \<open>C35: The search for a process by its name returns the address of the first word, among every eighth
byte of the blocks of 1 MB that can be read as a whole, that has the version's magic value and at which
the name is found at the name's offset, and 0 if there is none; a bound above the number of blocks is
enough for the search to end.\<close>

theorem find_process_first:
  assumes "vm_ok E s" and "unat (vmi_size s) \<le> 2 ^ 62" and "blocks_from start (vmi_size s) < fuel"
    and "length name < 16"
  shows "fst (run_state (find_process_by_name E fuel (Some check) start name) s)
    = Some (first_hit (process_in E check name s) start [0..<blocks_from start (vmi_size s)])"
proof -
  have t: "take 15 name = name" using assms(4) by simp
  have core: "process_in E check name (core s) = process_in E check name s"
    by (simp add: process_in_def fun_eq_iff Let_def)
  show ?thesis
    using reads_run [OF procs.reads_blocks [OF assms(3,2), of E check name] _ surjective_pairing, of s] assms(1)
    by (simp add: find_process_by_name_def t core)
qed


definition process_memory :: "addr_t \<Rightarrow> u8" where
  "process_memory = (\<lambda>_. 0)(0x5000 := 0x03, 0x5002 := 0x1b, 0x5010 := 65)"

lemma find_process_first_witness:
  "fst (run_state (find_process_by_name xen_env 2 (Some check_magic_xp) 4096 [65])
     (block_guest process_memory ((windows_os zeroed_vmi)\<lparr>win_pname_offset := 16\<rparr>))) = Some 0x5000"
proof -
  let ?s = "block_guest process_memory ((windows_os zeroed_vmi)\<lparr>win_pname_offset := 16\<rparr>)"
  define bs where "bs = map (\<lambda>i. process_memory (0x1000 + of_nat i)) [0..<0x100000]"
  have val: "block_value bs ofs = le_word (map (\<lambda>i. process_memory (0x1000 + of_nat i)) [ofs..<ofs + 4])"
    if "ofs + 4 \<le> 0x100000" for ofs
    using take_drop_map [OF that, of "\<lambda>i. process_memory (0x1000 + of_nat i)"] by (simp only: block_value_def bs_def)
  have "block_value bs 0x4000 = MAGIC1"
    by (subst val) (simp_all add: upt_rec process_memory_def le_word_def MAGIC1_def)
  moreover have "block_value bs ofs = 0" if "ofs < 0x4000" "8 dvd ofs" for ofs
  proof -
    have zero: "process_memory (0x1000 + of_nat i) = 0" if "i < 0x4000" for i
      using in_block(1) [of i] that by (auto simp: process_memory_def word_unat_eq_iff)
    obtain k where k: "ofs = 8 * k" using \<open>8 dvd ofs\<close> by blast
    then have "k < 0x800" using that(1) by linarith
    then have e: "ofs + 4 \<le> 0x4000" using k by linarith
    have "map (\<lambda>i. process_memory (0x1000 + of_nat i)) [ofs..<ofs + 4] = map (\<lambda>i. 0) [ofs..<ofs + 4]"
    proof (rule map_cong [OF refl])
      fix i
      assume "i \<in> set [ofs..<ofs + 4]"
      then have "i < 0x4000" using e unfolding set_upt atLeastLessThan_iff by linarith
      then show "process_memory (0x1000 + of_nat i) = 0" by (rule zero)
    qed
    also have "\<dots> = [0, 0, 0, 0 :: u8]" by (simp add: map_replicate_const numeral_eq_Suc)
    finally have "block_value bs ofs = le_word [0, 0, 0, 0 :: u8]" using val [of ofs] e by simp
    then show ?thesis by (simp add: le_word_def)
  qed
  moreover have "named xen_env ?s [65] 0x5000"
  proof -
    have "phys_byte xen_env ?s (0x5010 + of_nat j) = Some (process_memory (0x5010 + of_nat j))" if "j < 16" for j :: nat
    proof -
      have eq: "0x5010 + of_nat j = (0x1000 + of_nat (0x4010 + j) :: u64)" by simp
      show ?thesis unfolding eq by (rule block_guest_byte, rule in_block(2)) (use that in linarith)
    qed
    then have "phys_bytes xen_env ?s 0x5010 16 = map (\<lambda>j. process_memory (0x5010 + of_nat j)) [0..<16]"
      by (rule phys_bytes_all)
    then show ?thesis by (simp add: named_def block_guest_ok Let_def upt_rec process_memory_def)
  qed
  ultimately have "find (\<lambda>ofs. check_magic_xp (block_value bs ofs) \<and> named xen_env ?s [65] (0x1000 + of_nat ofs)) block_offsets
      = Some 0x4000"
    unfolding find_Some_iff block_offsets_def
    by (intro exI [of _ "0x800"]) (auto simp: check_magic_xp_def MAGIC1_def)
  then have "process_in xen_env check_magic_xp [65] ?s 0x1000 = Some 0x5000"
    by (simp add: process_in_def block_guest_bytes bs_def [symmetric]) (simp add: bs_def)
  then show ?thesis
    using find_process_first [OF block_guest_ok(1), of process_memory "(windows_os zeroed_vmi)\<lparr>win_pname_offset := 16\<rparr>" 4096 2 "[65]" check_magic_xp]
    by (simp add: block_guest_ok blocks_from_def block_at_def)
qed

end
