(* ===== verification/Address_Spaces.thy ===== *)
theory Address_Spaces
  imports Linux_Os Windows_Proc
begin

text \<open>
  Address spaces of processes and symbols: the rest of \<^verbatim>\<open>memory.c\<close>, and the functions of \<^verbatim>\<open>read.c\<close> and
  \<^verbatim>\<open>write.c\<close> that take a \<open>pid\<close> or a symbol. The walks of process lists and the searches for symbols have
  the bound \<open>fuel\<close>. A translation in the middle of a read that reaches its bound ends the read and sets
  \<open>fault\<close>, which marks the runs of which the model says nothing more.
\<close>

unbundle bit_operations_syntax

subsection \<open>memory.c\<close>

definition vmi_pid_to_dtb :: "env \<Rightarrow> nat \<Rightarrow> cint \<Rightarrow> addr_t option vm" where
  "vmi_pid_to_dtb E fuel pid = do {
     (st, dtb) \<leftarrow> pid_cache_get pid 0;
     if st = VMI_SUCCESS then return (Some dtb)
     else do {
       os \<leftarrow> gets os_type;
       obind (if os = VMI_OS_LINUX then linux_pid_to_pgd E fuel pid
         else if os = VMI_OS_WINDOWS then windows_pid_to_pgd E fuel pid
         else return (Some dtb)) (\<lambda>dtb. do {
           (if dtb \<noteq> 0 then pid_cache_set pid dtb else return ());
           return (Some dtb) }) } }"

definition vmi_translate_uv2p_nocache :: "env \<Rightarrow> nat \<Rightarrow> addr_t \<Rightarrow> cint \<Rightarrow> addr_t option vm" where
  "vmi_translate_uv2p_nocache E fuel virt_address pid = obind (vmi_pid_to_dtb E fuel pid) (\<lambda>dtb.
     if dtb = 0 then return (Some 0)
     else do {
       rtnval \<leftarrow> vmi_pagetable_lookup E dtb virt_address;
       (if rtnval = 0 then do { _ \<leftarrow> pid_cache_del pid; return () } else return ());
       return (Some rtnval) })"

definition vmi_translate_uv2p :: "env \<Rightarrow> nat \<Rightarrow> addr_t \<Rightarrow> cint \<Rightarrow> addr_t option vm" where
  "vmi_translate_uv2p E fuel virt_address pid = obind (vmi_pid_to_dtb E fuel pid) (\<lambda>dtb.
     if dtb = 0 then return (Some 0)
     else do {
       rtnval \<leftarrow> vmi_pagetable_lookup E dtb virt_address;
       if rtnval = 0 then do {
         st \<leftarrow> pid_cache_del pid;
         if st = VMI_SUCCESS then vmi_translate_uv2p_nocache E fuel virt_address pid
         else return (Some rtnval) }
       else return (Some rtnval) })"

definition vmi_translate_ksym2v :: "env \<Rightarrow> nat \<Rightarrow> string \<Rightarrow> addr_t option vm" where
  "vmi_translate_ksym2v E fuel symbol = do {
     (st, ret) \<leftarrow> sym_cache_get symbol 0;
     if st = VMI_SUCCESS then return (Some ret)
     else do {
       os \<leftarrow> gets os_type;
       obind (if os = VMI_OS_LINUX then do {
             (st, ret) \<leftarrow> linux_system_map_symbol_to_address E symbol ret;
             return (Some (if st = VMI_FAILURE then 0 else ret)) }
         else if os = VMI_OS_WINDOWS then
           obind (windows_symbol_to_address E fuel symbol ret) (\<lambda>(st, ret).
             return (Some (if st = VMI_FAILURE then 0 else ret)))
         else return (Some ret)) (\<lambda>ret. do {
           (if ret \<noteq> 0 then sym_cache_set symbol ret else return ());
           return (Some ret) }) } }"

subsection \<open>read.c: virtual addresses\<close>

definition within :: "'a \<Rightarrow> 'a option vm \<Rightarrow> 'a vm" where
  "within x m = m \<bind> (\<lambda>r. case r of None \<Rightarrow> raise_fault x | Some y \<Rightarrow> return y)"

definition vmi_translate :: "env \<Rightarrow> nat \<Rightarrow> cint \<Rightarrow> addr_t \<Rightarrow> addr_t vm" where
  "vmi_translate E fuel pid vaddr =
     (if pid \<noteq> 0 then within 0 (vmi_translate_uv2p E fuel vaddr pid) else vmi_translate_kv2p E vaddr)"

definition vmi_read_va :: "env \<Rightarrow> nat \<Rightarrow> addr_t \<Rightarrow> cint \<Rightarrow> u64 \<Rightarrow> u8 list vm" where
  "vmi_read_va E fuel vaddr pid count = read_va E (vmi_translate E fuel pid) vaddr count"

definition vmi_read_X_va :: "env \<Rightarrow> nat \<Rightarrow> addr_t \<Rightarrow> cint \<Rightarrow> 'a::len word \<Rightarrow> (status_t \<times> 'a word) vm" where
  "vmi_read_X_va E fuel vaddr pid v = read_X_va E (vmi_translate E fuel pid) vaddr v"

definition vmi_read_8_va :: "env \<Rightarrow> nat \<Rightarrow> addr_t \<Rightarrow> cint \<Rightarrow> u8 \<Rightarrow> (status_t \<times> u8) vm" where
  "vmi_read_8_va E fuel vaddr pid v = vmi_read_X_va E fuel vaddr pid v"

definition vmi_read_16_va :: "env \<Rightarrow> nat \<Rightarrow> addr_t \<Rightarrow> cint \<Rightarrow> u16 \<Rightarrow> (status_t \<times> u16) vm" where
  "vmi_read_16_va E fuel vaddr pid v = vmi_read_X_va E fuel vaddr pid v"

definition vmi_read_32_va :: "env \<Rightarrow> nat \<Rightarrow> addr_t \<Rightarrow> cint \<Rightarrow> u32 \<Rightarrow> (status_t \<times> u32) vm" where
  "vmi_read_32_va E fuel vaddr pid v = vmi_read_X_va E fuel vaddr pid v"

definition vmi_read_64_va :: "env \<Rightarrow> nat \<Rightarrow> addr_t \<Rightarrow> cint \<Rightarrow> u64 \<Rightarrow> (status_t \<times> u64) vm" where
  "vmi_read_64_va E fuel vaddr pid v = vmi_read_X_va E fuel vaddr pid v"

definition vmi_read_addr_va :: "env \<Rightarrow> nat \<Rightarrow> addr_t \<Rightarrow> cint \<Rightarrow> addr_t \<Rightarrow> (status_t \<times> addr_t) vm" where
  "vmi_read_addr_va E fuel vaddr pid v = read_addr_va E (vmi_translate E fuel pid) vaddr v"

definition vmi_read_str_va :: "env \<Rightarrow> nat \<Rightarrow> addr_t \<Rightarrow> cint \<Rightarrow> u8 list option vm" where
  "vmi_read_str_va E fuel vaddr pid = read_str_va E (vmi_translate E fuel pid) fuel vaddr"

subsection \<open>read.c: Unicode strings\<close>

definition win32_unicode_string_t :: layout where
  "win32_unicode_string_t = [(''length'', 2), (''maximum_length'', 2), (''pBuffer'', 4)]"

definition win64_unicode_string_t :: layout where
  "win64_unicode_string_t = [(''length'', 2), (''maximum_length'', 2), (''pBuffer'', 8)]"

record unicode_string_t =
  us_length :: u64
  us_contents :: "u8 list"
  us_encoding :: string

definition vmi_read_linux_unicode_str_va :: "addr_t \<Rightarrow> cint \<Rightarrow> unicode_string_t option vm" where
  "vmi_read_linux_unicode_str_va vaddr pid = return None"

definition vmi_read_win_unicode_struct_va :: "env \<Rightarrow> nat \<Rightarrow> addr_t \<Rightarrow> cint \<Rightarrow> unicode_string_t option vm" where
  "vmi_read_win_unicode_struct_va E fuel vaddr pid = do {
     pm \<leftarrow> gets page_mode;
     let l = (if pm = VMI_PM_IA32E then win64_unicode_string_t else win32_unicode_string_t);
     us \<leftarrow> vmi_read_va E fuel vaddr pid (of_nat (layout_size l));
     if length us \<noteq> layout_size l then return None
     else do {
       let buffer_va = (if pm = VMI_PM_IA32E then get_member l ''pBuffer'' us
         else ucast (get_member l ''pBuffer'' us :: u32));
       let buffer_len = (get_member l ''length'' us :: u16);
       contents \<leftarrow> vmi_read_va E fuel buffer_va pid (ucast buffer_len);
       if length contents \<noteq> unat buffer_len then return None
       else return (Some \<lparr>us_length = ucast buffer_len, us_contents = contents @ [0, 0], us_encoding = ''UTF-16''\<rparr>) } }"

definition vmi_read_unicode_str_va :: "env \<Rightarrow> nat \<Rightarrow> addr_t \<Rightarrow> cint \<Rightarrow> unicode_string_t option vm" where
  "vmi_read_unicode_str_va E fuel vaddr pid = do {
     os \<leftarrow> gets os_type;
     if os = VMI_OS_LINUX then vmi_read_linux_unicode_str_va vaddr pid
     else if os = VMI_OS_WINDOWS then vmi_read_win_unicode_struct_va E fuel vaddr pid
     else return None }"

text \<open>
  \<open>iconv\<close> is code outside the repository: for a target and a source encoding it either cannot be opened
  or converts a buffer of bytes into at most a number of bytes, or fails. The result is what the caller
  finds in \<open>out\<close>; \<open>None\<close> is the structure filled with zeros.
\<close>

definition vmi_convert_str_encoding :: "(string \<Rightarrow> string \<Rightarrow> (u8 list \<Rightarrow> nat \<Rightarrow> u8 list option) option) \<Rightarrow>
    unicode_string_t \<Rightarrow> string \<Rightarrow> status_t \<times> unicode_string_t option" where
  "vmi_convert_str_encoding iconv_open inp outencoding = (let
       inlen = unat (us_length inp); outlen = 2 * (inlen + 1) in
     case iconv_open outencoding (us_encoding inp) of
       None \<Rightarrow> (VMI_FAILURE, None)
     | Some iconv \<Rightarrow> (case iconv (take inlen (us_contents inp)) outlen of
         None \<Rightarrow> (VMI_FAILURE, None)
       | Some bs \<Rightarrow> (VMI_SUCCESS, Some \<lparr>us_length = of_nat (length bs),
           us_contents = bs @ replicate (outlen - length bs) 0, us_encoding = outencoding\<rparr>)))"

subsection \<open>read.c: symbols\<close>

definition vmi_read_ksym :: "env \<Rightarrow> nat \<Rightarrow> string \<Rightarrow> u64 \<Rightarrow> u8 list option vm" where
  "vmi_read_ksym E fuel symb count = obind (vmi_translate_ksym2v E fuel symb) (\<lambda>vaddr.
     if vaddr = 0 then return (Some [])
     else do { bs \<leftarrow> vmi_read_va E fuel vaddr 0 count; return (Some bs) })"

definition vmi_read_X_ksym :: "env \<Rightarrow> nat \<Rightarrow> string \<Rightarrow> 'a::len word \<Rightarrow> (status_t \<times> 'a word) option vm" where
  "vmi_read_X_ksym E fuel symb v = obind (vmi_read_ksym E fuel symb (of_nat (LENGTH('a) div 8))) (\<lambda>bs.
     return (Some (read_status bs (LENGTH('a) div 8), le_word (overlay (word_bytes v) bs))))"

definition vmi_read_8_ksym :: "env \<Rightarrow> nat \<Rightarrow> string \<Rightarrow> u8 \<Rightarrow> (status_t \<times> u8) option vm" where
  "vmi_read_8_ksym E fuel symb v = vmi_read_X_ksym E fuel symb v"

definition vmi_read_16_ksym :: "env \<Rightarrow> nat \<Rightarrow> string \<Rightarrow> u16 \<Rightarrow> (status_t \<times> u16) option vm" where
  "vmi_read_16_ksym E fuel symb v = vmi_read_X_ksym E fuel symb v"

definition vmi_read_32_ksym :: "env \<Rightarrow> nat \<Rightarrow> string \<Rightarrow> u32 \<Rightarrow> (status_t \<times> u32) option vm" where
  "vmi_read_32_ksym E fuel symb v = vmi_read_X_ksym E fuel symb v"

definition vmi_read_64_ksym :: "env \<Rightarrow> nat \<Rightarrow> string \<Rightarrow> u64 \<Rightarrow> (status_t \<times> u64) option vm" where
  "vmi_read_64_ksym E fuel symb v = vmi_read_X_ksym E fuel symb v"

definition vmi_read_addr_ksym :: "env \<Rightarrow> nat \<Rightarrow> string \<Rightarrow> addr_t \<Rightarrow> (status_t \<times> addr_t) option vm" where
  "vmi_read_addr_ksym E fuel symb v = do {
     pm \<leftarrow> gets page_mode;
     if pm = VMI_PM_IA32E then vmi_read_64_ksym E fuel symb v
     else obind (vmi_read_32_ksym E fuel symb 0) (\<lambda>(ret, tmp). return (Some (ret, ucast tmp))) }"

definition vmi_read_str_ksym :: "env \<Rightarrow> nat \<Rightarrow> string \<Rightarrow> u8 list option vm" where
  "vmi_read_str_ksym E fuel symb = obind (vmi_translate_ksym2v E fuel symb) (\<lambda>vaddr.
     vmi_read_str_va E fuel vaddr 0)"

subsection \<open>write.c\<close>

text \<open>
  The loop of \<open>vmi_write_va\<close>, one page in each round; the result is the number of bytes written, and
  \<open>None\<close> only if the bound was reached, which one more than the count is above.
\<close>

primrec write_loop :: "env \<Rightarrow> (addr_t \<Rightarrow> addr_t vm) \<Rightarrow> nat \<Rightarrow> addr_t \<Rightarrow> u8 list \<Rightarrow> u64 \<Rightarrow> u64 \<Rightarrow> u64 option vm" where
  "write_loop E translate 0 vaddr buf count buf_offset = return None"
| "write_loop E translate (Suc fuel) vaddr buf count buf_offset =
     (if 0 < count then do {
        paddr \<leftarrow> translate (vaddr + buf_offset);
        if paddr = 0 then return (Some buf_offset)
        else do {
          sz \<leftarrow> gets page_size;
          let write_len = chunk_len sz (ucast (sz - 1) AND paddr) count;
          st \<leftarrow> driver_write E paddr (drop (unat buf_offset) buf) (ucast write_len);
          if st = VMI_FAILURE then return (Some buf_offset)
          else write_loop E translate fuel vaddr buf (count - write_len) (buf_offset + write_len) } }
      else return (Some buf_offset))"

definition vmi_write_va :: "env \<Rightarrow> nat \<Rightarrow> addr_t \<Rightarrow> cint \<Rightarrow> u8 list option \<Rightarrow> u64 \<Rightarrow> u64 vm" where
  "vmi_write_va E fuel vaddr pid buf count = (case buf of
     None \<Rightarrow> return 0
   | Some bs \<Rightarrow> within 0 (write_loop E (vmi_translate E fuel pid) (Suc (unat count)) vaddr bs count 0))"

definition vmi_write_ksym :: "env \<Rightarrow> nat \<Rightarrow> string \<Rightarrow> u8 list option \<Rightarrow> u64 \<Rightarrow> u64 option vm" where
  "vmi_write_ksym E fuel symb buf count = obind (vmi_translate_ksym2v E fuel symb) (\<lambda>vaddr. do {
     n \<leftarrow> vmi_write_va E fuel vaddr 0 buf count;
     return (Some n) })"

definition vmi_write_X_va :: "env \<Rightarrow> nat \<Rightarrow> addr_t \<Rightarrow> cint \<Rightarrow> 'a::len word \<Rightarrow> status_t vm" where
  "vmi_write_X_va E fuel vaddr pid v = do {
     len_write \<leftarrow> vmi_write_va E fuel vaddr pid (Some (word_bytes v)) (of_nat (LENGTH('a) div 8));
     return (if len_write = of_nat (LENGTH('a) div 8) then VMI_SUCCESS else VMI_FAILURE) }"

definition vmi_write_8_va :: "env \<Rightarrow> nat \<Rightarrow> addr_t \<Rightarrow> cint \<Rightarrow> u8 \<Rightarrow> status_t vm" where
  "vmi_write_8_va E fuel vaddr pid v = vmi_write_X_va E fuel vaddr pid v"

definition vmi_write_16_va :: "env \<Rightarrow> nat \<Rightarrow> addr_t \<Rightarrow> cint \<Rightarrow> u16 \<Rightarrow> status_t vm" where
  "vmi_write_16_va E fuel vaddr pid v = vmi_write_X_va E fuel vaddr pid v"

definition vmi_write_32_va :: "env \<Rightarrow> nat \<Rightarrow> addr_t \<Rightarrow> cint \<Rightarrow> u32 \<Rightarrow> status_t vm" where
  "vmi_write_32_va E fuel vaddr pid v = vmi_write_X_va E fuel vaddr pid v"

definition vmi_write_64_va :: "env \<Rightarrow> nat \<Rightarrow> addr_t \<Rightarrow> cint \<Rightarrow> u64 \<Rightarrow> status_t vm" where
  "vmi_write_64_va E fuel vaddr pid v = vmi_write_X_va E fuel vaddr pid v"

definition vmi_write_X_ksym :: "env \<Rightarrow> nat \<Rightarrow> string \<Rightarrow> 'a::len word \<Rightarrow> status_t option vm" where
  "vmi_write_X_ksym E fuel symb v = obind
     (vmi_write_ksym E fuel symb (Some (word_bytes v)) (of_nat (LENGTH('a) div 8))) (\<lambda>len_write.
       return (Some (if len_write = of_nat (LENGTH('a) div 8) then VMI_SUCCESS else VMI_FAILURE)))"

definition vmi_write_8_ksym :: "env \<Rightarrow> nat \<Rightarrow> string \<Rightarrow> u8 \<Rightarrow> status_t option vm" where
  "vmi_write_8_ksym E fuel symb v = vmi_write_X_ksym E fuel symb v"

definition vmi_write_16_ksym :: "env \<Rightarrow> nat \<Rightarrow> string \<Rightarrow> u16 \<Rightarrow> status_t option vm" where
  "vmi_write_16_ksym E fuel symb v = vmi_write_X_ksym E fuel symb v"

definition vmi_write_32_ksym :: "env \<Rightarrow> nat \<Rightarrow> string \<Rightarrow> u32 \<Rightarrow> status_t option vm" where
  "vmi_write_32_ksym E fuel symb v = vmi_write_X_ksym E fuel symb v"

definition vmi_write_64_ksym :: "env \<Rightarrow> nat \<Rightarrow> string \<Rightarrow> u64 \<Rightarrow> status_t option vm" where
  "vmi_write_64_ksym E fuel symb v = vmi_write_X_ksym E fuel symb v"

subsection \<open>The page directory of a process\<close>

definition linux_pgd :: "env \<Rightarrow> vmi \<Rightarrow> nat \<Rightarrow> cint \<Rightarrow> addr_t option" where
  "linux_pgd E s fuel pid = (let os = linux_os s in
     case task_walk E s fuel pid (linux_pid_offset os) (linux_tasks_offset os) (init_task s) (init_task s) 0 of
       None \<Rightarrow> None
     | Some ts_addr \<Rightarrow> if ts_addr = 0 then Some 0
         else (let ptr = node_next E s (ts_addr + scast (linux_mm_offset os) - scast (linux_tasks_offset os));
                 pgd = node_next E s (ptr + scast (linux_pgd_offset os))
               in Some (zero_if_none (walk E s (kpgd s) pgd))))"

primrec eprocess_walk :: "env \<Rightarrow> vmi \<Rightarrow> nat \<Rightarrow> cint \<Rightarrow> cint \<Rightarrow> cint \<Rightarrow> addr_t \<Rightarrow> addr_t \<Rightarrow> cint \<Rightarrow> addr_t option" where
  "eprocess_walk E s 0 pid po to head cur task_pid = None"
| "eprocess_walk E s (Suc fuel) pid po to head cur task_pid =
     (if head = node_next E s cur then Some 0
      else let task_pid = snd (node_pid E s po to cur task_pid) in
        if task_pid = pid then Some cur
        else eprocess_walk E s fuel pid po to (if head = 0 then node_next E s cur else head) (node_next E s cur) task_pid)"

definition windows_pgd :: "env \<Rightarrow> vmi \<Rightarrow> nat \<Rightarrow> cint \<Rightarrow> addr_t option" where
  "windows_pgd E s fuel pid = (let w = windows_os s in
     case eprocess_walk E s fuel pid (win_pid_offset w) (win_tasks_offset w) 0 (init_task s) 0 of
       None \<Rightarrow> None
     | Some e \<Rightarrow> if e = 0 then Some 0
         else Some (node_next E s (e + scast (win_pdbase_offset w) - scast (win_tasks_offset w))))"

text \<open>The directory that the operating system's structures give for a process.\<close>

definition os_dtb :: "env \<Rightarrow> vmi \<Rightarrow> nat \<Rightarrow> cint \<Rightarrow> addr_t option" where
  "os_dtb E s fuel pid = (if os_type s = VMI_OS_LINUX then linux_pgd E s fuel pid
     else if os_type s = VMI_OS_WINDOWS then windows_pgd E s fuel pid else Some 0)"

lemma eprocess_walk_core [simp]:
  "eprocess_walk E (core s) fuel pid po to head cur p = eprocess_walk E s fuel pid po to head cur p"
  by (induction fuel arbitrary: head cur p) (simp_all add: Let_def)

lemma os_dtb_core [simp]: "os_dtb E (core s) fuel pid = os_dtb E s fuel pid"
  by (simp add: os_dtb_def linux_pgd_def windows_pgd_def Let_def cong: option.case_cong if_cong)

lemma reads_eprocess_loop:
  "reads (view E D c) core (eprocess_loop E fuel pid po to head cur p)
    (\<lambda>s. eprocess_walk E s fuel pid po to head cur p)"
proof (induction fuel arbitrary: head cur p)
  case 0
  show ?case by (simp add: reads_return)
next
  case (Suc fuel)
  show ?case
    unfolding eprocess_loop.simps
    by (rule reads_weaken, (rule reads_bind reads_case_prod reads_if reads_return kern.reads_read_addr_va
          kern.reads_read_width_va(3) Suc)+)
      (simp add: node_next_def node_pid_def Let_def case_prod_beta)
qed

lemma reads_read_addr_kva:
  "reads (view E D c) core (vmi_read_addr_kva E va 0 \<bind> (\<lambda>(st, x). k st x)) (\<lambda>s. f (node_next E s va) s)"
  if "\<And>st x. reads (view E D c) core (k st x) (f x)"
  by (rule reads_weaken, rule reads_bind [OF kern.reads_read_addr_va reads_case_prod [OF that]])
    (simp add: node_next_def case_prod_beta)

lemma reads_os_dtb:
  "reads (view E D c) core (linux_pid_to_pgd E fuel pid) (\<lambda>s. linux_pgd E s fuel pid)"
  "reads (view E D c) core (windows_pid_to_pgd E fuel pid) (\<lambda>s. windows_pgd E s fuel pid)"
  unfolding linux_pid_to_pgd_def windows_pid_to_pgd_def linux_get_taskstruct_addr_def windows_get_EPROCESS_def
  by (rule reads_weaken, (rule reads_bind reads_obind reads_gets reads_if reads_return reads_read_addr_kva
        reads_task_loop reads_eprocess_loop kern.translate_reads core_fields)+,
      simp add: linux_pgd_def windows_pgd_def Let_def cong: option.case_cong if_cong)+


subsection \<open>Translation for a process\<close>

text \<open>
  The invariant under which a process's memory is read: that of the kernel's, with a cache of processes
  that has no other directory for this one than the operating system's structures give.
\<close>

definition space :: "env \<Rightarrow> addr_t set \<Rightarrow> nat \<Rightarrow> cint \<Rightarrow> addr_t \<Rightarrow> vmi \<Rightarrow> bool" where
  "space E D fuel pid d s \<longleftrightarrow> (\<exists>c. view E D c s) \<and> (pid_lookup s pid = None \<or> pid_lookup s pid = Some d)
     \<and> os_dtb E s fuel pid = Some d \<and> d \<in> D \<and> d \<noteq> 0 \<and> pid \<noteq> 0"

lemma spaceD:
  assumes "space E D fuel pid d s"
  shows "view E D (names s) s" "d \<in> D" "d \<noteq> 0" "pid \<noteq> 0" "os_dtb E s fuel pid = Some d"
    "pid_lookup s pid = None \<or> pid_lookup s pid = Some d"
  using assms viewD(7) by (auto simp: space_def)

lemma space_cong:
  assumes "space E D fuel pid d s" "view E D c t" "core t = core s"
    and "pid_lookup t pid = None \<or> pid_lookup t pid = Some d"
  shows "space E D fuel pid d t"
proof -
  have "os_dtb E t fuel pid = os_dtb E s fuel pid" by (metis assms(3) os_dtb_core)
  then show ?thesis using assms(2,4) spaceD(2-5) [OF assms(1)] unfolding space_def by metis
qed

lemma reads_space:
  assumes "\<And>c. reads (view E D c) core m f"
  shows "reads (space E D fuel pid d) core m f"
proof (rule readsI)
  fix s
  assume s: "space E D fuel pid d s"
  let ?t = "snd (run_state m s)"
  have t: "fst (run_state m s) = f (core s)" "view E D (names s) ?t" "core ?t = core s"
    using reads_run [OF assms spaceD(1) [OF s] surjective_pairing] by simp_all
  have "pid_lookup ?t = pid_lookup s" using viewD(7) [OF t(2)] by (simp add: names_def)
  then have "space E D fuel pid d ?t" using space_cong [OF s t(2,3)] spaceD(6) [OF s] by simp
  with t show "space E D fuel pid d ?t \<and> core ?t = core s \<and> fst (run_state m s) = f (core s)" by simp
qed

lemma view_pid_cache: "view E D c s \<Longrightarrow> view E D (names (s\<lparr>pid_cache := p\<rparr>)) (s\<lparr>pid_cache := p\<rparr>)"
proof -
  assume v: "view E D c s"
  have "xlat_ok E (s\<lparr>pid_cache := p\<rparr>) = xlat_ok E s"
    by (rule xlat_ok_cong) (simp_all add: core_def page_part_def v2p_lookup_def v2p_build_key_def
        page_mask_def fun_eq_iff cong: option.case_cong)
  moreover have "narrow E (s\<lparr>pid_cache := p\<rparr>) = narrow E s" by (rule ext, rule narrow_cong) (simp add: core_def)
  ultimately show ?thesis using v by (simp add: view_def)
qed

lemma space_pid_cache:
  assumes "space E D fuel pid d s" "map_option pid_dtb (p pid) = None \<or> map_option pid_dtb (p pid) = Some d"
  shows "space E D fuel pid d (s\<lparr>pid_cache := p\<rparr>)"
  by (rule space_cong [OF assms(1) view_pid_cache [OF spaceD(1) [OF assms(1)]]])
    (use assms(2) in \<open>simp_all add: core_def pid_lookup_def\<close>)

lemma reads_pid_to_dtb: "reads (space E D fuel pid d) core (vmi_pid_to_dtb E fuel pid) (\<lambda>_. Some d)"
proof (rule readsI)
  fix s
  assume s: "space E D fuel pid d s"
  show "space E D fuel pid d (snd (run_state (vmi_pid_to_dtb E fuel pid) s))
    \<and> core (snd (run_state (vmi_pid_to_dtb E fuel pid) s)) = core s
    \<and> fst (run_state (vmi_pid_to_dtb E fuel pid) s) = Some d"
  proof (cases "pid_cache s pid")
    case (Some e)
    then have "pid_dtb e = d" using spaceD(6) [OF s] by (simp add: pid_lookup_def)
    then show ?thesis
      using Some space_pid_cache [OF s, of "(pid_cache s)(pid \<mapsto> e\<lparr>pid_last_used := clock s\<rparr>)"]
      by (simp add: vmi_pid_to_dtb_def pid_cache_get_def core_def)
  next
    case None
    let ?m = "if os_type s = VMI_OS_LINUX then linux_pid_to_pgd E fuel pid
      else if os_type s = VMI_OS_WINDOWS then windows_pid_to_pgd E fuel pid else return (Some 0)"
    have "reads (space E D fuel pid d) core ?m (\<lambda>t. if os_type s = VMI_OS_LINUX then linux_pgd E t fuel pid
        else if os_type s = VMI_OS_WINDOWS then windows_pgd E t fuel pid else Some 0)"
      by (intro reads_if reads_space reads_os_dtb reads_return)
    note r = reads_run [OF this s surjective_pairing]
    have "os_dtb E (core s) fuel pid = Some d" by (simp add: spaceD(5) [OF s])
    then have f: "(if os_type s = VMI_OS_LINUX then linux_pgd E (core s) fuel pid
        else if os_type s = VMI_OS_WINDOWS then windows_pgd E (core s) fuel pid else Some 0) = Some d"
      unfolding os_dtb_def core_fields .
    obtain t where t: "run_state ?m s = (Some d, t)" "space E D fuel pid d t" "core t = core s"
      using r unfolding f by (metis prod.collapse)
    have "space E D fuel pid d (t\<lparr>pid_cache := (pid_cache t)(pid \<mapsto> pid_cache_entry_create t pid d)\<rparr>)"
      by (rule space_pid_cache [OF t(2)]) (simp add: pid_cache_entry_create_def)
    then show ?thesis
      using None t spaceD(3) [OF s]
      by (simp add: vmi_pid_to_dtb_def pid_cache_get_def run_obind pid_cache_set_def core_def)
  qed
qed


lemma reads_any:
  assumes "\<And>s. J s \<Longrightarrow> J (snd (run_state m s)) \<and> c (snd (run_state m s)) = c s"
    and "\<And>x. reads J c (k x) f"
  shows "reads J c (m \<bind> k) f"
proof (rule readsI)
  fix s
  assume "J s"
  with assms(1) [OF this] reads_run [OF assms(2) _ surjective_pairing, of "snd (run_state m s)" "fst (run_state m s)"]
  show "J (snd (run_state (m \<bind> k) s)) \<and> c (snd (run_state (m \<bind> k) s)) = c s
    \<and> fst (run_state (m \<bind> k) s) = f (c s)"
    by (simp add: case_prod_beta)
qed

lemma pid_cache_del_space:
  "space E D fuel pid d s \<Longrightarrow> space E D fuel pid d (snd (run_state (pid_cache_del pid) s))
    \<and> core (snd (run_state (pid_cache_del pid) s)) = core s"
  using space_pid_cache [of E D fuel pid d s "(pid_cache s)(pid := None)"] by (simp add: pid_cache_del_def core_def)

lemma reads_space_lookup:
  assumes "d \<in> D"
  shows "reads (space E D fuel pid d) core (vmi_pagetable_lookup E d va) (\<lambda>s. zero_if_none (walk E s d va))"
  by (rule reads_space [OF reads_pagetable_lookup [OF assms]])

lemma reads_obind_const:
  assumes "reads J c m (\<lambda>_. Some x)" "reads J c (k x) g"
  shows "reads J c (obind m k) g"
  using assms by (simp add: reads_def run_obind case_prod_beta)

lemma reads_uv2p_nocache:
  assumes "d \<in> D" "d \<noteq> 0"
  shows "reads (space E D fuel pid d) core (vmi_translate_uv2p_nocache E fuel va pid)
    (\<lambda>s. Some (zero_if_none (walk E s d va)))"
proof -
  have del: "reads (space E D fuel pid d) core
      ((if x = 0 then do { _ \<leftarrow> pid_cache_del pid; return () } else return ()) \<bind> (\<lambda>_. return (Some x))) (\<lambda>_. Some x)" for x
    using pid_cache_del_space by (cases "x = 0") (auto intro!: reads_any reads_return)
  show ?thesis
    unfolding vmi_translate_uv2p_nocache_def
    by (rule reads_obind_const [OF reads_pid_to_dtb], simp only: assms(2) if_False,
        rule reads_bind [OF reads_space_lookup [OF assms(1)] del])
qed

lemma reads_uv2p:
  assumes "d \<in> D" "d \<noteq> 0"
  shows "reads (space E D fuel pid d) core (vmi_translate_uv2p E fuel va pid)
    (\<lambda>s. Some (zero_if_none (walk E s d va)))"
proof -
  let ?I = "space E D fuel pid d"
  let ?k = "\<lambda>x. if x = 0 then pid_cache_del pid \<bind> (\<lambda>st. if st = VMI_SUCCESS
     then vmi_translate_uv2p_nocache E fuel va pid else return (Some x)) else return (Some x)"
  have "reads ?I core (vmi_pagetable_lookup E d va \<bind> ?k) (\<lambda>s. Some (zero_if_none (walk E s d va)))"
  proof (rule reads_bind_at [OF reads_space_lookup [OF assms(1)]])
    fix s
    assume s: "?I s"
    let ?x = "zero_if_none (walk E (core s) d va)"
    have "reads ?I core (if st = VMI_SUCCESS then vmi_translate_uv2p_nocache E fuel va pid else return (Some ?x))
        (\<lambda>s. if st = VMI_SUCCESS then Some (zero_if_none (walk E s d va)) else Some ?x)" for st
      by (intro reads_if reads_uv2p_nocache assms reads_return)
    from reads_run [OF this _ surjective_pairing, of "snd (run_state (pid_cache_del pid) s)"]
      pid_cache_del_space [OF s]
    show "?I (snd (run_state (?k ?x) s)) \<and> core (snd (run_state (?k ?x) s)) = core s
      \<and> fst (run_state (?k ?x) s) = Some ?x"
      using s by (cases "?x = 0") (auto simp: case_prod_beta split: if_splits)
  qed
  then show ?thesis
    unfolding vmi_translate_uv2p_def
    by (intro reads_obind_const [OF reads_pid_to_dtb]) (simp only: assms(2) if_False)
qed

lemma reads_within:
  assumes "reads J c m (\<lambda>s. Some (f s))"
  shows "reads J c (within x m) f"
  using assms by (simp add: reads_def within_def case_prod_beta)

lemma space_translate:
  assumes "d \<in> D" "d \<noteq> 0" "pid \<noteq> 0"
  shows "reads (space E D fuel pid d) core (vmi_translate E fuel pid va) (\<lambda>s. zero_if_none (walk E s d va))"
  using reads_within [OF reads_uv2p [OF assms(1,2)]] assms(3) by (simp add: vmi_translate_def)

text \<open>A process's memory is read like the kernel's, through its own table.\<close>

interpretation user: va_source E "\<lambda>s. space E D fuel pid d s" "vmi_translate E fuel pid" "\<lambda>_. d" for E D fuel pid d
proof
  fix s pfn va
  let ?I = "\<lambda>s. space E D fuel pid d s"
  show "?I s \<Longrightarrow> vm_ok E s" by (rule viewD(2) [OF spaceD(1)])
  show "reads ?I core (vmi_read_page E pfn) (\<lambda>s. frame_read E s pfn)" by (rule reads_space [OF view.source_read])
  show "reads ?I core (vmi_translate E fuel pid va) (\<lambda>s. zero_if_none (walk E s d va))"
  proof (rule readsI)
    fix s
    assume s: "?I s"
    show "?I (snd (run_state (vmi_translate E fuel pid va) s)) \<and> core (snd (run_state (vmi_translate E fuel pid va) s)) = core s
      \<and> fst (run_state (vmi_translate E fuel pid va) s) = zero_if_none (walk E (core s) d va)"
      using reads_run [OF space_translate [OF spaceD(2-4) [OF s]] s surjective_pairing] by simp
  qed
  show "?I s \<Longrightarrow> mode_ok s" by (rule viewD(3) [OF spaceD(1)])
qed simp

subsection \<open>Properties\<close>



text \<open>A guest whose process 2 has the page directory of the kernel.\<close>

definition process_guest_memory :: "addr_t \<Rightarrow> u8" where
  "process_guest_memory = task_memory(0x402011 := 0x10)"

definition process_guest :: vmi where
  "process_guest = flat_guest process_guest_memory 0x401000 (linux_os zeroed_vmi)
     ((windows_os zeroed_vmi)\<lparr>win_pid_offset := 8, win_pdbase_offset := 16\<rparr>) VMI_OS_WINDOWS"

lemma process_guest_fields [simp]:
  "page_mode process_guest = VMI_PM_LEGACY" "kpgd process_guest = 0x1000" "init_task process_guest = 0x401000"
  "win_pid_offset (windows_os process_guest) = 8" "win_tasks_offset (windows_os process_guest) = 0"
  "win_pdbase_offset (windows_os process_guest) = 16" "os_type process_guest = VMI_OS_WINDOWS"
  by (simp_all add: process_guest_def zeroed_vmi_def)

lemma process_guest_view: "view xen_env {0x1000} (Map.empty, Map.empty) process_guest"
  unfolding process_guest_def by (rule flat_guest_view)

lemma process_guest_word:
  assumes "0x400000 \<le> unat va" "unat va < 0x7FFFF0"
  shows "virt_word xen_env process_guest 0x1000 va (v :: u32) = (VMI_SUCCESS,
    le_word [process_guest_memory va, process_guest_memory (va + 1), process_guest_memory (va + 2),
      process_guest_memory (va + 3)])"
  using flat_guest_word32 [OF assms, of process_guest_memory] by (simp add: process_guest_def)

lemma process_guest_dtb: "os_dtb xen_env process_guest 4 2 = Some 0x1000"
proof -
  have n: "node_next xen_env process_guest 0x401000 = 0x402000" "node_next xen_env process_guest 0x402000 = 0x403000"
    "node_next xen_env process_guest 0x402010 = 0x1000"
    "node_pid xen_env process_guest 8 0 0x401000 p = (VMI_SUCCESS, 1)"
    "node_pid xen_env process_guest 8 0 0x402000 p = (VMI_SUCCESS, 2)" for p
    by (simp_all add: node_next_def node_pid_def virt_addr_def process_guest_word process_guest_memory_def
        task_memory_def le_word_def)
  have "eprocess_walk xen_env process_guest (Suc (Suc m)) 2 8 0 0 0x401000 0 = Some 0x402000" for m
    by (simp add: n)
  moreover have "Suc (Suc 2) = 4" by simp
  ultimately have "eprocess_walk xen_env process_guest 4 2 8 0 0 0x401000 0 = Some 0x402000" by metis
  then show ?thesis by (simp add: os_dtb_def windows_pgd_def Let_def n)
qed


text \<open>On a Linux guest a symbol that is not cached is looked up in \<open>System.map\<close>, and if its address is
not zero the next lookup answers with the same address from the cache, whatever the file holds by then.\<close>

theorem vmi_translate_ksym2v_cached:
  assumes "os_type s = VMI_OS_LINUX" "sym_lookup s symbol = None"
    and "sysmap s = Some path" "path \<noteq> []" "host_file E path = Some (bytes_of (concat (map map_line es)))"
    and "\<forall>e \<in> set es. entry_ok e" and "symbol_entry symbol es = Some (a, t, n)" "strtoull16 a \<noteq> 0"
    and "run_state (vmi_translate_ksym2v E fuel symbol) s = (r, u)"
  shows "r = Some (strtoull16 a) \<and> core u = core s
    \<and> fst (run_state (vmi_translate_ksym2v E' fuel' symbol) u) = Some (strtoull16 a)"
proof -
  have none: "sym_cache s symbol = None" using assms(2) by (simp add: sym_lookup_def)
  have "run_state (vmi_translate_ksym2v E fuel symbol) s =
      (Some (strtoull16 a), s\<lparr>sym_cache := (sym_cache s)(symbol \<mapsto> sym_cache_entry_create s symbol (strtoull16 a))\<rparr>)"
    using run_system_map [OF assms(3-6), of symbol 0] assms(1,7,8)
    by (simp add: vmi_translate_ksym2v_def sym_cache_get_def none run_obind sym_cache_set_def)
  then have u: "r = Some (strtoull16 a)"
      "u = s\<lparr>sym_cache := (sym_cache s)(symbol \<mapsto> sym_cache_entry_create s symbol (strtoull16 a))\<rparr>"
    using assms(9) by simp_all
  then show ?thesis
    by (simp add: vmi_translate_ksym2v_def sym_cache_get_def sym_cache_entry_create_def core_def)
qed

lemma vmi_translate_ksym2v_cached_witness:
  "fst (run_state (vmi_translate_ksym2v map_env 0 ''init_task'') (zeroed_vmi\<lparr>sysmap := Some ''map'', os_type := VMI_OS_LINUX\<rparr>))
    = Some 0xc0505000"
  using vmi_translate_ksym2v_cached [of "zeroed_vmi\<lparr>sysmap := Some ''map'', os_type := VMI_OS_LINUX\<rparr>" "''init_task''"
      "''map''" map_env sample_map "''c0505000''" "''d''" "''init_task''", OF _ _ _ _ _ _ _ _ surjective_pairing, of 0 map_env 0]
    sample_map_facts
  by (simp add: map_env_def sym_lookup_def zeroed_vmi_def)

end
