(* ===== verification/Read_Settings.thy ===== *)
theory Read_Settings
  imports Address_Spaces
begin

text \<open>
  What reading never changes, from any state whatever: the paging mode and its flags, the page directory,
  the list head, the kind of system, the page and memory sizes. Every function that the initialisation
  calls to read the guest or to look up a symbol keeps these \<open>settings\<close>; the collection
  \<open>keeps_settings\<close> holds the lemmas.
\<close>

unbundle bit_operations_syntax

subsection \<open>The settings\<close>

definition settings where
  "settings s = (page_mode s, pae s, lme s, cr3 s, kpgd s, init_task s, os_type s, page_size s, page_shift s,
     vmi_size s, mode s, linux_os s, image_type s)"

lemma settings_upd [simp]:
  "settings (s\<lparr>heap_next := h\<rparr>) = settings s" "settings (s\<lparr>fault := b\<rparr>) = settings s"
  "settings (s\<lparr>driver := d\<rparr>) = settings s" "settings (s\<lparr>instance_ptrs := t\<rparr>) = settings s"
  "settings (s\<lparr>memory_cache := m\<rparr>) = settings s" "settings (s\<lparr>memory_cache_lru := l\<rparr>) = settings s"
  "settings (s\<lparr>memory_cache_size := z\<rparr>) = settings s" "settings (s\<lparr>pid_cache := p\<rparr>) = settings s"
  "settings (s\<lparr>sym_cache := y\<rparr>) = settings s" "settings (s\<lparr>v2p_cache := v\<rparr>) = settings s"
  "settings (s\<lparr>windows_os := w\<rparr>) = settings s" "settings (s\<lparr>sysmap := f\<rparr>) = settings s"
  "settings (s\<lparr>memory_cache_size_max := x\<rparr>) = settings s" "settings (s\<lparr>guest_mem := g\<rparr>) = settings s"
  by (simp_all add: settings_def)

named_theorems keeps_settings

lemma keeps_let [vmi_keeps]: "keeps c (f x) \<Longrightarrow> keeps c (let y = x in f y)"
  by simp

lemma keeps_cases [vmi_keeps]:
  "keeps c m1 \<Longrightarrow> keeps c m2 \<Longrightarrow> (\<And>b. keeps c (m3 b)) \<Longrightarrow>
    keeps c (case f of FNull \<Rightarrow> m1 | Fn b \<Rightarrow> m3 b | FWild \<Rightarrow> m2)"
  "keeps c n1 \<Longrightarrow> keeps c n2 \<Longrightarrow> keeps c n3 \<Longrightarrow> keeps c (case b of Xen \<Rightarrow> n1 | Kvm \<Rightarrow> n2 | File \<Rightarrow> n3)"
  "keeps c p1 \<Longrightarrow> (\<And>bs. keeps c (p2 bs)) \<Longrightarrow> (\<And>a. keeps c (p3 a)) \<Longrightarrow>
    keeps c (case d of PNull \<Rightarrow> p1 | PCopy bs \<Rightarrow> p2 bs | PForeign a \<Rightarrow> p3 a)"
  "keeps c s1 \<Longrightarrow> keeps c s2 \<Longrightarrow> keeps c (case st of VMI_SUCCESS \<Rightarrow> s1 | VMI_FAILURE \<Rightarrow> s2)"
  "keeps c q1 \<Longrightarrow> keeps c q2 \<Longrightarrow> keeps c q3 \<Longrightarrow> keeps c q4 \<Longrightarrow>
    keeps c (case pm of VMI_PM_UNKNOWN \<Rightarrow> q1 | VMI_PM_LEGACY \<Rightarrow> q2 | VMI_PM_PAE \<Rightarrow> q3 | VMI_PM_IA32E \<Rightarrow> q4)"
  by ((cases f; simp), (cases b; simp), (cases d; simp), (cases st; simp), (cases pm; simp))

lemma settings_modify [keeps_settings]: "(\<And>s. settings (g s) = settings s) \<Longrightarrow> keeps settings (modify g)"
  by (rule keeps_modify)

lemma settings_basic [keeps_settings]: "keeps settings safe_malloc" "keeps settings (raise_fault x)"
  by (simp_all add: keeps_def safe_malloc_def raise_fault_def)

lemma settings_clean_loop: "settings (snd (clean_loop s keys)) = settings s"
proof (induction s keys rule: clean_loop.induct)
  case (1 s keys)
  then show ?case by (subst clean_loop.simps) simp
qed

lemma settings_remove: "settings (fold remove_entry keys s) = settings s"
  by (induction keys arbitrary: s) (simp_all add: remove_entry_def)

lemma settings_memory [keeps_settings]:
  "keeps settings clean_cache" "keeps settings file_get_instance" "keeps settings xen_get_instance"
  by (simp_all add: keeps_def clean_cache_def Let_def case_prod_beta settings_remove settings_clean_loop
      file_get_instance_def xen_get_instance_def raise_fault_def)

lemma settings_get_memory_data [keeps_settings]: "keeps settings (get_memory_data E paddr len)"
  unfolding get_memory_data_def file_get_memory_def xen_get_memory_def xen_get_memory_pfn_def
    xen_get_domainid_def
  by (intro vmi_keeps keeps_settings)

lemma settings_memory_cache_insert [keeps_settings]: "keeps settings (memory_cache_insert E paddr)"
  unfolding memory_cache_insert_def validate_and_return_data_def create_new_entry_def
  by (intro vmi_keeps keeps_settings) simp_all

lemma settings_driver_get_instance [keeps_settings]: "keeps settings driver_get_instance"
  unfolding driver_get_instance_def driver_xen_setup_def driver_kvm_setup_def driver_file_setup_def
    driver_null_setup_def set_table_def
  by (intro vmi_keeps keeps_settings) simp_all

lemma settings_dispatch [keeps_settings]:
  "(\<And>b. keeps settings (impl b)) \<Longrightarrow> keeps settings (dispatch sel x impl)"
  unfolding dispatch_def by (intro vmi_keeps keeps_settings)

lemma settings_driver_read_page [keeps_settings]: "keeps settings (driver_read_page E page)"
  unfolding driver_read_page_def
  by (rule settings_dispatch)
    (simp add: xen_read_page_def file_read_page_def kvm_read_page_def Let_def vmi_keeps keeps_settings
      split: backend.split)

lemma settings_driver_reg [keeps_settings]:
  "keeps settings (driver_get_vcpureg E v reg vcpu)" "keeps settings driver_is_pv"
  unfolding driver_get_vcpureg_def driver_is_pv_def xen_is_pv_def kvm_is_pv_def file_is_pv_def
    xen_get_vcpureg_def xen_get_vcpureg_hvm_def xen_get_vcpureg_pv64_def xen_get_vcpureg_pv32_def
    xen_get_domainid_def kvm_get_vcpureg_def file_get_vcpureg_def
  by (intro vmi_keeps keeps_settings)+

subsection \<open>Reading memory\<close>

lemma settings_page [keeps_settings]:
  "keeps settings (vmi_read_page E pfn)" "keeps settings (page_bytes page off n)"
  unfolding vmi_read_page_def page_bytes_def by (intro vmi_keeps keeps_settings)+

lemma settings_copy_loop [keeps_settings]:
  "(\<And>k. keeps settings (tr k)) \<Longrightarrow> keeps settings (copy_loop E tr fuel count off)"
  by (induction fuel arbitrary: count off)
    (auto intro!: vmi_keeps keeps_settings simp only: copy_loop.simps)

lemma settings_run_copy_loop [keeps_settings]:
  "(\<And>k. keeps settings (tr k)) \<Longrightarrow> keeps settings (run_copy_loop E tr count)"
  unfolding run_copy_loop_def by (intro vmi_keeps keeps_settings)

lemma settings_vmi_read_pa [keeps_settings]: "keeps settings (vmi_read_pa E paddr count)"
  unfolding vmi_read_pa_def by (intro vmi_keeps keeps_settings)

lemma settings_vmi_read_X_pa [keeps_settings]:
  "keeps settings (vmi_read_X_pa E paddr v)" "keeps settings (vmi_read_8_pa E paddr v8)"
  "keeps settings (vmi_read_16_pa E paddr v16)" "keeps settings (vmi_read_32_pa E paddr v32)"
  "keeps settings (vmi_read_64_pa E paddr v64)" "keeps settings (vmi_read_addr_pa E paddr a)"
  unfolding vmi_read_X_pa_def vmi_read_8_pa_def vmi_read_16_pa_def vmi_read_32_pa_def vmi_read_64_pa_def
    vmi_read_addr_pa_def
  by (intro vmi_keeps keeps_settings)+

lemma settings_caches [keeps_settings]:
  "keeps settings (v2p_cache_get va dtb pa)" "keeps settings (v2p_cache_set va dtb pa)"
  "keeps settings (v2p_cache_del va dtb)" "keeps settings v2p_cache_flush"
  "keeps settings (sym_cache_get symb x)" "keeps settings (sym_cache_set symb x)"
  unfolding v2p_cache_get_def v2p_cache_set_def v2p_cache_del_def v2p_cache_flush_def
    sym_cache_get_def sym_cache_set_def
  by (intro vmi_keeps keeps_settings; simp)+

lemma settings_walks [keeps_settings]:
  "keeps settings (v2p_nopae E dtb va)" "keeps settings (v2p_pae E dtb va)" "keeps settings (v2p_ia32e E dtb va)"
  unfolding v2p_nopae_def v2p_pae_def v2p_ia32e_def get_pml4e_def get_pdpte_ia32e_def get_pde_ia32e_def
    get_pte_ia32e_def get_pdpi_def get_pgd_nopae_def get_pgd_pae_def get_pte_nopae_def get_pte_pae_def
  by (intro vmi_keeps keeps_settings)+

lemma settings_translate [keeps_settings]:
  "keeps settings (vmi_pagetable_lookup E dtb va)" "keeps settings (vmi_translate_kv2p E va)"
  unfolding vmi_pagetable_lookup_def vmi_translate_kv2p_def by (intro vmi_keeps keeps_settings)+

lemma settings_read_va [keeps_settings]:
  assumes "\<And>a. keeps settings (tr a)"
  shows "keeps settings (read_va E tr va count)" "keeps settings (read_X_va E tr va v)"
    "keeps settings (read_addr_va E tr va a)"
  unfolding read_va_def read_X_va_def read_addr_va_def va_step_def
  by (intro vmi_keeps keeps_settings assms)+

lemma settings_str_va_loop [keeps_settings]:
  "(\<And>a. keeps settings (tr a)) \<Longrightarrow> keeps settings (str_va_loop E tr fuel va r)"
  by (induction fuel arbitrary: r)
    (auto intro!: vmi_keeps keeps_settings simp only: str_va_loop.simps)

subsection \<open>Symbols\<close>

lemma settings_system_map [keeps_settings]:
  "keeps settings (linux_system_map_symbol_to_address E symbol address)"
  unfolding linux_system_map_symbol_to_address_def by (intro vmi_keeps keeps_settings) simp_all

lemma settings_rva_to_string [keeps_settings]: "keeps settings (rva_to_string E fuel rva)"
  unfolding rva_to_string_def read_str_va_def by (intro vmi_keeps keeps_settings)

lemma settings_linear_loop [keeps_settings]: "keeps settings (linear_loop E fuel symbol aon k i)"
  by (induction k arbitrary: i) (auto intro!: vmi_keeps keeps_settings simp only: linear_loop.simps)

lemma settings_find_aon_idx_bin [keeps_settings]:
  "keeps settings (find_aon_idx_bin E fuel symbol aon low high)"
proof (induction "nat (high - low + 1)" arbitrary: low high rule: less_induct)
  case less
  have b: "keeps settings (if x < 0 then find_aon_idx_bin E fuel symbol aon low ((low + high) sdiv 2 - 1)
      else if 0 < x then find_aon_idx_bin E fuel symbol aon ((low + high) sdiv 2 + 1) high
      else return y)" if "\<not> high < low" for x :: int and y
    using sdiv_two_between [of low high] that by (intro vmi_keeps less) simp_all
  show ?case
  proof (cases "high < low \<or> 2 ^ 31 \<le> low + high")
    case True
    then show ?thesis by (subst find_aon_idx_bin.simps) (auto intro: vmi_keeps keeps_settings)
  next
    case False
    then show ?thesis
      by (subst find_aon_idx_bin.simps) (simp only: Let_def if_False de_Morgan_disj, intro vmi_keeps keeps_settings b; simp)
  qed
qed

lemma settings_get_export_table [keeps_settings]: "keeps settings (get_export_table E)"
  unfolding get_export_table_def by (intro vmi_keeps keeps_settings)

lemma settings_export [keeps_settings]: "keeps settings (windows_export_to_rva E fuel symbol rva)"
  unfolding windows_export_to_rva_def get_aon_index_def get_aon_index_binary_def get_aon_index_linear_def
    get_aof_index_def get_export_rva_def
  by (intro vmi_keeps keeps_settings)

lemma settings_kdvb_loop [keeps_settings]: "keeps settings (kdvb_loop E bm ofs memsize fuel block_pa)"
  by (induction fuel arbitrary: block_pa) (auto intro!: vmi_keeps keeps_settings simp only: kdvb_loop.simps)

lemma settings_set_version [keeps_settings]: "keeps settings (set_version v)"
  unfolding set_version_def by (intro vmi_keeps keeps_settings) simp

lemma settings_kpcr [keeps_settings]:
  "keeps settings (find_windows_version E a)" "keeps settings (windows_kpcr_lookup E fuel symbol address)"
  unfolding windows_kpcr_lookup_def init_kdversion_block_def find_kdversionblock_address_fast_def
    find_windows_version_def kpcr_symbol_resolve_def
  by (intro vmi_keeps keeps_settings; simp)+

lemma settings_symbol [keeps_settings]:
  "keeps settings (windows_symbol_to_address E fuel symbol address)"
  "keeps settings (vmi_translate_ksym2v E fuel symbol)"
  unfolding vmi_translate_ksym2v_def windows_symbol_to_address_def by (intro vmi_keeps keeps_settings)+

lemma settings_translate0 [keeps_settings]: "keeps settings (vmi_translate E fuel 0 va)"
  by (simp add: vmi_translate_def settings_translate)

lemma settings_vmi_read_addr_va [keeps_settings]: "keeps settings (vmi_read_addr_va E fuel va 0 a)"
  unfolding vmi_read_addr_va_def by (intro vmi_keeps keeps_settings)

lemma settings_read_ksym [keeps_settings]: "keeps settings (vmi_read_addr_ksym E fuel symb a)"
  unfolding vmi_read_addr_ksym_def vmi_read_64_ksym_def vmi_read_32_ksym_def vmi_read_X_ksym_def
    vmi_read_ksym_def vmi_read_va_def
  by (intro vmi_keeps keeps_settings)

subsection \<open>The search for the System process\<close>

lemma settings_get_check_magic_func [keeps_settings]: "keeps settings get_check_magic_func"
  unfolding get_check_magic_func_def by (intro vmi_keeps keeps_settings)

end
