(* ===== verification/Os_Init.thy ===== *)
theory Os_Init
  imports Read_Settings
begin

text \<open>
  What the library finds out about the operating system when it opens a guest: \<^verbatim>\<open>os/windows/core.c\<close> and
  \<^verbatim>\<open>os/linux/core.c\<close>. The searches through the guest's memory have the bound \<open>fuel\<close>, and \<open>None\<close> is that
  it was reached.
\<close>

unbundle bit_operations_syntax

subsection \<open>os/windows/core.c\<close>

text \<open>
  The loop of \<open>get_ntoskrnl_base\<close>. A frame that cannot be read is tried again without going on to the
  next, so the search does not end there: \<open>None\<close> means that the bound was reached.
\<close>

primrec ntoskrnl_loop :: "env \<Rightarrow> nat \<Rightarrow> addr_t \<Rightarrow> addr_t option vm" where
  "ntoskrnl_loop E 0 paddr = return None"
| "ntoskrnl_loop E (Suc fuel) paddr = do {
     memsize \<leftarrow> gets vmi_size;
     if memsize \<le> paddr then return (Some 0)
     else do {
       img \<leftarrow> vmi_read_pa E paddr MAX_HEADER_BYTES;
       if length img \<noteq> unat MAX_HEADER_BYTES then ntoskrnl_loop E fuel paddr
       else case validate_pe_image img MAX_HEADER_BYTES of
         None \<Rightarrow> raise_fault (Some 0)
       | Some VMI_SUCCESS \<Rightarrow> return (Some paddr)
       | Some VMI_FAILURE \<Rightarrow> do {
           sz \<leftarrow> gets page_size;
           ntoskrnl_loop E fuel (paddr + ucast sz) } } }"

definition get_ntoskrnl_base :: "env \<Rightarrow> nat \<Rightarrow> addr_t option vm" where
  "get_ntoskrnl_base E fuel = ntoskrnl_loop E fuel 0"

text \<open>\<open>find_page_mode\<close> tries each mode in turn, with the address caches emptied in between.\<close>

definition set_page_mode :: "page_mode_t \<Rightarrow> unit vm" where
  "set_page_mode pm = modify (\<lambda>s. s\<lparr>page_mode := pm\<rparr>)"

definition find_page_mode :: "env \<Rightarrow> nat \<Rightarrow> status_t option vm" where
  "find_page_mode E fuel = do {
     set_page_mode VMI_PM_LEGACY;
     obind (vmi_read_addr_ksym E fuel ''KernBase'' 0) (\<lambda>(st, proc).
       if st = VMI_SUCCESS then return (Some VMI_SUCCESS)
       else do {
         v2p_cache_flush;
         set_page_mode VMI_PM_PAE;
         obind (vmi_read_addr_ksym E fuel ''KernBase'' proc) (\<lambda>(st, proc).
           if st = VMI_SUCCESS then return (Some VMI_SUCCESS)
           else do {
             v2p_cache_flush;
             set_page_mode VMI_PM_IA32E;
             obind (vmi_read_addr_ksym E fuel ''KernBase'' proc) (\<lambda>(st, proc).
               if st = VMI_SUCCESS then return (Some VMI_SUCCESS)
               else do { v2p_cache_flush; return (Some VMI_FAILURE) }) }) }) }"

text \<open>
  The end that the three methods share: the page directory and the list head out of the process
  structure at a physical address.
\<close>

definition kpgd_of_process :: "env \<Rightarrow> addr_t \<Rightarrow> status_t vm" where
  "kpgd_of_process E proc = do {
     w \<leftarrow> gets windows_os;
     k \<leftarrow> gets kpgd;
     (st, k) \<leftarrow> vmi_read_addr_pa E (proc + scast (win_pdbase_offset w)) k;
     modify (\<lambda>s. s\<lparr>kpgd := k\<rparr>);
     if st = VMI_FAILURE then return VMI_FAILURE
     else if k = 0 then return VMI_FAILURE
     else do {
       w \<leftarrow> gets windows_os;
       t \<leftarrow> gets init_task;
       (_, t) \<leftarrow> vmi_read_addr_pa E (proc + scast (win_tasks_offset w)) t;
       modify (\<lambda>s. s\<lparr>init_task := t\<rparr>);
       return VMI_SUCCESS } }"

definition get_kpgd_method2 :: "env \<Rightarrow> nat \<Rightarrow> status_t option vm" where
  "get_kpgd_method2 E fuel = do {
     w \<leftarrow> gets windows_os;
     obind (if sysproc w = 0 then windows_find_eprocess E fuel ''System'' else return (Some (sysproc w)))
       (\<lambda>proc.
         if proc = 0 then return (Some VMI_FAILURE)
         else do { st \<leftarrow> kpgd_of_process E proc; return (Some st) }) }"

definition windows_find_cr3 :: "env \<Rightarrow> nat \<Rightarrow> addr_t option vm" where
  "windows_find_cr3 E fuel = obind (get_kpgd_method2 E fuel) (\<lambda>_. do {
     k \<leftarrow> gets kpgd; return (Some k) })"

definition get_kpgd_method1 :: "env \<Rightarrow> nat \<Rightarrow> status_t option vm" where
  "get_kpgd_method1 E fuel = obind (vmi_read_addr_ksym E fuel ''PsInitialSystemProcess'' 0) (\<lambda>(st, proc).
     if st = VMI_FAILURE then return (Some VMI_FAILURE)
     else do {
       proc \<leftarrow> vmi_translate_kv2p E proc;
       st \<leftarrow> kpgd_of_process E proc;
       return (Some st) })"

definition get_kpgd_method0 :: "env \<Rightarrow> nat \<Rightarrow> status_t option vm" where
  "get_kpgd_method0 E fuel = obind (windows_symbol_to_address E fuel ''PsActiveProcessHead'' 0) (\<lambda>(st, proc).
     if st = VMI_FAILURE then return (Some VMI_FAILURE)
     else do {
       (st, proc) \<leftarrow> vmi_read_addr_va E fuel proc 0 proc;
       if st = VMI_FAILURE then return (Some VMI_FAILURE)
       else do {
         pa \<leftarrow> vmi_translate_kv2p E proc;
         w \<leftarrow> gets windows_os;
         st \<leftarrow> kpgd_of_process E (pa - scast (win_tasks_offset w));
         return (Some st) } })"

text \<open>
  \<open>windows_init\<close> passes the address of \<open>ntoskrnl_va\<close> itself to \<open>windows_symbol_to_address\<close>, which reads
  the export table at \<open>ntoskrnl_va\<close> and stores the offset it finds there before it adds the two: the
  member is added to itself.
\<close>

definition set_ntoskrnl_va :: "addr_t \<Rightarrow> unit vm" where
  "set_ntoskrnl_va a = modify (\<lambda>s. s\<lparr>windows_os := (windows_os s)\<lparr>ntoskrnl_va := a\<rparr>\<rparr>)"

definition symbol_to_ntoskrnl_va :: "env \<Rightarrow> nat \<Rightarrow> string \<Rightarrow> status_t option vm" where
  "symbol_to_ntoskrnl_va E fuel symbol = do {
     k \<leftarrow> gets kpgd;
     (if k \<noteq> 0 then return () else do { _ \<leftarrow> driver_get_vcpureg E 0 CR3 0; return () });
     w \<leftarrow> gets windows_os;
     obind (windows_kpcr_lookup E fuel symbol (ntoskrnl_va w)) (\<lambda>(st, address). do {
       set_ntoskrnl_va address;
       if st = VMI_SUCCESS then return (Some VMI_SUCCESS)
       else obind (windows_export_to_rva E fuel (bytes_of symbol) address) (\<lambda>(st, rva). do {
         set_ntoskrnl_va rva;
         if st = VMI_SUCCESS then do {
           w \<leftarrow> gets windows_os;
           set_ntoskrnl_va (ntoskrnl_va w + rva);
           return (Some VMI_SUCCESS) }
         else return (Some VMI_FAILURE) }) }) }"

definition windows_init :: "env \<Rightarrow> nat \<Rightarrow> status_t option vm" where
  "windows_init E fuel = do {
     pm \<leftarrow> gets page_mode;
     obind (if pm = VMI_PM_UNKNOWN then find_page_mode E fuel else return (Some VMI_SUCCESS)) (\<lambda>st.
       if st = VMI_FAILURE then return (Some VMI_FAILURE)
       else obind (symbol_to_ntoskrnl_va E fuel ''KernBase'') (\<lambda>st.
         if st = VMI_FAILURE then return (Some VMI_FAILURE)
         else do {
           w \<leftarrow> gets windows_os;
           pa \<leftarrow> vmi_translate_kv2p E (ntoskrnl_va w);
           modify (\<lambda>s. s\<lparr>windows_os := (windows_os s)\<lparr>ntoskrnl := pa\<rparr>\<rparr>);
           get_kpgd_method2 E fuel })) }"

subsection \<open>os/linux/core.c\<close>

text \<open>The first part of \<open>linux_init\<close> looks for the page directory, the last reads the list head.\<close>

definition linux_find_kpgd :: "env \<Rightarrow> status_t vm" where
  "linux_find_kpgd E = do {
     c \<leftarrow> gets cr3;
     if c \<noteq> 0 then do { modify (\<lambda>s. s\<lparr>kpgd := c\<rparr>); return VMI_SUCCESS }
     else do {
       k \<leftarrow> gets kpgd;
       (st, k) \<leftarrow> linux_system_map_symbol_to_address E ''swapper_pg_dir'' k;
       modify (\<lambda>s. s\<lparr>kpgd := k\<rparr>);
       if st = VMI_SUCCESS then do {
         pv \<leftarrow> driver_is_pv;
         k \<leftarrow> vmi_translate_kv2p E k;
         modify (\<lambda>s. s\<lparr>kpgd := k\<rparr>);
         if pv \<noteq> 0 then do {
           (st, k) \<leftarrow> vmi_read_addr_pa E k k;
           modify (\<lambda>s. s\<lparr>kpgd := k\<rparr>);
           return st }
         else return VMI_SUCCESS }
       else return VMI_FAILURE } }"

definition linux_find_tasks :: "env \<Rightarrow> nat \<Rightarrow> status_t option vm" where
  "linux_find_tasks E fuel = obind (vmi_translate_ksym2v E fuel ''init_task'') (\<lambda>address. do {
     l \<leftarrow> gets linux_os;
     t \<leftarrow> gets init_task;
     (st, t) \<leftarrow> vmi_read_addr_va E fuel (address + scast (linux_tasks_offset l)) 0 t;
     modify (\<lambda>s. s\<lparr>init_task := t\<rparr>);
     return (Some st) })"

text \<open>Whatever the first part finds, \<open>kpgd\<close> is then set to \<open>cr3\<close>.\<close>

definition linux_init :: "env \<Rightarrow> nat \<Rightarrow> status_t option vm" where
  "linux_init E fuel = do {
     st \<leftarrow> linux_find_kpgd E;
     if st = VMI_FAILURE then return (Some VMI_FAILURE)
     else do {
       modify (\<lambda>s. s\<lparr>kpgd := cr3 s\<rparr>);
       linux_find_tasks E fuel } }"

subsection \<open>What the searches find\<close>

text \<open>An address of the guest's width, as \<open>vmi_read_addr_pa\<close> reads it.\<close>

definition phys_addr :: "env \<Rightarrow> vmi \<Rightarrow> addr_t \<Rightarrow> addr_t \<Rightarrow> status_t \<times> addr_t" where
  "phys_addr E s pa v = (if page_mode s = VMI_PM_IA32E then phys_word E s pa v
     else map_prod id ucast (phys_word E s pa (0 :: u32)))"

lemma phys_addr_core [simp]: "phys_addr E (core s) pa v = phys_addr E s pa v"
  by (simp add: phys_addr_def)

lemma run_vmi_read_addr_pa:
  assumes "vm_ok E s"
  obtains t where "run_state (vmi_read_addr_pa E pa v) s = (phys_addr E s pa v, t)" "vm_ok E t" "core t = core s"
proof -
  note r = phys.reads_vmi_read_addr_pa [of E pa v]
  have "fst (run_state (vmi_read_addr_pa E pa v) s) = phys_addr E s pa v"
    using reads_value [OF r assms] by (simp add: phys_addr_def)
  then show ?thesis using that reads_inv [OF r assms] reads_core [OF r assms] by (metis prod.collapse)
qed

text \<open>The physical memory does not depend on where the kernel's structures are.\<close>

lemma memory_of_kernel [simp]:
  "memory_of E (s\<lparr>kpgd := k\<rparr>) a n = memory_of E s a n" "memory_of E (s\<lparr>init_task := h\<rparr>) a n = memory_of E s a n"
  "beyond_memory (s\<lparr>kpgd := k\<rparr>) a n = beyond_memory s a n"
  "beyond_memory (s\<lparr>init_task := h\<rparr>) a n = beyond_memory s a n"
  by (simp_all add: memory_of_def beyond_memory_def split: option.split backend.split)

lemma phys_byte_kernel [simp]:
  "phys_byte E (s\<lparr>kpgd := k\<rparr>) pa = phys_byte E s pa" "phys_byte E (s\<lparr>init_task := h\<rparr>) pa = phys_byte E s pa"
  by (simp_all add: phys_byte_def frame_read_def frame_page_def page_fetch_def page_byte_def split: page_data.split)

lemma phys_word_kernel [simp]:
  "phys_word E (s\<lparr>kpgd := k\<rparr>) pa v = phys_word E s pa v"
  "phys_word E (s\<lparr>init_task := h\<rparr>) pa v = phys_word E s pa v"
  "phys_addr E (s\<lparr>kpgd := k\<rparr>) pa x = phys_addr E s pa x"
  by (simp_all add: phys_addr_def phys_word_def phys_bytes_def)

lemma vm_ok_kernel [simp]:
  "vm_ok E (s\<lparr>kpgd := k\<rparr>) = vm_ok E s" "vm_ok E (s\<lparr>init_task := h\<rparr>) = vm_ok E s"
  by (simp_all add: vm_ok_def page_cache_ok_def entries_ok_def backing_ready_def attached_def)

lemma core_kernel [simp]:
  "core (s\<lparr>kpgd := k\<rparr>) = core s\<lparr>kpgd := k\<rparr>" "core (s\<lparr>init_task := h\<rparr>) = core s\<lparr>init_task := h\<rparr>"
  by (simp_all add: core_def)

text \<open>The kernel's page directory and the head of the process list are the fields that the configured
offsets name of the System process: when its physical address is known, \<open>get_kpgd_method2\<close> stores them
and succeeds exactly if the first can be read and is not zero; the list head is read only then.\<close>

theorem get_kpgd_method2_known:
  assumes "vm_ok E s" and "sysproc (windows_os s) \<noteq> 0"
  defines "d \<equiv> phys_addr E s (sysproc (windows_os s) + scast (win_pdbase_offset (windows_os s))) (kpgd s)"
    and "h \<equiv> phys_addr E s (sysproc (windows_os s) + scast (win_tasks_offset (windows_os s))) (init_task s)"
  shows "\<exists>t. run_state (get_kpgd_method2 E fuel) s
      = (Some (if fst d = VMI_SUCCESS \<and> snd d \<noteq> 0 then VMI_SUCCESS else VMI_FAILURE), t) \<and> vm_ok E t
    \<and> core t = (if fst d = VMI_SUCCESS \<and> snd d \<noteq> 0 then core s\<lparr>kpgd := snd d, init_task := snd h\<rparr>
        else core s\<lparr>kpgd := snd d\<rparr>)"
proof -
  let ?w = "windows_os s"
  obtain t where t: "run_state (vmi_read_addr_pa E (sysproc ?w + scast (win_pdbase_offset ?w)) (kpgd s)) s = (d, t)"
    "vm_ok E t" "core t = core s"
    using run_vmi_read_addr_pa [OF assms(1)] d_def by blast
  have f: "windows_os t = ?w" "init_task t = init_task s"
    using core_eqD(11,4) [OF t(3)] by simp_all
  have "vm_ok E (t\<lparr>kpgd := snd d\<rparr>)" using t(2) by simp
  moreover have "phys_addr E (t\<lparr>kpgd := snd d\<rparr>) pa v = phys_addr E s pa v" for pa v
    using t(3) by (metis phys_word_kernel(3) phys_addr_core)
  ultimately obtain u where u: "run_state (vmi_read_addr_pa E (sysproc ?w + scast (win_tasks_offset ?w)) (init_task s))
      (t\<lparr>kpgd := snd d\<rparr>) = (h, u)" "vm_ok E u" "core u = core s\<lparr>kpgd := snd d\<rparr>"
    using run_vmi_read_addr_pa [of E "t\<lparr>kpgd := snd d\<rparr>"] t(3) h_def by (metis core_kernel(1))
  show ?thesis
    using assms(2) t u f
    by (cases "fst d") (auto simp: get_kpgd_method2_def kpgd_of_process_def run_obind case_prod_beta)
qed

text \<open>A guest whose memory holds the byte 7 everywhere, but for the page directory.\<close>

definition sevens_guest :: vmi where
  "sevens_guest = flat_guest (\<lambda>_. 7) 0 (linux_os zeroed_vmi)
     ((windows_os zeroed_vmi)\<lparr>sysproc := 0x2000, win_pdbase_offset := 0x18, win_tasks_offset := 0x88\<rparr>) VMI_OS_WINDOWS"

lemma sevens_phys:
  assumes "a \<in> {0x2018, 0x2088}"
  shows "phys_addr xen_env sevens_guest a v = (VMI_SUCCESS, 0x7070707)"
proof -
  have "phys_bytes xen_env sevens_guest a 4 = map (\<lambda>i. 7) [0..<4]"
  proof (rule phys_bytes_all)
    fix j :: nat
    assume "j < 4"
    then have "j = 0 \<or> j = 1 \<or> j = 2 \<or> j = 3" by auto
    then show "phys_byte xen_env sevens_guest (a + of_nat j) = Some 7"
      using assms by (auto simp: sevens_guest_def flat_guest_byte flat_memory_def)
  qed
  then show ?thesis
    by (simp add: phys_addr_def phys_word_def Let_def sevens_guest_def read_status_def overlay_def word_bytes_def
        le_word_def upt_rec)
qed

lemma get_kpgd_method2_known_witness:
  "\<exists>t. run_state (get_kpgd_method2 xen_env 0) sevens_guest = (Some VMI_SUCCESS, t) \<and> kpgd t = 0x7070707
    \<and> init_task t = 0x7070707"
proof -
  have w: "windows_os sevens_guest = (windows_os zeroed_vmi)\<lparr>sysproc := 0x2000, win_pdbase_offset := 0x18,
      win_tasks_offset := 0x88\<rparr>" by (simp add: sevens_guest_def)
  have "vm_ok xen_env sevens_guest" using viewD(2) [OF flat_guest_view] by (simp add: sevens_guest_def)
  from get_kpgd_method2_known [OF this, of 0] obtain t where
    t: "run_state (get_kpgd_method2 xen_env 0) sevens_guest = (Some VMI_SUCCESS, t)"
    "core t = core sevens_guest\<lparr>kpgd := 0x7070707, init_task := 0x7070707\<rparr>"
    by (auto simp: w sevens_phys)
  have "kpgd (core t) = 0x7070707 \<and> init_task (core t) = 0x7070707" by (simp add: t(2))
  then show ?thesis using t(1) by simp
qed

text \<open>The search for the kernel's image does not return: it starts at address 0, whose frame the
library never reads, and a frame that cannot be read is tried again.\<close>

theorem get_ntoskrnl_base_stuck:
  assumes "vmi_size s \<noteq> 0"
  shows "run_state (get_ntoskrnl_base E fuel) s = (None, s)"
proof -
  have "run_state (vmi_read_pa E 0 n) s = ([], s)" for n
    by (simp add: vmi_read_pa_def run_copy_loop_def vmi_read_page_def Let_def)
  then have "run_state (ntoskrnl_loop E fuel 0) s = (None, s)"
    using assms by (induction fuel) (auto simp: MAX_HEADER_BYTES_def word_le_nat_alt unat_eq_0)
  then show ?thesis by (simp add: get_ntoskrnl_base_def)
qed

lemma get_ntoskrnl_base_stuck_witness:
  "run_state (get_ntoskrnl_base bare_env 100) (zeroed_vmi\<lparr>vmi_size := 0x1000000\<rparr>)
    = (None, zeroed_vmi\<lparr>vmi_size := 0x1000000\<rparr>)"
  by (rule get_ntoskrnl_base_stuck) simp

text \<open>Each setting alone.\<close>

lemma settings_field:
  assumes "keeps settings m"
  shows "keeps pae m" and "keeps cr3 m" and "keeps kpgd m"
  using assms by (simp_all add: keeps_def settings_def)

lemma keeps_linux_find_tasks: "keeps kpgd (linux_find_tasks E fuel)" "keeps cr3 (linux_find_tasks E fuel)"
  unfolding linux_find_tasks_def
  by (intro vmi_keeps settings_field settings_symbol settings_vmi_read_addr_va; simp)+

lemma keeps_linux_find_kpgd: "keeps cr3 (linux_find_kpgd E)"
  unfolding linux_find_kpgd_def
  by (intro vmi_keeps settings_field settings_system_map settings_driver_reg settings_translate
      settings_vmi_read_X_pa; simp)

text \<open>Whatever it looked up for \<open>swapper_pg_dir\<close> is lost.\<close>

lemma linux_init_uses_cr3:
  assumes "run_state (linux_init E fuel) s = (Some VMI_SUCCESS, t)"
  shows "kpgd t = cr3 s \<and> cr3 t = cr3 s"
proof -
  obtain st u where u: "run_state (linux_find_kpgd E) s = (st, u)" "cr3 u = cr3 s"
    using keepsD [OF keeps_linux_find_kpgd [of E], of s] by (metis prod.collapse)
  then show ?thesis
    using assms keepsD [OF keeps_linux_find_tasks(1), of E fuel "u\<lparr>kpgd := cr3 u\<rparr>"]
      keepsD [OF keeps_linux_find_tasks(2), of E fuel "u\<lparr>kpgd := cr3 u\<rparr>"]
    by (auto simp: linux_init_def split: if_splits)
qed

lemma view_sym_cache: "view E D c s \<Longrightarrow> view E D (names (s\<lparr>sym_cache := p\<rparr>)) (s\<lparr>sym_cache := p\<rparr>)"
proof -
  assume v: "view E D c s"
  have "xlat_ok E (s\<lparr>sym_cache := p\<rparr>) = xlat_ok E s"
    by (rule xlat_ok_cong) (simp_all add: core_def page_part_def v2p_lookup_def v2p_build_key_def
        page_mask_def fun_eq_iff cong: option.case_cong)
  moreover have "narrow E (s\<lparr>sym_cache := p\<rparr>) = narrow E s" by (rule ext, rule narrow_cong) (simp add: core_def)
  ultimately show ?thesis using v by (simp add: view_def)
qed

text \<open>C33: Opening a 32-bit Linux guest (legacy or PAE paging) whose \<open>cr3\<close> is known and points to page tables that map no
  page at or above 4 GiB, with a translation cache that agrees with them (\<open>view\<close> once \<open>kpgd\<close> is \<open>cr3\<close>): \<open>linux_init\<close>
  takes \<open>cr3\<close> as the kernel's page directory, reads the head of the task list through it at the address that
  \<open>System.map\<close> gives for \<open>init_task\<close> plus the configured offset, stores what it read and answers with the status of
  the read; it changes nothing else but the caches. Guests with IA-32e paging are not covered.\<close>

theorem linux_init_finds_tasks:
  assumes v: "view E D c (s\<lparr>kpgd := cr3 s\<rparr>)"
    and os: "os_type s = VMI_OS_LINUX" "sym_lookup s ''init_task'' = None"
    and sysmap: "sysmap s = Some path" "path \<noteq> []" "host_file E path = Some (bytes_of (concat (map map_line es)))"
      "\<forall>e \<in> set es. entry_ok e" "symbol_entry ''init_task'' es = Some (a, t, n)"
    and run: "run_state (linux_init E fuel) s = (r, u)"
  defines "h \<equiv> virt_addr E (s\<lparr>kpgd := cr3 s\<rparr>) (cr3 s)
      (strtoull16 a + scast (linux_tasks_offset (linux_os s))) (init_task s)"
  shows "r = Some (fst h) \<and> core u = core s\<lparr>kpgd := cr3 s, init_task := snd h\<rparr>"
proof -
  let ?s = "s\<lparr>kpgd := cr3 s\<rparr>"
  obtain w where w: "run_state (vmi_translate_ksym2v E fuel ''init_task'') ?s = (Some (strtoull16 a), w)"
    "view E D (names w) w" "core w = core ?s"
  proof -
    have "sym_cache ?s ''init_task'' = None" using os(2) by (simp add: sym_lookup_def)
    then have x: "run_state (vmi_translate_ksym2v E fuel ''init_task'') ?s = (Some (strtoull16 a),
        if strtoull16 a = 0 then ?s
        else ?s\<lparr>sym_cache := (sym_cache ?s)(''init_task'' \<mapsto> sym_cache_entry_create ?s ''init_task'' (strtoull16 a))\<rparr>)"
      using run_system_map [of ?s path E es "''init_task''" 0] os(1) sysmap
      by (simp add: vmi_translate_ksym2v_def sym_cache_get_def run_obind sym_cache_set_def)
    show thesis
      by (rule that [OF x]) (use view_sym_cache [OF v] v viewD(7) [OF v] in \<open>auto simp: core_def\<close>)
  qed
  have f: "linux_os w = linux_os s" "init_task w = init_task s" "kpgd (core w) = cr3 s"
    using core_eqD(10,4,3) [OF w(3)] by simp_all
  obtain z where z: "run_state (vmi_read_addr_va E fuel
      (strtoull16 a + scast (linux_tasks_offset (linux_os s))) 0 (init_task s)) w = (h, z)" "core z = core w"
  proof -
    let ?va = "strtoull16 a + scast (linux_tasks_offset (linux_os s))"
    have "vmi_read_addr_va E fuel ?va 0 (init_task s) = vmi_read_addr_kva E ?va (init_task s)"
      by (simp add: vmi_read_addr_va_def vmi_translate_def [abs_def])
    moreover have "virt_addr E (core w) (kpgd (core w)) ?va (init_task s) = h"
      unfolding f(3) unfolding w(3) h_def by (simp del: core_kernel)
    ultimately show thesis
      using reads_run [OF kern.reads_read_addr_va w(2) surjective_pairing, of ?va "init_task s"] that
      by (metis prod.collapse)
  qed
  have "cr3 s \<noteq> 0" using viewD(6) [OF v] by simp
  then have "run_state (linux_init E fuel) s = (Some (fst h), z\<lparr>init_task := snd h\<rparr>)"
    by (simp add: linux_init_def linux_find_kpgd_def linux_find_tasks_def run_obind w(1) f z(1) case_prod_beta)
  then show ?thesis using run z(2) w(3) by simp
qed

text \<open>A Linux guest whose task list starts at \<open>0x405010\<close>.\<close>

definition linux_guest :: vmi where
  "linux_guest = (flat_guest (\<lambda>va. if va = 0x405011 then 0x40 else if va = 0x405012 then 0x50 else 0) 0
     ((linux_os zeroed_vmi)\<lparr>linux_tasks_offset := 0x10\<rparr>) (windows_os zeroed_vmi) VMI_OS_LINUX)
     \<lparr>cr3 := 0x1000, sysmap := Some ''map''\<rparr>"

lemma linux_guest_view: "view xen_env {0x1000} (Map.empty, Map.empty) linux_guest"
proof -
  have "vm_ok xen_env linux_guest" "names linux_guest = (Map.empty, Map.empty)"
    by (simp_all add: linux_guest_def vm_ok_def page_cache_ok_def backing_ready_def entries_ok_def flat_guest_def
        legacy_guest_def xen_guest_def attach_def attached_def xen_vmi_def zeroed_vmi_def names_def pid_lookup_def
        sym_lookup_def fun_eq_iff)
  then show ?thesis
    using sound_empty [of linux_guest] narrow_legacy [of linux_guest]
    by (simp add: view_def xlat_ok_def mode_ok_def linux_guest_def)
qed

lemma memory_of_boot [simp]:
  "memory_of E (s\<lparr>cr3 := k, sysmap := m\<rparr>) a n = memory_of E s a n"
  "beyond_memory (s\<lparr>cr3 := k, sysmap := m\<rparr>) a n = beyond_memory s a n"
  by (simp_all add: memory_of_def beyond_memory_def split: option.split backend.split)

lemma phys_byte_boot [simp]: "phys_byte E (s\<lparr>cr3 := k, sysmap := m\<rparr>) pa = phys_byte E s pa"
  by (simp add: phys_byte_def frame_read_def frame_page_def page_fetch_def page_byte_def split: page_data.split)

lemma virt_addr_boot:
  "page_mode s = VMI_PM_LEGACY \<Longrightarrow> virt_addr E (s\<lparr>cr3 := k, sysmap := m\<rparr>) d va v = virt_addr E s d va v"
  by (simp add: virt_addr_def virt_word_def virt_bytes_def virt_byte_def walk_def entry32_def [abs_def] entry_at_def
      phys_word_def phys_bytes_def cong: option.case_cong)

lemma linux_init_finds_tasks_witness:
  "\<exists>t. run_state (linux_init xen_env 0) linux_guest = (Some VMI_SUCCESS, t) \<and> kpgd t = 0x1000 \<and> init_task t = 0x504000"
proof -
  let ?r = "fst (run_state (linux_init xen_env 0) linux_guest)" and ?t = "snd (run_state (linux_init xen_env 0) linux_guest)"
  have s: "linux_guest\<lparr>kpgd := 0x1000\<rparr> = linux_guest"
    by (simp add: linux_guest_def flat_guest_def legacy_guest_def)
  have sym: "symbol_entry ''init_task'' [(''00405000'', ''d'', ''init_task'')] = Some (''00405000'', ''d'', ''init_task'')"
    by (simp add: symbol_entry_def)
  have num: "strtoull16 ''00405000'' = 0x405000"
    by (simp add: strtoull16_def c_isspace_def sign_split_def hex_prefix_def digit_val_def Let_def)
  have "word_chars ''00405000''" "word_chars ''d''" "word_chars ''init_task''"
    by (simp_all add: word_chars_def c_isspace_def)
  then have e: "\<forall>e \<in> set [(''00405000'', ''d'', ''init_task'')]. entry_ok e"
    by (simp add: entry_ok_def map_line_def MAX_ROW_LENGTH_def)
  have f: "host_file xen_env ''map'' = Some (bytes_of (concat (map map_line [(''00405000'', ''d'', ''init_task'')])))"
    by (simp add: xen_env_def map_line_def)
  have g: "sysmap linux_guest = Some ''map''" "os_type linux_guest = VMI_OS_LINUX" "sym_lookup linux_guest ''init_task'' = None"
    "cr3 linux_guest = 0x1000" "init_task linux_guest = 0" "linux_tasks_offset (linux_os linux_guest) = 0x10"
    by (simp_all add: linux_guest_def sym_lookup_def flat_guest_def legacy_guest_def xen_guest_def attach_def
        xen_vmi_def zeroed_vmi_def)
  have h: "virt_addr xen_env linux_guest 0x1000 0x405010 v = (VMI_SUCCESS, 0x504000)" for v
    by (simp add: linux_guest_def virt_addr_boot) (simp add: virt_addr_def flat_guest_word32 le_word_def)
  have "?r = Some VMI_SUCCESS \<and> core ?t = core linux_guest\<lparr>kpgd := 0x1000, init_task := 0x504000\<rparr>"
    using linux_init_finds_tasks [of xen_env "{0x1000}" "(Map.empty, Map.empty)" linux_guest "''map''"
        "[(''00405000'', ''d'', ''init_task'')]" "''00405000''" "''d''" "''init_task''" 0, OF _ g(2,3,1) _ f e sym surjective_pairing]
      linux_guest_view
    by (simp add: s g num h)
  then have "?r = Some VMI_SUCCESS" "kpgd (core ?t) = 0x1000" "init_task (core ?t) = 0x504000" by simp_all
  then have "run_state (linux_init xen_env 0) linux_guest = (Some VMI_SUCCESS, ?t) \<and> kpgd ?t = 0x1000
      \<and> init_task ?t = 0x504000"
    by (simp add: prod_eq_iff)
  then show ?thesis by (rule exI)
qed

lemma keeps_find_page_mode: "keeps pae (find_page_mode E fuel)"
  unfolding find_page_mode_def set_page_mode_def
  by (intro vmi_keeps settings_field settings_read_ksym settings_caches; simp)

text \<open>Trying the paging modes does not set the flag \<open>pae\<close>, by which the page-table walks choose the
width of their indices: after \<open>find_page_mode\<close> has settled on PAE for a guest whose registers were not
available, the mode and the flag disagree.\<close>

theorem find_page_mode_leaves_pae:
  assumes "run_state (find_page_mode E fuel) s = (r, t)"
  shows "pae t = pae s \<and> (page_mode t = VMI_PM_PAE \<and> pae s = 0 \<longrightarrow> \<not> mode_ok t)"
  using keepsD [OF keeps_find_page_mode, of E fuel s] assms by (auto simp: mode_ok_def)

lemma find_page_mode_leaves_pae_witness:
  "pae (snd (run_state (find_page_mode bare_env 3) zeroed_vmi)) = 0"
  using find_page_mode_leaves_pae [OF surjective_pairing, of bare_env 3 zeroed_vmi] by (simp add: zeroed_vmi_def)

end
