(* ===== verification/Config_Parser.thy ===== *)
theory Config_Parser
  imports Vmi_Instance C_Strings
begin

text \<open>
  The parser of the configuration file: the scanner of \<^verbatim>\<open>config/lexicon.l\<close>, and the grammar of
  \<^verbatim>\<open>config/grammar.y\<close> with its actions. Each call scans its text from the start, as the generated scanner does
  on its first call and after a text that it has read to the end.
\<close>

subsection \<open>lexicon.l\<close>

datatype token =
  NUM string | LINUX_TASKS | LINUX_MM | LINUX_PID | LINUX_NAME | LINUX_PGD | LINUX_ADDR | WIN_NTOSKRNL | WIN_TASKS
| WIN_PDBASE | WIN_PID | WIN_PEB | WIN_IBA | WIN_PH | WIN_PNAME | WIN_KDVB | WIN_SYSPROC | SYSMAPTOK | OSTYPETOK
| WORD string | FILENAME string | QUOTE | OBRACE | EBRACE | SEMICOLON | EQUALS

definition lex_keywords :: "(string \<times> token) list" where
  "lex_keywords = [(''linux_tasks'', LINUX_TASKS), (''linux_mm'', LINUX_MM), (''linux_name'', LINUX_NAME),
     (''linux_pid'', LINUX_PID), (''linux_pgd'', LINUX_PGD), (''linux_addr'', LINUX_ADDR), (''ntoskrnl'', WIN_NTOSKRNL),
     (''win_tasks'', WIN_TASKS), (''win_pdbase'', WIN_PDBASE), (''win_pid'', WIN_PID), (''win_peb'', WIN_PEB),
     (''win_iba'', WIN_IBA), (''win_ph'', WIN_PH), (''win_pname'', WIN_PNAME), (''win_kdvb'', WIN_KDVB),
     (''win_sysproc'', WIN_SYSPROC), (''sysmap'', SYSMAPTOK), (''ostype'', OSTYPETOK)]"

definition lex_signs :: "(char \<times> token) list" where
  "lex_signs = [(CHR 0x22, QUOTE), (CHR ''{'', OBRACE), (CHR ''}'', EBRACE), (CHR '';'', SEMICOLON), (CHR ''='', EQUALS)]"

text \<open>The character classes of the patterns.\<close>

definition lex_digit :: "char \<Rightarrow> bool" where
  "lex_digit c \<longleftrightarrow> c \<in> set ''0123456789''"

definition lex_hex :: "char \<Rightarrow> bool" where
  "lex_hex c \<longleftrightarrow> c \<in> set ''0123456789abcdefABCDEF''"

definition lex_letter :: "char \<Rightarrow> bool" where
  "lex_letter c \<longleftrightarrow> c \<in> set ''abcdefghijklmnopqrstuvwxyzABCDEFGHIJKLMNOPQRSTUVWXYZ''"

definition lex_word_char :: "char \<Rightarrow> bool" where
  "lex_word_char c \<longleftrightarrow> lex_letter c \<or> lex_digit c \<or> c \<in> set ''._-''"

definition lex_file_char :: "char \<Rightarrow> bool" where
  "lex_file_char c \<longleftrightarrow> lex_word_char c \<or> c = CHR ''/''"

definition lex_blank :: "char \<Rightarrow> bool" where
  "lex_blank c \<longleftrightarrow> c = CHR '' '' \<or> c = CHR 0x09"

text \<open>How much of the input each pattern matches at most; 0 where it does not match.\<close>

definition run_len :: "(char \<Rightarrow> bool) \<Rightarrow> string \<Rightarrow> nat" where
  "run_len P s = length (takeWhile P s)"

definition keyword_len :: "string \<Rightarrow> string \<Rightarrow> nat" where
  "keyword_len k s = (if take (length k) s = k then length k else 0)"

definition num_len :: "string \<Rightarrow> nat" where
  "num_len s = max (run_len lex_digit s) (case s of
     a # b # r \<Rightarrow> if a = CHR ''0'' \<and> b = CHR ''x'' \<and> 0 < run_len lex_hex r then 2 + run_len lex_hex r else 0
   | _ \<Rightarrow> 0)"

definition word_len :: "string \<Rightarrow> nat" where
  "word_len s = (case s of [] \<Rightarrow> 0
     | c # r \<Rightarrow> if lex_letter c \<and> 0 < run_len lex_word_char r then Suc (run_len lex_word_char r) else 0)"

definition comment_len :: "string \<Rightarrow> nat" where
  "comment_len s = (case s of [] \<Rightarrow> 0
     | c # r \<Rightarrow> if c = CHR ''#'' \<and> CHR 0x0A \<in> set r then 2 + run_len (\<lambda>c. c \<noteq> CHR 0x0A) r else 0)"

text \<open>
  The rules in their order: the length of the match, and the token that the action returns, if it does.
  The longest match wins, and of equally long ones the first.
\<close>

type_synonym lex_rule = "(string \<Rightarrow> nat) \<times> (string \<Rightarrow> token option)"

definition lex_rules :: "lex_rule list" where
  "lex_rules = map (\<lambda>(k, t). (keyword_len k, \<lambda>_. Some t)) lex_keywords
     @ [(num_len, \<lambda>s. Some (NUM s)), (word_len, \<lambda>s. Some (WORD s)), (run_len lex_file_char, \<lambda>s. Some (FILENAME s))]
     @ map (\<lambda>(c, t). (keyword_len [c], \<lambda>_. Some t)) lex_signs
     @ [(keyword_len [CHR 0x0A], \<lambda>_. None), (run_len lex_blank, \<lambda>_. None), (comment_len, \<lambda>_. None)]"

fun longest :: "lex_rule list \<Rightarrow> string \<Rightarrow> nat \<times> (string \<Rightarrow> token option)" where
  "longest [] s = (0, \<lambda>_. None)"
| "longest ((len, act) # rules) s = (let (n, act') = longest rules s in
     if 0 < len s \<and> n \<le> len s then (len s, act) else (n, act'))"

text \<open>A character that no pattern matches is echoed and skipped.\<close>

fun yylex :: "string \<Rightarrow> token list" where
  "yylex [] = []"
| "yylex (c # s) = (let (n, act) = longest lex_rules (c # s); rest = yylex (drop (max 1 n) (c # s)) in
     case act (take n (c # s)) of None \<Rightarrow> rest | Some t \<Rightarrow> t # rest)"

declare yylex.simps(2) [simp del]

subsection \<open>The entry\<close>

definition CONFIG_STR_LENGTH :: nat where "CONFIG_STR_LENGTH = 1024"

text \<open>
  An entry of the configuration. The offsets for Linux and those for Windows share their storage, twelve
  32-bit units; the last two members of the latter take two each, the lower half first.
\<close>

record linux_offsets =
  lo_tasks :: cint
  lo_mm :: cint
  lo_pid :: cint
  lo_pgd :: cint
  lo_addr :: cint
  lo_name :: cint

record windows_offsets =
  wo_ntoskrnl :: cint
  wo_tasks :: cint
  wo_pdbase :: cint
  wo_pid :: cint
  wo_peb :: cint
  wo_iba :: cint
  wo_ph :: cint
  wo_pname :: cint
  wo_kdvb :: u64
  wo_sysproc :: u64

record vmi_config_entry =
  ce_domain_name :: string
  ce_sysmap :: string
  ce_ostype :: string
  ce_offsets :: "cint list"

definition zero_entry :: vmi_config_entry where
  "zero_entry = \<lparr>ce_domain_name = [], ce_sysmap = [], ce_ostype = [], ce_offsets = replicate 12 0\<rparr>"

definition ce_linux_offsets :: "vmi_config_entry \<Rightarrow> linux_offsets" where
  "ce_linux_offsets e = (let u = ce_offsets e in
     \<lparr>lo_tasks = u ! 0, lo_mm = u ! 1, lo_pid = u ! 2, lo_pgd = u ! 3, lo_addr = u ! 4, lo_name = u ! 5\<rparr>)"

definition ce_windows_offsets :: "vmi_config_entry \<Rightarrow> windows_offsets" where
  "ce_windows_offsets e = (let u = ce_offsets e in
     \<lparr>wo_ntoskrnl = u ! 0, wo_tasks = u ! 1, wo_pdbase = u ! 2, wo_pid = u ! 3, wo_peb = u ! 4, wo_iba = u ! 5,
      wo_ph = u ! 6, wo_pname = u ! 7, wo_kdvb = push_bit 32 (ucast (u ! 9)) + ucast (u ! 8),
      wo_sysproc = push_bit 32 (ucast (u ! 11)) + ucast (u ! 10)\<rparr>)"

subsection \<open>grammar.y\<close>

text \<open>The value of a lexeme \<open>NUM\<close> by \<open>strtol\<close> and \<open>strtoull\<close> with base 0; it has no sign.\<close>

definition base0_value :: "string \<Rightarrow> nat" where
  "base0_value s = (if take 2 s = ''0x'' then digits_acc 16 0 (drop 2 s)
     else if take 1 s = ''0'' then digits_acc 8 0 s else digits_acc 10 0 s)"

definition strtol0 :: "string \<Rightarrow> u64" where
  "strtol0 s = of_nat (min (2 ^ 63 - 1) (base0_value s))"

definition strtoull0 :: "string \<Rightarrow> u64" where
  "strtoull0 s = of_nat (min (2 ^ 64 - 1) (base0_value s))"

definition set_int :: "nat \<Rightarrow> string \<Rightarrow> vmi_config_entry \<Rightarrow> vmi_config_entry" where
  "set_int i s e = e\<lparr>ce_offsets := (ce_offsets e)[i := ucast (strtol0 s)]\<rparr>"

definition set_uint64 :: "nat \<Rightarrow> string \<Rightarrow> vmi_config_entry \<Rightarrow> vmi_config_entry" where
  "set_uint64 i s e = (let v = strtoull0 s in
     e\<lparr>ce_offsets := (ce_offsets e)[i := ucast v, Suc i := ucast (drop_bit 32 v)]\<rparr>)"

text \<open>\<open>snprintf\<close> into a buffer of \<open>CONFIG_STR_LENGTH\<close> bytes cuts a longer string.\<close>

definition conf_str :: "string \<Rightarrow> string" where
  "conf_str s = take (CONFIG_STR_LENGTH - 1) s"

text \<open>The actions of the assignments of a number.\<close>

definition num_action :: "token \<Rightarrow> (string \<Rightarrow> vmi_config_entry \<Rightarrow> vmi_config_entry) option" where
  "num_action t = (case t of
     LINUX_TASKS \<Rightarrow> Some (set_int 0)
   | LINUX_MM \<Rightarrow> Some (set_int 1)
   | LINUX_PID \<Rightarrow> Some (set_int 2)
   | LINUX_PGD \<Rightarrow> Some (set_int 3)
   | LINUX_ADDR \<Rightarrow> Some (set_int 4)
   | LINUX_NAME \<Rightarrow> Some (set_int 5)
   | WIN_NTOSKRNL \<Rightarrow> Some (set_int 0)
   | WIN_TASKS \<Rightarrow> Some (set_int 1)
   | WIN_PDBASE \<Rightarrow> Some (set_int 2)
   | WIN_PID \<Rightarrow> Some (set_int 3)
   | WIN_PEB \<Rightarrow> Some (set_int 4)
   | WIN_IBA \<Rightarrow> Some (set_int 5)
   | WIN_PH \<Rightarrow> Some (set_int 6)
   | WIN_PNAME \<Rightarrow> Some (set_int 7)
   | WIN_KDVB \<Rightarrow> Some (set_uint64 8)
   | WIN_SYSPROC \<Rightarrow> Some (set_uint64 10)
   | _ \<Rightarrow> None)"

text \<open>The tokens that a rule of the grammar takes from the input, in turn.\<close>

fun expect :: "token list \<Rightarrow> token list \<Rightarrow> token list option" where
  "expect [] ts = Some ts"
| "expect (p # ps) [] = None"
| "expect (p # ps) (t # ts) = (if t = p then expect ps ts else None)"

definition expect_num :: "token list \<Rightarrow> (string \<times> token list) option" where
  "expect_num ts = (case ts of NUM s # r \<Rightarrow> Some (s, r) | _ \<Rightarrow> None)"

definition expect_word :: "token list \<Rightarrow> (string \<times> token list) option" where
  "expect_word ts = (case ts of WORD s # r \<Rightarrow> Some (s, r) | _ \<Rightarrow> None)"

definition expect_filename :: "token list \<Rightarrow> (string \<times> token list) option" where
  "expect_filename ts = (case ts of FILENAME s # r \<Rightarrow> Some (s, r) | _ \<Rightarrow> None)"

text \<open>
  An \<open>assignment\<close>, which may be empty: what it does to the entry, and the tokens that follow. \<open>None\<close> is a
  syntax error.
\<close>

definition assignment :: "token list \<Rightarrow> ((vmi_config_entry \<Rightarrow> vmi_config_entry) \<times> token list) option" where
  "assignment ts = (case ts of [] \<Rightarrow> None
   | t # r \<Rightarrow>
       if t = SEMICOLON then Some (\<lambda>e. e, ts)
       else if t = SYSMAPTOK then do {
         r \<leftarrow> expect [EQUALS, QUOTE] r;
         (s, r) \<leftarrow> expect_filename r;
         r \<leftarrow> expect [QUOTE] r;
         Some (\<lambda>e. e\<lparr>ce_sysmap := conf_str s\<rparr>, r) }
       else if t = OSTYPETOK then do {
         r \<leftarrow> expect [EQUALS, QUOTE] r;
         (s, r) \<leftarrow> expect_word r;
         r \<leftarrow> expect [QUOTE] r;
         Some (\<lambda>e. e\<lparr>ce_ostype := conf_str s\<rparr>, r) }
       else do {
         f \<leftarrow> num_action t;
         r \<leftarrow> expect [EQUALS] r;
         (s, r) \<leftarrow> expect_num r;
         Some (f s, r) })"

lemma expect_one: "expect [p] ts = Some r \<longleftrightarrow> ts = p # r"
  by (cases ts) auto

lemma expect_shorter: "expect ps ts = Some r \<Longrightarrow> length r \<le> length ts"
  by (induction ps ts rule: expect.induct) (auto split: if_splits)

lemma expect_Some:
  "expect_num ts = Some (s, r) \<longleftrightarrow> ts = NUM s # r"
  "expect_word ts = Some (s, r) \<longleftrightarrow> ts = WORD s # r"
  "expect_filename ts = Some (s, r) \<longleftrightarrow> ts = FILENAME s # r"
  by (auto simp: expect_num_def expect_word_def expect_filename_def split: list.splits token.splits)

lemma assignment_shorter: "assignment ts = Some (f, r) \<Longrightarrow> length r \<le> length ts"
  by (auto simp: assignment_def expect_Some dest!: expect_shorter split: list.splits if_splits bind_splits)

text \<open>The \<open>assignments\<close> of a block up to its closing brace.\<close>

function assignments :: "token list \<Rightarrow> vmi_config_entry \<Rightarrow> (vmi_config_entry \<times> token list) option" where
  "assignments ts e = (case expect [EBRACE] ts of
     Some r \<Rightarrow> Some (e, r)
   | None \<Rightarrow> (case assignment ts of None \<Rightarrow> None
     | Some (f, r) \<Rightarrow> (case expect [SEMICOLON] r of None \<Rightarrow> None | Some r' \<Rightarrow> assignments r' (f e))))"
  by pat_completeness auto

termination
  by (relation "measure (\<lambda>(ts, e). length ts)") (auto simp: expect_one dest!: assignment_shorter)

declare assignments.simps [simp del]

lemma assignments_shorter: "assignments ts e = Some (e', r) \<Longrightarrow> length r < length ts"
proof (induction ts e rule: assignments.induct)
  case (1 ts e)
  show ?case
  proof (cases "expect [EBRACE] ts")
    case None
    with "1.prems" obtain f r1 r2 where a: "assignment ts = Some (f, r1)" "expect [SEMICOLON] r1 = Some r2"
      "assignments r2 (f e) = Some (e', r)"
      by (auto simp: assignments.simps [of ts] split: option.splits)
    then show ?thesis using "1.IH" [OF None] assignment_shorter [of ts f r1] by (fastforce simp: expect_one)
  next
    case (Some x)
    with "1.prems" have "r = x" by (simp add: assignments.simps [of ts])
    then show ?thesis using Some by (simp add: expect_one)
  qed
qed

text \<open>A block that is complete becomes the configuration if it is for the domain that is looked for.\<close>

definition entry_done :: "string \<Rightarrow> vmi_config_entry \<Rightarrow> vmi_config_entry \<Rightarrow> vmi_config_entry \<times> vmi_config_entry" where
  "entry_done target_domain tmp_entry entry =
     (if strncmp_eq CONFIG_STR_LENGTH (ce_domain_name tmp_entry) target_domain then tmp_entry else entry, zero_entry)"

function yyparse :: "string \<Rightarrow> token list \<Rightarrow> vmi_config_entry \<Rightarrow> vmi_config_entry \<Rightarrow> vmi_config_entry option" where
  "yyparse target_domain ts entry tmp_entry = (if ts = [] then Some entry
   else (case expect_word ts of None \<Rightarrow> None
   | Some (s, r) \<Rightarrow> (case expect [OBRACE] r of None \<Rightarrow> None
     | Some r \<Rightarrow> (case assignments r tmp_entry of None \<Rightarrow> None
       | Some (e, r) \<Rightarrow> (let (entry', tmp') = entry_done target_domain (e\<lparr>ce_domain_name := conf_str s\<rparr>) entry
           in yyparse target_domain r entry' tmp')))))"
  by pat_completeness auto

termination
  by (relation "measure (\<lambda>(td, ts, e, t). length ts)") (auto simp: expect_one expect_Some dest!: assignments_shorter)

declare yyparse.simps [simp del]

text \<open>
  \<open>vmi_parse_config\<close> and \<open>vmi_get_config\<close> in one: the entry found for a domain, all zero if there is none, or
  \<open>None\<close> where the text has an error.
\<close>

definition vmi_parse_config :: "string \<Rightarrow> string \<Rightarrow> vmi_config_entry option" where
  "vmi_parse_config conf td = yyparse td (yylex conf) zero_entry zero_entry"

end
