(* ===== verification/Config_Syntax.thy ===== *)
theory Config_Syntax
  imports Config_Parser
begin

text \<open>
  What the scanner and the parser of the configuration file accept: a text of tokens with white space and
  comments between them is scanned into these tokens, and the parser accepts the sequences of blocks of the
  grammar.
\<close>

subsection \<open>The longest match\<close>

lemma longest_bound:
  assumes "\<forall>r \<in> set rules. fst r s \<le> n"
  shows "fst (longest rules s) \<le> n"
  using assms by (induction rules) (auto simp: Let_def split: prod.splits)

lemma longest_eq:
  assumes "len s = n" "0 < n" "\<forall>r \<in> set pre. fst r s < n" "\<forall>r \<in> set post. fst r s \<le> n"
  shows "longest (pre @ (len, act) # post) s = (n, act)"
  using assms(3)
proof (induction pre)
  case Nil
  then show ?case using assms(1,2) longest_bound [OF assms(4)] by (auto simp: Let_def split: prod.split)
next
  case (Cons r pre)
  then show ?case using assms(2) by (cases r) (auto simp: Let_def)
qed

lemma run_len_append:
  assumes "rest = [] \<or> \<not> P (hd rest)"
  shows "run_len P (s @ rest) = run_len P s"
proof -
  have "takeWhile P rest = []" using assms by (cases rest) auto
  then show ?thesis by (induction s) (auto simp: run_len_def)
qed

lemma run_len_le: "run_len P s \<le> length s"
  by (simp add: run_len_def length_takeWhile_le)

lemma run_len_all: "list_all P s \<Longrightarrow> run_len P s = length s"
  by (induction s) (simp_all add: run_len_def)

lemma run_len_Cons: "run_len P (c # s) = (if P c then Suc (run_len P s) else 0)"
  by (simp add: run_len_def)

text \<open>Where a name ends: at the end of the text or before a character that is in no name.\<close>

definition stops :: "string \<Rightarrow> bool" where
  "stops rest \<longleftrightarrow> rest = [] \<or> \<not> lex_file_char (hd rest)"

lemma lex_classes:
  "lex_digit c \<Longrightarrow> lex_file_char c" "lex_hex c \<Longrightarrow> lex_file_char c" "lex_word_char c \<Longrightarrow> lex_file_char c"
  "lex_letter c \<Longrightarrow> lex_file_char c"
  by (auto simp: lex_file_char_def lex_word_char_def lex_digit_def lex_letter_def lex_hex_def)

lemma stops_class: "stops rest \<Longrightarrow> (\<And>c. P c \<Longrightarrow> lex_file_char c) \<Longrightarrow> rest = [] \<or> \<not> P (hd rest)"
  by (auto simp: stops_def)

lemma run_len_stops: "stops rest \<Longrightarrow> (\<And>c. P c \<Longrightarrow> lex_file_char c) \<Longrightarrow> run_len P (s @ rest) = run_len P s"
  by (rule run_len_append [OF stops_class])

lemma stops_not: "stops rest \<Longrightarrow> lex_file_char c \<Longrightarrow> rest \<noteq> c # r"
  by (auto simp: stops_def)

lemma num_len_stops:
  assumes "stops rest"
  shows "num_len (s @ rest) = num_len s"
proof -
  have x: "rest \<noteq> CHR ''x'' # r" "rest \<noteq> CHR ''0'' # r" for r
    by (rule stops_not [OF assms]; simp add: lex_file_char_def lex_word_char_def lex_letter_def lex_digit_def)+
  show ?thesis
    using x run_len_stops [OF assms lex_classes(1), of lex_digit s] run_len_stops [OF assms lex_classes(2), of lex_hex]
    by (auto simp: num_len_def split: list.split)
qed

lemma word_len_stops:
  assumes "stops rest"
  shows "word_len (s @ rest) = word_len s"
  using assms run_len_stops [OF assms lex_classes(3), of lex_word_char] stops_not [OF assms lex_classes(4)]
  by (cases s) (auto simp: word_len_def split: list.split)

lemma word_class_lens: "num_len s \<le> length s" "word_len s \<le> length s"
  using run_len_le [of lex_digit s]
  by (auto simp: num_len_def word_len_def run_len_le split: list.split intro: le_trans [OF run_len_le])

lemma keyword_len_stops:
  assumes "stops rest" "list_all lex_file_char k"
  shows "keyword_len k (s @ rest) = keyword_len k s"
proof (cases "length k \<le> length s")
  case True
  then show ?thesis by (simp add: keyword_len_def)
next
  case False
  then obtain c r where "take (length k) (s @ rest) = s @ c # r \<and> rest \<noteq> [] \<and> c = hd rest \<or> rest = []"
    by (cases rest; cases "length k - length s") auto
  then have "take (length k) (s @ rest) \<noteq> k"
    using assms False by (auto simp: stops_def)
  then show ?thesis using False by (auto simp: keyword_len_def)
qed

lemma keyword_len_le: "keyword_len k s \<le> length s"
  by (auto simp: keyword_len_def dest: arg_cong [where f = length])

lemma keyword_len_full: "s \<noteq> [] \<Longrightarrow> keyword_len k s = length s \<longleftrightarrow> k = s"
  by (auto simp: keyword_len_def dest: arg_cong [where f = length])

lemma lex_keyword_chars: "(k, t) \<in> set lex_keywords \<Longrightarrow> list_all lex_file_char k \<and> k \<noteq> []"
  by (auto simp: lex_keywords_def lex_file_char_def lex_word_char_def lex_letter_def)

lemma lex_keywords_distinct: "distinct (map fst lex_keywords)"
  by (simp add: lex_keywords_def)

text \<open>The token of a maximal run of name characters.\<close>

definition name_token :: "string \<Rightarrow> token" where
  "name_token s = (case map_of lex_keywords s of Some t \<Rightarrow> t
     | None \<Rightarrow> if num_len s = length s then NUM s else if word_len s = length s then WORD s else FILENAME s)"

definition keyword_rules :: "(string \<times> token) list \<Rightarrow> lex_rule list" where
  "keyword_rules ks = map (\<lambda>(k, t). (keyword_len k, \<lambda>_. Some t)) ks"

definition other_rules :: "lex_rule list" where
  "other_rules = map (\<lambda>(c, t). (keyword_len [c], \<lambda>_. Some t)) lex_signs
     @ [(keyword_len [CHR 0x0A], \<lambda>_. None), (run_len lex_blank, \<lambda>_. None), (comment_len, \<lambda>_. None)]"

lemma lex_rules_split:
  "lex_rules = keyword_rules lex_keywords @ [(num_len, \<lambda>s. Some (NUM s)), (word_len, \<lambda>s. Some (WORD s)),
    (run_len lex_file_char, \<lambda>s. Some (FILENAME s))] @ other_rules"
  by (simp add: lex_rules_def keyword_rules_def other_rules_def)

lemma other_rules_none:
  assumes "lex_file_char c" "r \<in> set other_rules"
  shows "fst r (c # s) = 0"
  using assms
  by (auto simp: other_rules_def lex_signs_def keyword_len_def run_len_def comment_len_def lex_blank_def
    lex_file_char_def lex_word_char_def lex_letter_def lex_digit_def split: if_splits)

lemma longest_name:
  assumes "s \<noteq> []" "list_all lex_file_char s" "stops rest"
  shows "\<exists>act. longest lex_rules (s @ rest) = (length s, act) \<and> act s = Some (name_token s)"
proof -
  have n: "0 < length s" using assms(1) by simp
  obtain c s' where s: "s = c # s'" using assms(1) by (cases s) auto
  have other: "\<forall>r \<in> set other_rules. fst r (s @ rest) \<le> length s"
    using other_rules_none [of c] assms(2) s by auto
  have kw: "keyword_len k (s @ rest) = keyword_len k s" if "(k, t) \<in> set lex_keywords" for k t
    using keyword_len_stops [OF assms(3)] lex_keyword_chars [OF that] by blast
  have kw_le: "\<forall>r \<in> set (keyword_rules ks). fst r (s @ rest) \<le> length s" if "set ks \<subseteq> set lex_keywords" for ks
    using that kw keyword_len_le by (fastforce simp: keyword_rules_def)
  have kw_less: "\<forall>r \<in> set (keyword_rules ks). fst r (s @ rest) < length s"
    if "set ks \<subseteq> set lex_keywords" "s \<notin> fst ` set ks" for ks
  proof -
    have "keyword_len k (s @ rest) < length s" if "(k, t) \<in> set ks" for k t
    proof -
      have "k \<noteq> s" using that \<open>s \<notin> fst ` set ks\<close> by force
      then show ?thesis
        using keyword_len_le [of k s] keyword_len_full [OF assms(1), of k] kw [of k t] that \<open>set ks \<subseteq> set lex_keywords\<close>
        by (metis le_neq_implies_less subsetD)
    qed
    then show ?thesis by (auto simp: keyword_rules_def)
  qed
  have lens: "num_len (s @ rest) = num_len s" "word_len (s @ rest) = word_len s"
    "run_len lex_file_char (s @ rest) = length s"
    using num_len_stops [OF assms(3)] word_len_stops [OF assms(3)] run_len_stops [OF assms(3), of lex_file_char]
      run_len_all [OF assms(2)] by simp_all
  show ?thesis
  proof (cases "map_of lex_keywords s")
    case (Some t)
    then obtain pre post where k: "lex_keywords = pre @ (s, t) # post" by (meson map_of_SomeD split_list)
    then have "s \<notin> fst ` set pre" using lex_keywords_distinct by (force simp: k)
    then have r: "\<forall>r \<in> set (keyword_rules pre). fst r (s @ rest) < length s"
      "\<forall>r \<in> set (keyword_rules post). fst r (s @ rest) \<le> length s" "keyword_len s (s @ rest) = length s"
      using kw_less [of pre] kw_le [of post] kw [of s t] keyword_len_full [OF assms(1), of s] by (auto simp: k)
    have "longest (keyword_rules pre @ (keyword_len s, \<lambda>_. Some t) # keyword_rules post @ [(num_len, \<lambda>s. Some (NUM s)),
        (word_len, \<lambda>s. Some (WORD s)), (run_len lex_file_char, \<lambda>s. Some (FILENAME s))] @ other_rules) (s @ rest)
      = (length s, \<lambda>_. Some t)"
      using r other lens word_class_lens [of s] n by (intro longest_eq) auto
    then have "longest lex_rules (s @ rest) = (length s, \<lambda>_. Some t)"
      by (simp add: lex_rules_split k keyword_rules_def)
    then show ?thesis using Some by (simp add: name_token_def)
  next
    case None
    then have less: "\<forall>r \<in> set (keyword_rules lex_keywords). fst r (s @ rest) < length s"
      by (intro kw_less) (auto simp: map_of_eq_None_iff)
    consider "num_len s = length s" | "num_len s \<noteq> length s" "word_len s = length s"
      | "num_len s \<noteq> length s" "word_len s \<noteq> length s" by blast
    then show ?thesis
    proof cases
      case 1
      then have "longest lex_rules (s @ rest) = (length s, \<lambda>s. Some (NUM s))"
        unfolding lex_rules_split append_Cons
        using less other lens word_class_lens [of s] n by (intro longest_eq) auto
      then show ?thesis using 1 None by (simp add: name_token_def)
    next
      case 2
      then have "longest ((keyword_rules lex_keywords @ [(num_len, \<lambda>s. Some (NUM s))]) @ (word_len, \<lambda>s. Some (WORD s))
          # (run_len lex_file_char, \<lambda>s. Some (FILENAME s)) # other_rules) (s @ rest) = (length s, \<lambda>s. Some (WORD s))"
        using less other lens word_class_lens [of s] n by (intro longest_eq) auto
      then show ?thesis using 2 None by (simp add: name_token_def lex_rules_split)
    next
      case 3
      then have "longest ((keyword_rules lex_keywords @ [(num_len, \<lambda>s. Some (NUM s)), (word_len, \<lambda>s. Some (WORD s))])
          @ (run_len lex_file_char, \<lambda>s. Some (FILENAME s)) # other_rules) (s @ rest) = (length s, \<lambda>s. Some (FILENAME s))"
        using less other lens word_class_lens [of s] n by (intro longest_eq) auto
      then show ?thesis using 3 None by (simp add: name_token_def lex_rules_split)
    qed
  qed
qed

lemma yylex_step:
  assumes "longest lex_rules (s @ rest) = (length s, act)" "s \<noteq> []"
  shows "yylex (s @ rest) = (case act s of None \<Rightarrow> yylex rest | Some t \<Rightarrow> t # yylex rest)"
proof (cases s)
  case (Cons c s')
  then show ?thesis using assms by (simp add: yylex.simps(2) max_def Let_def split: option.split)
qed (use assms(2) in simp)

lemma yylex_name:
  assumes "s \<noteq> []" "list_all lex_file_char s" "stops rest"
  shows "yylex (s @ rest) = name_token s # yylex rest"
  using longest_name [OF assms] yylex_step [OF _ assms(1)] by fastforce

subsection \<open>Signs and layout\<close>

lemma name_rules_none:
  assumes "\<not> lex_file_char c" "r \<in> set (keyword_rules lex_keywords)
    \<or> r \<in> {(num_len, a), (word_len, b), (run_len lex_file_char, d)}"
  shows "fst r (c # s) = 0"
proof -
  have "keyword_len k (c # s) = 0" if "(k, t) \<in> set lex_keywords" for k t
    using lex_keyword_chars [OF that] assms(1) by (cases k) (auto simp: keyword_len_def)
  moreover have "\<not> lex_digit c" "\<not> lex_letter c" "c \<noteq> CHR ''0''"
    using assms(1) lex_classes(1,4) [of c] by (auto simp: lex_digit_def)
  ultimately show ?thesis using assms
    by (fastforce simp: keyword_rules_def num_len_def word_len_def run_len_Cons split: list.split)
qed

lemma longest_none: "\<forall>r \<in> set pre. fst r s = 0 \<Longrightarrow> 0 < fst (longest post s) \<Longrightarrow> longest (pre @ post) s = longest post s"
  by (induction pre) (auto simp: Let_def split: prod.splits)

lemma longest_other:
  assumes "\<not> lex_file_char c" "0 < fst (longest other_rules (c # s))"
  shows "longest lex_rules (c # s) = longest other_rules (c # s)"
proof -
  have "longest ((keyword_rules lex_keywords @ [(num_len, \<lambda>s. Some (NUM s)), (word_len, \<lambda>s. Some (WORD s)),
    (run_len lex_file_char, \<lambda>s. Some (FILENAME s))]) @ other_rules) (c # s) = longest other_rules (c # s)"
    by (rule longest_none [OF _ assms(2)]) (use name_rules_none [OF assms(1)] in fastforce)
  then show ?thesis by (simp add: lex_rules_split)
qed

lemma not_file_char: "c \<in> set [CHR 0x22, CHR ''{'', CHR ''}'', CHR '';'', CHR ''='', CHR 0x0A, CHR '' '', CHR 0x09, CHR ''#'']
    \<Longrightarrow> \<not> lex_file_char c"
  by (auto simp: lex_file_char_def lex_word_char_def lex_letter_def lex_digit_def)

lemma yylex_sign:
  assumes "(c, t) \<in> set lex_signs"
  shows "yylex (c # rest) = t # yylex rest"
proof -
  have c: "\<not> lex_file_char c" using assms by (intro not_file_char) (auto simp: lex_signs_def)
  have "longest other_rules (c # rest) = (1, \<lambda>_. Some t)"
    using assms by (auto simp: lex_signs_def other_rules_def keyword_len_def run_len_Cons lex_blank_def comment_len_def)
  then show ?thesis using longest_other [OF c, of rest] yylex_step [of "[c]" rest] by simp
qed

text \<open>White space and comments.\<close>

datatype white = Blank | Tab | Newline | Comment string

primrec white_ok :: "white \<Rightarrow> bool" where
  "white_ok Blank = True"
| "white_ok Tab = True"
| "white_ok Newline = True"
| "white_ok (Comment s) = (CHR 0x0A \<notin> set s)"

primrec white_text :: "white \<Rightarrow> string" where
  "white_text Blank = '' ''"
| "white_text Tab = [CHR 0x09]"
| "white_text Newline = [CHR 0x0A]"
| "white_text (Comment s) = CHR ''#'' # s @ [CHR 0x0A]"

lemma yylex_blanks: "lex_blank c \<Longrightarrow> yylex (c # rest) = yylex (dropWhile lex_blank rest)"
proof -
  assume b: "lex_blank c"
  then have c: "\<not> lex_file_char c" by (intro not_file_char) (auto simp: lex_blank_def)
  have "longest other_rules (c # rest) = (Suc (run_len lex_blank rest), \<lambda>_. None)"
    using b by (auto simp: lex_signs_def other_rules_def keyword_len_def run_len_Cons lex_blank_def comment_len_def)
  then show ?thesis using longest_other [OF c, of rest]
    by (simp add: yylex.simps(2) Let_def run_len_def dropWhile_eq_drop)
qed

lemma yylex_drop_blanks: "yylex (dropWhile lex_blank s) = yylex s"
  using yylex_blanks by (cases s) auto

lemma yylex_white:
  assumes "white_ok w"
  shows "yylex (white_text w @ rest) = yylex rest"
proof (cases w)
  case (Comment s)
  have c: "\<not> lex_file_char (CHR ''#'')" by (rule not_file_char) simp
  have "run_len (\<lambda>c. c \<noteq> CHR 0x0A) (s @ CHR 0x0A # rest) = length s"
    using assms Comment by (subst run_len_append) (auto intro!: run_len_all simp: list_all_iff)
  then have "longest other_rules (white_text w @ rest) = (length (white_text w), \<lambda>_. None)"
    by (simp add: Comment lex_signs_def other_rules_def keyword_len_def run_len_Cons lex_blank_def comment_len_def)
  then show ?thesis using longest_other [OF c, of "s @ CHR 0x0A # rest"] yylex_step [of "white_text w" rest] Comment by simp
next
  case Newline
  have c: "\<not> lex_file_char (CHR 0x0A)" by (rule not_file_char) simp
  have "longest other_rules (CHR 0x0A # rest) = (1, \<lambda>_. None)"
    by (simp add: lex_signs_def other_rules_def keyword_len_def run_len_Cons lex_blank_def comment_len_def)
  then show ?thesis using longest_other [OF c, of rest] yylex_step [of "[CHR 0x0A]" rest] Newline by simp
qed (simp_all add: yylex_blanks yylex_drop_blanks lex_blank_def)

lemma yylex_whites: "list_all white_ok ws \<Longrightarrow> yylex (concat (map white_text ws) @ rest) = yylex rest"
  by (induction ws) (simp_all add: yylex_white)

subsection \<open>A text and its tokens\<close>

primrec lexeme :: "token \<Rightarrow> string" where
  "lexeme (NUM s) = s"
| "lexeme (WORD s) = s"
| "lexeme (FILENAME s) = s"
| "lexeme LINUX_TASKS = ''linux_tasks''"
| "lexeme LINUX_MM = ''linux_mm''"
| "lexeme LINUX_PID = ''linux_pid''"
| "lexeme LINUX_NAME = ''linux_name''"
| "lexeme LINUX_PGD = ''linux_pgd''"
| "lexeme LINUX_ADDR = ''linux_addr''"
| "lexeme WIN_NTOSKRNL = ''ntoskrnl''"
| "lexeme WIN_TASKS = ''win_tasks''"
| "lexeme WIN_PDBASE = ''win_pdbase''"
| "lexeme WIN_PID = ''win_pid''"
| "lexeme WIN_PEB = ''win_peb''"
| "lexeme WIN_IBA = ''win_iba''"
| "lexeme WIN_PH = ''win_ph''"
| "lexeme WIN_PNAME = ''win_pname''"
| "lexeme WIN_KDVB = ''win_kdvb''"
| "lexeme WIN_SYSPROC = ''win_sysproc''"
| "lexeme SYSMAPTOK = ''sysmap''"
| "lexeme OSTYPETOK = ''ostype''"
| "lexeme QUOTE = [CHR 0x22]"
| "lexeme OBRACE = ''{''"
| "lexeme EBRACE = ''}''"
| "lexeme SEMICOLON = '';''"
| "lexeme EQUALS = ''=''"

definition is_sign :: "token \<Rightarrow> bool" where
  "is_sign t \<longleftrightarrow> t \<in> snd ` set lex_signs"

text \<open>
  A number is \<open>0x\<close> and hexadecimal digits, or decimal digits; a word has two characters at least, starts
  with a letter and is no keyword; a file name is any other run of name characters.
\<close>

definition token_ok :: "token \<Rightarrow> bool" where
  "token_ok t \<longleftrightarrow> is_sign t \<or> (lexeme t \<noteq> [] \<and> list_all lex_file_char (lexeme t) \<and> name_token (lexeme t) = t)"

text \<open>
  A text is a list of tokens with the layout before each; after a name there must be some, unless a sign
  follows.
\<close>

fun spaced :: "(white list \<times> token) list \<Rightarrow> bool" where
  "spaced ((ws, t) # (ws', t') # r) = ((is_sign t \<or> ws' \<noteq> [] \<or> is_sign t') \<and> spaced ((ws', t') # r))"
| "spaced [x] = True"
| "spaced [] = True"

definition spell :: "(white list \<times> token) list \<Rightarrow> string" where
  "spell tws = concat (map (\<lambda>(ws, t). concat (map white_text ws) @ lexeme t) tws)"

lemma stops_sign: "is_sign t \<Longrightarrow> stops (lexeme t @ r)"
  using not_file_char by (fastforce simp: is_sign_def lex_signs_def stops_def)

lemma stops_whites:
  assumes "ws \<noteq> []"
  shows "stops (concat (map white_text ws) @ r)"
proof -
  obtain w ws' where "ws = w # ws'" using assms by (cases ws) auto
  then show ?thesis using not_file_char by (cases w) (auto simp: stops_def)
qed

lemma yylex_token:
  assumes "token_ok t" "is_sign t \<or> stops rest"
  shows "yylex (lexeme t @ rest) = t # yylex rest"
proof (cases "is_sign t")
  case True
  then obtain c where c: "(c, t) \<in> set lex_signs" by (auto simp: is_sign_def)
  then have "lexeme t = [c]" by (auto simp: lex_signs_def)
  then show ?thesis using yylex_sign [OF c] by simp
next
  case False
  then show ?thesis using assms yylex_name [of "lexeme t" rest] by (simp add: token_ok_def)
qed

lemma yylex_spell:
  assumes "\<forall>(ws, t) \<in> set tws. list_all white_ok ws \<and> token_ok t" "spaced tws" "list_all white_ok foot"
  shows "yylex (spell tws @ concat (map white_text foot)) = map snd tws"
  using assms(1,2)
proof (induction tws rule: spaced.induct)
  case (1 ws t ws' t' r)
  let ?rest = "spell ((ws', t') # r) @ concat (map white_text foot)"
  have "is_sign t \<or> stops ?rest"
    using "1.prems"(2) stops_whites [of ws'] stops_sign [of t'] by (cases ws') (auto simp: spell_def)
  then have "yylex (lexeme t @ ?rest) = t # yylex ?rest" using "1.prems"(1) by (intro yylex_token) auto
  moreover have "yylex ?rest = map snd ((ws', t') # r)" using "1.IH" "1.prems" by auto
  moreover have "spell ((ws, t) # (ws', t') # r) = concat (map white_text ws) @ lexeme t @ spell ((ws', t') # r)"
    by (simp add: spell_def)
  ultimately show ?case using "1.prems"(1) by (simp add: yylex_whites)
next
  case (2 x)
  obtain ws t where x: "x = (ws, t)" by (cases x)
  have "stops (concat (map white_text foot))"
    using stops_whites [of foot "[]"] by (cases foot) (auto simp: stops_def)
  moreover have "yylex (concat (map white_text foot)) = []" using yylex_whites [OF assms(3), of "[]"] by simp
  ultimately show ?case using "2.prems"(1) yylex_token [of t "concat (map white_text foot)"]
    by (simp add: x spell_def yylex_whites)
next
  case 3
  then show ?case using yylex_whites [OF assms(3), of "[]"] by (simp add: spell_def)
qed

subsection \<open>The language of the grammar\<close>

text \<open>
  What an assignment and a block of the file may be. \<open>Num_item\<close> is one of the sixteen assignments of a number.
\<close>

datatype conf_item = Empty_item | Num_item token string | Sysmap_item string | Ostype_item string

primrec item_tokens :: "conf_item \<Rightarrow> token list" where
  "item_tokens Empty_item = []"
| "item_tokens (Num_item t s) = [t, EQUALS, NUM s]"
| "item_tokens (Sysmap_item s) = [SYSMAPTOK, EQUALS, QUOTE, FILENAME s, QUOTE]"
| "item_tokens (Ostype_item s) = [OSTYPETOK, EQUALS, QUOTE, WORD s, QUOTE]"

primrec item_ok :: "conf_item \<Rightarrow> bool" where
  "item_ok Empty_item = True"
| "item_ok (Num_item t s) = (num_action t \<noteq> None)"
| "item_ok (Sysmap_item s) = True"
| "item_ok (Ostype_item s) = True"

primrec item_effect :: "conf_item \<Rightarrow> vmi_config_entry \<Rightarrow> vmi_config_entry" where
  "item_effect Empty_item = (\<lambda>e. e)"
| "item_effect (Num_item t s) = the (num_action t) s"
| "item_effect (Sysmap_item s) = (\<lambda>e. e\<lparr>ce_sysmap := conf_str s\<rparr>)"
| "item_effect (Ostype_item s) = (\<lambda>e. e\<lparr>ce_ostype := conf_str s\<rparr>)"

type_synonym conf_block = "string \<times> conf_item list"

definition items_tokens :: "conf_item list \<Rightarrow> token list" where
  "items_tokens is = concat (map (\<lambda>i. item_tokens i @ [SEMICOLON]) is) @ [EBRACE]"

definition block_tokens :: "conf_block \<Rightarrow> token list" where
  "block_tokens b = WORD (fst b) # OBRACE # items_tokens (snd b)"

definition block_ok :: "conf_block \<Rightarrow> bool" where
  "block_ok b \<longleftrightarrow> list_all item_ok (snd b)"

definition block_entry :: "conf_block \<Rightarrow> vmi_config_entry" where
  "block_entry b = (fold item_effect (snd b) zero_entry)\<lparr>ce_domain_name := conf_str (fst b)\<rparr>"

text \<open>The configuration of a domain is the last block with its name.\<close>

definition named :: "string \<Rightarrow> conf_block \<Rightarrow> bool" where
  "named td b \<longleftrightarrow> strncmp_eq CONFIG_STR_LENGTH (conf_str (fst b)) td"

definition configuration :: "string \<Rightarrow> conf_block list \<Rightarrow> vmi_config_entry" where
  "configuration td bs = (case find (named td) (rev bs) of None \<Rightarrow> zero_entry | Some b \<Rightarrow> block_entry b)"

lemma num_action_not: "num_action t = Some f \<Longrightarrow> t \<noteq> SEMICOLON \<and> t \<noteq> SYSMAPTOK \<and> t \<noteq> OSTYPETOK \<and> t \<noteq> EBRACE"
  by (auto simp: num_action_def)

lemma assignment_item:
  assumes "item_ok i"
  shows "assignment (item_tokens i @ SEMICOLON # r) = Some (item_effect i, SEMICOLON # r)"
  using assms num_action_not
  by (cases i) (auto simp: assignment_def expect_num_def expect_word_def expect_filename_def)

lemma bind_Some: "Option.bind x f = Some y \<longleftrightarrow> (\<exists>z. x = Some z \<and> f z = Some y)"
  by (cases x) auto

lemma expect_two: "expect [p, q] ts = Some r \<longleftrightarrow> ts = p # q # r"
  by (cases ts; cases "tl ts") auto

lemma item_of_assignment:
  assumes "assignment ts = Some (f, SEMICOLON # r)"
  obtains i where "item_ok i" "ts = item_tokens i @ SEMICOLON # r" "f = item_effect i"
proof (cases ts)
  case Nil
  then show ?thesis using assms by (simp add: assignment_def)
next
  case (Cons t u)
  consider "t = SEMICOLON" | "t = SYSMAPTOK" | "t = OSTYPETOK" | "t \<noteq> SEMICOLON" "t \<noteq> SYSMAPTOK" "t \<noteq> OSTYPETOK" by blast
  then show ?thesis
  proof cases
    case 1
    then show ?thesis using assms Cons that [of Empty_item] by (auto simp: assignment_def)
  next
    case 2
    then show ?thesis using assms Cons that [of "Sysmap_item s" for s]
      by (auto simp: assignment_def bind_Some expect_two expect_one expect_Some)
  next
    case 3
    then show ?thesis using assms Cons that [of "Ostype_item s" for s]
      by (auto simp: assignment_def bind_Some expect_two expect_one expect_Some)
  next
    case 4
    then show ?thesis using assms Cons that [of "Num_item t s" for s]
      by (auto simp: assignment_def bind_Some expect_one expect_Some)
  qed
qed

lemma item_not_brace: "item_ok i \<Longrightarrow> expect [EBRACE] (item_tokens i @ SEMICOLON # r) = None"
  using num_action_not by (cases i) auto

lemma assignments_items:
  "list_all item_ok is \<Longrightarrow> assignments (items_tokens is @ r) e = Some (fold item_effect is e, r)"
proof (induction "is" arbitrary: e)
  case Nil
  then show ?case by (simp add: items_tokens_def assignments.simps [of "EBRACE # r"])
next
  case (Cons i "is")
  have "items_tokens (i # is) @ r = item_tokens i @ SEMICOLON # items_tokens is @ r" by (simp add: items_tokens_def)
  then show ?case
    using Cons by (subst assignments.simps) (simp add: item_not_brace assignment_item)
qed

lemma items_of_assignments:
  "assignments ts e = Some (e', r) \<Longrightarrow> \<exists>is. list_all item_ok is \<and> ts = items_tokens is @ r \<and> e' = fold item_effect is e"
proof (induction ts e rule: assignments.induct)
  case (1 ts e)
  show ?case
  proof (cases "expect [EBRACE] ts")
    case None
    with "1.prems" obtain f r1 r2 where a: "assignment ts = Some (f, r1)" "expect [SEMICOLON] r1 = Some r2"
      "assignments r2 (f e) = Some (e', r)"
      by (auto simp: assignments.simps [of ts] split: option.splits)
    then obtain i where i: "item_ok i" "ts = item_tokens i @ SEMICOLON # r2" "f = item_effect i"
      using item_of_assignment by (metis expect_one)
    obtain "is" where "list_all item_ok is" "r2 = items_tokens is @ r" "e' = fold item_effect is (f e)"
      using "1.IH" [OF None a(1) refl a(2,3)] by blast
    then show ?thesis using i by (intro exI [of _ "i # is"]) (simp add: items_tokens_def)
  next
    case (Some x)
    with "1.prems" have "r = x" "e' = e" by (simp_all add: assignments.simps [of ts])
    then show ?thesis using Some by (intro exI [of _ "[]"]) (simp add: expect_one items_tokens_def)
  qed
qed

lemma yyparse_blocks:
  "list_all block_ok bs \<Longrightarrow> yyparse td (concat (map block_tokens bs)) e zero_entry =
    Some (fold (\<lambda>b e. if named td b then block_entry b else e) bs e)"
proof (induction bs arbitrary: e)
  case Nil
  then show ?case by (simp add: yyparse.simps [of td "[]"])
next
  case (Cons b bs)
  let ?ts = "concat (map block_tokens (b # bs))"
  have "?ts = WORD (fst b) # OBRACE # items_tokens (snd b) @ concat (map block_tokens bs)"
    by (simp add: block_tokens_def)
  then have "yyparse td ?ts e zero_entry =
      yyparse td (concat (map block_tokens bs)) (if named td b then block_entry b else e) zero_entry"
    using Cons.prems
    by (subst yyparse.simps) (simp add: expect_word_def assignments_items block_ok_def entry_done_def named_def block_entry_def)
  then show ?case using Cons by simp
qed

lemma blocks_of_yyparse:
  "yyparse td ts e z = Some e' \<Longrightarrow> z = zero_entry \<Longrightarrow> \<exists>bs. list_all block_ok bs \<and> ts = concat (map block_tokens bs)"
proof (induction td ts e z rule: yyparse.induct)
  case (1 td ts e z)
  show ?case
  proof (cases "ts = []")
    case False
    with "1.prems" obtain s r r2 e1 r3 where a: "expect_word ts = Some (s, r)" "expect [OBRACE] r = Some r2"
      "assignments r2 z = Some (e1, r3)"
      by (auto simp: yyparse.simps [of td ts] split: option.splits)
    obtain en z' where d: "entry_done td (e1\<lparr>ce_domain_name := conf_str s\<rparr>) e = (en, z')" by fastforce
    then have "z' = zero_entry" by (simp add: entry_done_def)
    moreover have "yyparse td r3 en z' = Some e'" using "1.prems" a False d by (simp add: yyparse.simps [of td ts])
    ultimately obtain bs where "list_all block_ok bs" "r3 = concat (map block_tokens bs)"
      using "1.IH" [OF False a(1) refl a(2,3) refl d [symmetric] refl] by blast
    moreover obtain "is" where "list_all item_ok is" "r2 = items_tokens is @ r3"
      using items_of_assignments [OF a(3)] by blast
    ultimately show ?thesis using a(1,2)
      by (intro exI [of _ "(s, is) # bs"]) (simp add: block_ok_def [of "(s, is)"] block_tokens_def [of "(s, is)"] expect_Some expect_one)
  qed (auto intro: exI [of _ "[]"])
qed

lemma configuration_fold:
  "fold (\<lambda>b e. if named td b then block_entry b else e) bs e =
    (case find (named td) (rev bs) of None \<Rightarrow> e | Some b \<Rightarrow> block_entry b)"
proof (induction bs rule: rev_induct)
  case (snoc b bs)
  then show ?case by simp
qed simp

text \<open>C21: The parser accepts exactly the texts whose tokens are a sequence of blocks \<open>name { assignments }\<close>, each
assignment, which may be empty, followed by a semicolon; and what it returns for a domain is the last
block of that name, with the assignments carried out in their order from an entry that is all zero, and
an entry that is all zero if there is no such block.\<close>

theorem vmi_parse_config_grammar:
  "vmi_parse_config conf td = Some e \<longleftrightarrow>
    (\<exists>bs. list_all block_ok bs \<and> yylex conf = concat (map block_tokens bs) \<and> e = configuration td bs)"
proof
  assume e: "vmi_parse_config conf td = Some e"
  then obtain bs where bs: "list_all block_ok bs" "yylex conf = concat (map block_tokens bs)"
    using blocks_of_yyparse [OF e [unfolded vmi_parse_config_def] refl] by blast
  then show "\<exists>bs. list_all block_ok bs \<and> yylex conf = concat (map block_tokens bs) \<and> e = configuration td bs"
    using e yyparse_blocks [OF bs(1)] by (auto simp: vmi_parse_config_def configuration_def configuration_fold)
next
  assume "\<exists>bs. list_all block_ok bs \<and> yylex conf = concat (map block_tokens bs) \<and> e = configuration td bs"
  then show "vmi_parse_config conf td = Some e"
    using yyparse_blocks by (auto simp: vmi_parse_config_def configuration_def configuration_fold)
qed

subsection \<open>Reading back a text\<close>

text \<open>C22: However the tokens of a sequence of blocks are laid out, with blanks, tabs, newlines and comments before
and after them, and some between two names, the text is read back as these blocks: the scanner takes the
longest match and a keyword before a word, and the configuration is that of the last block with the name.\<close>

theorem vmi_parse_config_spell:
  assumes "\<forall>(ws, t) \<in> set tws. list_all white_ok ws \<and> token_ok t" "spaced tws" "list_all white_ok foot"
    and "map snd tws = concat (map block_tokens bs)" "list_all block_ok bs"
  shows "vmi_parse_config (spell tws @ concat (map white_text foot)) td = Some (configuration td bs)"
  using yylex_spell [OF assms(1-3)] yyparse_blocks [OF assms(5)] assms(4)
  by (simp add: vmi_parse_config_def configuration_def configuration_fold)

lemma token_ok_word:
  assumes "lex_letter c" "s \<noteq> []" "list_all lex_word_char s" "map_of lex_keywords (c # s) = None"
  shows "token_ok (WORD (c # s))"
proof -
  have "\<not> lex_digit c" "c \<noteq> CHR ''0''" using assms(1) by (auto simp: lex_letter_def lex_digit_def)
  then have "num_len (c # s) = 0" by (auto simp: num_len_def run_len_Cons split: list.split)
  moreover have "list_all lex_file_char (c # s)" using assms(1,3) lex_classes by (auto simp: list_all_iff)
  moreover have "word_len (c # s) = Suc (length s)" using assms(1-3) by (simp add: word_len_def run_len_all)
  ultimately show ?thesis using assms(4) by (simp add: token_ok_def name_token_def)
qed

lemma lex_keyword_letter: "(k, t) \<in> set lex_keywords \<Longrightarrow> \<exists>c r. k = c # r \<and> lex_letter c"
proof -
  have "\<forall>(k, t) \<in> set lex_keywords. k \<noteq> [] \<and> lex_letter (hd k)" by (simp add: lex_keywords_def lex_letter_def)
  then show "(k, t) \<in> set lex_keywords \<Longrightarrow> \<exists>c r. k = c # r \<and> lex_letter c" by (cases k) auto
qed

lemma token_ok_digits:
  assumes "s \<noteq> []" "list_all lex_digit s"
  shows "token_ok (NUM s)"
proof -
  have "s \<noteq> k" if "(k, t) \<in> set lex_keywords" for k t
    using lex_keyword_letter [OF that] assms by (cases s) (auto simp: lex_letter_def lex_digit_def)
  then have "map_of lex_keywords s = None" by (force simp: map_of_eq_None_iff)
  moreover have "num_len s = length s"
    using run_len_all [OF assms(2)] word_class_lens(1) [of s] by (intro antisym) (simp_all add: num_len_def)
  moreover have "list_all lex_file_char s" using assms(2) lex_classes(1) by (auto simp: list_all_iff)
  ultimately show ?thesis using assms(1) by (simp add: token_ok_def name_token_def)
qed

lemma token_ok_sign: "is_sign t \<Longrightarrow> token_ok t"
  by (simp add: token_ok_def)

lemma is_sign_simps [simp]:
  "is_sign QUOTE" "is_sign OBRACE" "is_sign EBRACE" "is_sign SEMICOLON" "is_sign EQUALS"
  "\<not> is_sign (WORD s)" "\<not> is_sign (NUM s)" "\<not> is_sign (FILENAME s)" "\<not> is_sign SYSMAPTOK" "\<not> is_sign OSTYPETOK"
  "num_action t \<noteq> None \<Longrightarrow> \<not> is_sign t"
  by (auto simp: is_sign_def lex_signs_def num_action_def)

lemma token_ok_keyword: "(k, t) \<in> set lex_keywords \<Longrightarrow> token_ok t \<and> lexeme t = k"
proof -
  assume k: "(k, t) \<in> set lex_keywords"
  then have "lexeme t = k" by (auto simp: lex_keywords_def)
  moreover have "map_of lex_keywords k = Some t" using k lex_keywords_distinct by simp
  ultimately show ?thesis using lex_keyword_chars [OF k] by (simp add: token_ok_def name_token_def)
qed

lemma digit_char_lex: "d < 10 \<Longrightarrow> lex_digit (digit_char d)"
proof -
  have "list_all (\<lambda>d. lex_digit (digit_char d)) [0..<10]" by code_simp
  then show "d < 10 \<Longrightarrow> lex_digit (digit_char d)" by (auto simp: list_all_iff)
qed

lemma token_ok_dec_nat: "token_ok (NUM (dec_nat n))"
  using set_dec_nat digit_char_lex dec_nat_ne by (intro token_ok_digits) (fastforce simp: list_all_iff)+

lemma conf_str_short: "length s < CONFIG_STR_LENGTH \<Longrightarrow> conf_str s = s"
  by (simp add: conf_str_def CONFIG_STR_LENGTH_def)

lemma strncmp_short: "length a \<le> n \<Longrightarrow> length b \<le> n \<Longrightarrow> strncmp_eq n a b \<longleftrightarrow> a = b"
  by (simp add: strncmp_eq_def)

definition quoted :: "string \<Rightarrow> string" where
  "quoted s = CHR 0x22 # s @ [CHR 0x22]"

lemma vmi_parse_config_spell_witness:
  "vmi_parse_config (''#old'' @ CHR 0x0A # ''Web{ostype='' @ quoted ''Linux'' @ ''; sysmap='' @ quoted ''/boot/map''
      @ ''; linux_tasks =0x82;;} '') ''Web''
    = Some \<lparr>ce_domain_name = ''Web'', ce_sysmap = ''/boot/map'', ce_ostype = ''Linux'', ce_offsets = 130 # replicate 11 0\<rparr>"
proof -
  let ?bs = "[(''Web'', [Ostype_item ''Linux'', Sysmap_item ''/boot/map'', Num_item LINUX_TASKS ''0x82'', Empty_item])]"
  let ?tws = "[([Comment ''old''], WORD ''Web''), ([], OBRACE), ([], OSTYPETOK), ([], EQUALS), ([], QUOTE), ([], WORD ''Linux''),
    ([], QUOTE), ([], SEMICOLON), ([Blank], SYSMAPTOK), ([], EQUALS), ([], QUOTE), ([], FILENAME ''/boot/map''), ([], QUOTE),
    ([], SEMICOLON), ([Blank], LINUX_TASKS), ([Blank], EQUALS), ([], NUM ''0x82''), ([], SEMICOLON), ([], SEMICOLON), ([], EBRACE)]"
  have "token_ok (WORD ''Web'')" "token_ok (WORD ''Linux'')" "token_ok (FILENAME ''/boot/map'')" "token_ok (NUM ''0x82'')"
    by code_simp+
  then have t: "\<forall>(ws, t) \<in> set ?tws. list_all white_ok ws \<and> token_ok t"
    using token_ok_keyword [of "''linux_tasks''" LINUX_TASKS] token_ok_keyword [of "''ostype''" OSTYPETOK]
      token_ok_keyword [of "''sysmap''" SYSMAPTOK] by (simp add: token_ok_sign lex_keywords_def)
  have c: "configuration ''Web'' ?bs = \<lparr>ce_domain_name = ''Web'', ce_sysmap = ''/boot/map'', ce_ostype = ''Linux'',
    ce_offsets = 130 # replicate 11 0\<rparr>"
  proof -
    have "strtol0 ''0x82'' = 130" by (simp add: strtol0_def base0_value_def digit_val_def)
    moreover have "replicate 12 (0 :: cint) = 0 # replicate 11 0" by (simp add: eval_nat_numeral)
    ultimately show ?thesis
      by (simp add: configuration_def named_def block_entry_def conf_str_short strncmp_short CONFIG_STR_LENGTH_def
        num_action_def set_int_def zero_entry_def)
  qed
  have "vmi_parse_config (spell ?tws @ concat (map white_text [Blank])) ''Web'' = Some (configuration ''Web'' ?bs)"
    by (rule vmi_parse_config_spell)
      (use t in \<open>simp_all add: block_tokens_def items_tokens_def block_ok_def num_action_def is_sign_def lex_signs_def\<close>)
  then show ?thesis unfolding c by (simp add: spell_def quoted_def)
qed

text \<open>
  The value of a \<open>sysmap\<close> has to be a \<open>FILENAME\<close>. A name with no slash that starts with a letter is a \<open>WORD\<close>.
\<close>

lemma yylex_prefix:
  assumes "\<forall>(ws, t) \<in> set tws. list_all white_ok ws \<and> token_ok t" "spaced (tws @ [(w, t)])" "list_all white_ok w" "is_sign t"
  shows "yylex (spell tws @ concat (map white_text w) @ lexeme t @ rest) = map snd tws @ t # yylex rest"
  using assms(1,2)
proof (induction tws rule: spaced.induct)
  case (1 ws t1 ws' t' r)
  let ?rest = "spell ((ws', t') # r) @ concat (map white_text w) @ lexeme t @ rest"
  have "is_sign t1 \<or> stops ?rest"
    using "1.prems"(2) stops_whites [of ws'] stops_sign [of t'] by (cases ws') (auto simp: spell_def)
  then have "yylex (lexeme t1 @ ?rest) = t1 # yylex ?rest" using "1.prems"(1) by (intro yylex_token) auto
  moreover have "yylex ?rest = map snd ((ws', t') # r) @ t # yylex rest" using "1.IH" "1.prems" by auto
  moreover have "spell ((ws, t1) # (ws', t') # r) = concat (map white_text ws) @ lexeme t1 @ spell ((ws', t') # r)"
    by (simp add: spell_def)
  ultimately show ?case using "1.prems"(1) by (simp add: yylex_whites)
next
  case (2 x)
  obtain ws t1 where x: "x = (ws, t1)" by (cases x)
  have "is_sign t1 \<or> stops (concat (map white_text w) @ lexeme t @ rest)"
    using stops_whites [of w] stops_sign [OF assms(4)] by (cases w) auto
  moreover have "yylex (concat (map white_text w) @ lexeme t @ rest) = t # yylex rest"
    using yylex_token [of t rest] assms(3,4) by (simp add: yylex_whites token_ok_sign)
  ultimately show ?case using "2.prems"(1) yylex_token [of t1] by (simp add: x spell_def yylex_whites)
next
  case 3
  then show ?case using yylex_token [of t rest] assms(3,4) by (simp add: spell_def yylex_whites token_ok_sign)
qed

text \<open>A symbol file that the configuration names without a slash, such as \<open>System.map\<close>, is a syntax error, even in
quotes: the scanner takes it for a word, the grammar asks for a file name, and the parser gives up at
whatever follows, so no domain has a configuration then.\<close>

theorem sysmap_without_slash_rejected:
  assumes "token_ok (WORD name)" "token_ok (WORD w)"
  shows "vmi_parse_config (name @ ''{sysmap='' @ quoted w @ rest) td = None"
proof -
  let ?tws = "[([] :: white list, WORD name), ([], OBRACE), ([], SYSMAPTOK), ([], EQUALS), ([], QUOTE), ([], WORD w)]"
  have ok: "token_ok SYSMAPTOK" using token_ok_keyword [of "''sysmap''" SYSMAPTOK] by (simp add: lex_keywords_def)
  have "yylex (spell ?tws @ concat (map white_text []) @ lexeme QUOTE @ rest) = map snd ?tws @ QUOTE # yylex rest"
    by (rule yylex_prefix [of ?tws]) (use assms ok in \<open>simp_all add: token_ok_sign\<close>)
  then have "yylex (name @ ''{sysmap='' @ quoted w @ rest)
      = [WORD name, OBRACE, SYSMAPTOK, EQUALS, QUOTE, WORD w, QUOTE] @ yylex rest"
    by (simp add: spell_def quoted_def)
  then show ?thesis
    by (simp add: vmi_parse_config_def yyparse.simps [of td "WORD name # u" for u] assignments.simps [of "SYSMAPTOK # u" for u]
      expect_word_def expect_filename_def assignment_def)
qed

lemma sysmap_without_slash_rejected_witness:
  "vmi_parse_config (''Web'' @ ''{sysmap='' @ quoted ''System.map'' @ '';}'') ''Web'' = None"
proof -
  have "token_ok (WORD ''Web'')" "token_ok (WORD ''System.map'')" by code_simp+
  then show ?thesis by (rule sysmap_without_slash_rejected)
qed

subsection \<open>Numbers\<close>

lemma hd_dec_nat: "0 < n \<Longrightarrow> hd (dec_nat n) \<noteq> CHR ''0''"
proof (induction n rule: dec_nat.induct)
  case (1 n)
  show ?case
  proof (cases "n < 10")
    case True
    then have "digit_val 10 (digit_char n) = Some n" by (rule digit_val_digit_char)
    then show ?thesis using True "1.prems" by (auto simp: dec_nat.simps [of n] digit_val_def)
  next
    case False
    then show ?thesis using 1 dec_nat_ne by (simp add: dec_nat.simps [of n])
  qed
qed

lemma base0_value_dec_nat: "base0_value (dec_nat n) = n"
proof (cases "n = 0")
  case True
  then show ?thesis by (simp add: base0_value_def dec_nat.simps [of 0] digit_char_def digit_val_def)
next
  case False
  then have "take 1 (dec_nat n) \<noteq> ''0''" "take 2 (dec_nat n) \<noteq> ''0x''"
    using hd_dec_nat [of n] dec_nat_ne [of n] by (cases "dec_nat n"; auto)+
  then show ?thesis by (simp add: base0_value_def digits_acc_dec_nat)
qed

lemma strtol0_dec_nat: "n < 2 ^ 63 \<Longrightarrow> strtol0 (dec_nat n) = of_nat n"
  by (simp add: strtol0_def base0_value_dec_nat)

lemma strtoull0_dec_nat: "n < 2 ^ 64 \<Longrightarrow> strtoull0 (dec_nat n) = of_nat n"
  by (simp add: strtoull0_def base0_value_dec_nat)

text \<open>A text with one blank before each token.\<close>

definition print_tokens :: "token list \<Rightarrow> string" where
  "print_tokens ts = spell (map (Pair [Blank]) ts)"

lemma vmi_parse_config_print:
  assumes "list_all block_ok bs" "\<forall>t \<in> set (concat (map block_tokens bs)). token_ok t"
  shows "vmi_parse_config (print_tokens (concat (map block_tokens bs))) td = Some (configuration td bs)"
proof -
  have "spaced (map (Pair [Blank]) ts)" for ts :: "token list"
    by (induction ts rule: induct_list012) simp_all
  then show ?thesis
    using yylex_spell [of "map (Pair [Blank]) (concat (map block_tokens bs))" "[]"] assms(2) yyparse_blocks [OF assms(1)]
    by (simp add: print_tokens_def vmi_parse_config_def configuration_def configuration_fold comp_def)
qed

end
