(* ===== verification/Core_Init.thy ===== *)
theory Core_Init
  imports Os_Init Config_Syntax
begin

text \<open>
  Opening and closing a guest: \<^verbatim>\<open>core.c\<close>. \<open>fuel\<close> bounds the searches through the guest's memory.
\<close>

unbundle bit_operations_syntax

subsection \<open>The configuration\<close>

text \<open>An offset that the file does not give is zero and leaves the member alone.\<close>

definition offset_or :: "'a::zero \<Rightarrow> 'a \<Rightarrow> 'a" where
  "offset_or new old = (if new \<noteq> 0 then new else old)"

definition copy_linux_offsets :: "linux_offsets \<Rightarrow> linux_instance \<Rightarrow> linux_instance" where
  "copy_linux_offsets e l = l\<lparr>
     linux_tasks_offset := offset_or (lo_tasks e) (linux_tasks_offset l),
     linux_mm_offset := offset_or (lo_mm e) (linux_mm_offset l),
     linux_pid_offset := offset_or (lo_pid e) (linux_pid_offset l),
     linux_name_offset := offset_or (lo_name e) (linux_name_offset l),
     linux_pgd_offset := offset_or (lo_pgd e) (linux_pgd_offset l)\<rparr>"

text \<open>\<open>ntoskrnl\<close> is an \<open>int\<close> in the entry and is widened with its sign.\<close>

definition copy_windows_offsets :: "windows_offsets \<Rightarrow> windows_instance \<Rightarrow> windows_instance" where
  "copy_windows_offsets e w = w\<lparr>
     ntoskrnl := offset_or (scast (wo_ntoskrnl e)) (ntoskrnl w),
     win_tasks_offset := offset_or (wo_tasks e) (win_tasks_offset w),
     win_pdbase_offset := offset_or (wo_pdbase e) (win_pdbase_offset w),
     win_pid_offset := offset_or (wo_pid e) (win_pid_offset w),
     win_pname_offset := offset_or (wo_pname e) (win_pname_offset w),
     kdversion_block := offset_or (wo_kdvb e) (kdversion_block w),
     sysproc := offset_or (wo_sysproc e) (sysproc w)\<rparr>"

text \<open>
  The text comes from \<open>configstr\<close>, which \<open>fmemopen\<close> opens unless it is empty, and otherwise from the file.
\<close>

definition config_text :: "env \<Rightarrow> vmi \<Rightarrow> string option" where
  "config_text E s = (case configstr s of
     Some t \<Rightarrow> if t \<noteq> [] then Some t else map_option chars_of (host_file E ''/etc/libvmi.conf'')
   | None \<Rightarrow> map_option chars_of (host_file E ''/etc/libvmi.conf''))"

text \<open>\<open>vmi_parse_config\<close> copies the name of the image, through a null pointer if there is none.\<close>

definition read_config_file :: "env \<Rightarrow> status_t vm" where
  "read_config_file E = do {
     s \<leftarrow> State_Monad.get;
     (case config_text E s of
       None \<Rightarrow> return VMI_FAILURE
     | Some conf \<Rightarrow> (case image_type s of
       None \<Rightarrow> raise_fault VMI_FAILURE
     | Some td \<Rightarrow> (case vmi_parse_config conf td of
         None \<Rightarrow> return VMI_FAILURE
       | Some entry \<Rightarrow> do {
           modify (\<lambda>s. s\<lparr>sysmap := Some (ce_sysmap entry)\<rparr>);
           if strncmp_eq CONFIG_STR_LENGTH (ce_ostype entry) ''Linux'' then do {
             modify (\<lambda>s. s\<lparr>os_type := VMI_OS_LINUX\<rparr>);
             modify (\<lambda>s. s\<lparr>linux_os := copy_linux_offsets (ce_linux_offsets entry) (linux_os s)\<rparr>);
             return VMI_SUCCESS }
           else if strncmp_eq CONFIG_STR_LENGTH (ce_ostype entry) ''Windows'' then do {
             modify (\<lambda>s. s\<lparr>os_type := VMI_OS_WINDOWS\<rparr>);
             modify (\<lambda>s. s\<lparr>windows_os := copy_windows_offsets (ce_windows_offsets entry) (windows_os s)\<rparr>);
             return VMI_SUCCESS }
           else return VMI_FAILURE }))) }"

subsection \<open>The paging layout\<close>

text \<open>
  For a system other than Windows \<open>find_cr3\<close> returns nothing, and its caller uses what it did not return.
\<close>

definition find_cr3 :: "env \<Rightarrow> nat \<Rightarrow> u32 option vm" where
  "find_cr3 E fuel = do {
     os \<leftarrow> gets os_type;
     if os = VMI_OS_WINDOWS then do {
       set_version VMI_OS_WINDOWS_UNKNOWN;
       obind (windows_find_cr3 E fuel) (\<lambda>a. return (Some (ucast a))) }
     else raise_fault (Some (ucast (junk E))) }"

definition clear_paging :: "unit vm" where
  "clear_paging = modify (\<lambda>s. s\<lparr>page_mode := VMI_PM_UNKNOWN, pae := 0, pse := 0, lme := 0, cr3 := 0\<rparr>)"

text \<open>
  \<open>get_memory_layout\<close> in the order of its reads; each failure leaves through \<open>_exit\<close>, which clears what has
  been stored.
\<close>

definition layout_failed :: "status_t vm" where
  "layout_failed = do { clear_paging; return VMI_FAILURE }"

definition read_lme :: "env \<Rightarrow> status_t vm" where
  "read_lme E = do {
     (st, efer) \<leftarrow> driver_get_vcpureg E (junk E) MSR_EFER 0;
     if st = VMI_SUCCESS then do {
       modify (\<lambda>s. s\<lparr>lme := vmi_get_bit efer 8\<rparr>);
       return VMI_SUCCESS }
     else do {
       (st, dom_addr_width) \<leftarrow> driver_get_address_width 0;
       if st = VMI_FAILURE then return VMI_FAILURE
       else do {
         modify (\<lambda>s. s\<lparr>lme := (if dom_addr_width = 8 then 1 else 0)\<rparr>);
         return VMI_SUCCESS } } }"

definition choose_layout :: "reg_t \<Rightarrow> status_t vm" where
  "choose_layout root = do {
     modify (\<lambda>s. if pae s = 0 then s\<lparr>page_mode := VMI_PM_LEGACY, cr3 := root AND 0xFFFFF000\<rparr>
       else if lme s \<noteq> 0 then s\<lparr>page_mode := VMI_PM_IA32E, cr3 := root AND 0xFFFFFFFFFFFFF000\<rparr>
       else s\<lparr>page_mode := VMI_PM_PAE, cr3 := root AND 0xFFFFFFE0\<rparr>);
     _ \<leftarrow> driver_is_pv;
     return VMI_SUCCESS }"

definition get_memory_layout :: "env \<Rightarrow> status_t vm" where
  "get_memory_layout E = do {
     clear_paging;
     (st, cr0) \<leftarrow> driver_get_vcpureg E (junk E) CR0 0;
     if st = VMI_FAILURE then layout_failed
     else if vmi_get_bit cr0 31 = 0 then layout_failed
     else do {
       (st, root) \<leftarrow> driver_get_vcpureg E (junk E) CR3 0;
       if st = VMI_FAILURE then layout_failed
       else do {
         (st, cr4) \<leftarrow> driver_get_vcpureg E (junk E) CR4 0;
         if st = VMI_FAILURE then layout_failed
         else do {
           modify (\<lambda>s. s\<lparr>pae := vmi_get_bit cr4 5\<rparr>);
           modify (\<lambda>s. s\<lparr>pse := vmi_get_bit cr4 4\<rparr>);
           st \<leftarrow> read_lme E;
           if st = VMI_FAILURE then layout_failed
           else choose_layout root } } } }"

definition init_page_offset :: "status_t vm" where
  "init_page_offset = do {
     os \<leftarrow> gets os_type;
     modify (\<lambda>s. s\<lparr>page_offset := (if os = VMI_OS_LINUX then 0xc0000000
       else if os = VMI_OS_WINDOWS then 0x80000000 else 0)\<rparr>);
     modify (\<lambda>s. s\<lparr>page_shift := 12\<rparr>);
     modify (\<lambda>s. s\<lparr>page_size := push_bit (unat (page_shift s)) 1\<rparr>);
     return VMI_SUCCESS }"

subsection \<open>The driver and the name\<close>

definition set_driver_type :: "env \<Rightarrow> vmi_mode_t \<Rightarrow> u64 \<Rightarrow> string option \<Rightarrow> status_t vm" where
  "set_driver_type E md vmid name =
     (if md = VMI_AUTO then do {
        st \<leftarrow> driver_init_mode E vmid name;
        return st }
      else do { modify (\<lambda>s. s\<lparr>mode := md\<rparr>); return VMI_SUCCESS })"

definition set_image_type_for_file :: "string \<Rightarrow> unit vm" where
  "set_image_type_for_file name = (let ptr = (case strrchr_after (CHR ''/'') name of None \<Rightarrow> name | Some p \<Rightarrow> p)
     in modify (\<lambda>s. s\<lparr>image_type := Some (strndup ptr 100)\<rparr>))"

text \<open>\<open>strndup\<close> of the name a driver has not found is an access through a null pointer.\<close>

definition set_image_name :: "string option \<Rightarrow> status_t vm" where
  "set_image_name name = (case name of
     None \<Rightarrow> raise_fault VMI_FAILURE
   | Some n \<Rightarrow> do {
       modify (\<lambda>s. s\<lparr>image_type := Some (strndup n 100)\<rparr>);
       driver_set_name (Some n);
       return VMI_SUCCESS })"

definition set_id_and_name :: "env \<Rightarrow> u64 \<Rightarrow> string option \<Rightarrow> status_t vm" where
  "set_id_and_name E vmid name = do {
     md \<leftarrow> gets mode;
     if md = VMI_FILE then
       (case name of
         None \<Rightarrow> return VMI_FAILURE
       | Some n \<Rightarrow> do {
           set_image_type_for_file n;
           driver_set_name (Some n);
           return VMI_SUCCESS })
     else if vmid = 0 then
       (case name of
         None \<Rightarrow> return VMI_FAILURE
       | Some n \<Rightarrow> do {
           vmid \<leftarrow> driver_get_id_from_name E (Some n);
           driver_set_id vmid;
           set_image_name (Some n) })
     else do {
       driver_set_id vmid;
       if name \<noteq> None then return VMI_FAILURE
       else do {
         (st, name) \<leftarrow> driver_get_name E name;
         if st = VMI_FAILURE then return VMI_FAILURE
         else set_image_name name } } }"

subsection \<open>Opening and closing\<close>

text \<open>
  A new instance structure, all zero; the static variables of the library and the guest stay as they are.
  \<open>drop_instance\<close> is the same for a structure that has been freed.
\<close>

definition drop_instance :: "vmi \<Rightarrow> vmi" where
  "drop_instance s = zeroed_vmi\<lparr>instance_ptrs := instance_ptrs s, xeninst := xeninst s, fileinst := fileinst s,
     get_data_callback := get_data_callback s, heap_next := heap_next s, clock := clock s,
     guest_mem := guest_mem s, paused := paused s, fault := fault s\<rparr>"

definition new_instance :: "u32 \<Rightarrow> string option \<Rightarrow> unit vm" where
  "new_instance fl conf = do {
     _ \<leftarrow> safe_malloc;
     modify drop_instance;
     modify (\<lambda>s. s\<lparr>flags := fl, init_mode := fl AND 0xFFFF0000, configstr := conf\<rparr>);
     pid_cache_init;
     sym_cache_init;
     v2p_cache_init }"

text \<open>The part of \<open>vmi_init_private\<close> that opens the driver.\<close>

definition open_driver :: "env \<Rightarrow> vmi_mode_t \<Rightarrow> u64 \<Rightarrow> string option \<Rightarrow> status_t vm" where
  "open_driver E md vmid name = do {
     st \<leftarrow> set_driver_type E md vmid name;
     if st = VMI_FAILURE then return VMI_FAILURE
     else do {
       st \<leftarrow> set_id_and_name E vmid name;
       if st = VMI_FAILURE then return VMI_FAILURE
       else driver_init E } }"

definition set_memsize :: "env \<Rightarrow> status_t vm" where
  "set_memsize E = do {
     sz \<leftarrow> gets vmi_size;
     (st, sz) \<leftarrow> driver_get_memsize E sz;
     modify (\<lambda>s. s\<lparr>vmi_size := sz\<rparr>);
     return st }"

text \<open>The heuristic for \<open>cr3\<close>, and the set-up of the operating system.\<close>

definition init_os :: "env \<Rightarrow> nat \<Rightarrow> status_t option vm" where
  "init_os E fuel = do {
     status \<leftarrow> get_memory_layout E;
     c \<leftarrow> gets cr3;
     obind (if c = 0 then obind (find_cr3 E fuel) (\<lambda>r. do {
           modify (\<lambda>s. s\<lparr>cr3 := ucast r\<rparr>); return (Some ()) })
         else return (Some ())) (\<lambda>_. do {
       os \<leftarrow> gets os_type;
       if os = VMI_OS_LINUX then linux_init E fuel
       else if os = VMI_OS_WINDOWS then windows_init E fuel
       else return (Some status) }) }"

definition init_complete :: "env \<Rightarrow> nat \<Rightarrow> status_t option vm" where
  "init_complete E fuel = do {
     st \<leftarrow> read_config_file E;
     if st = VMI_FAILURE then return (Some VMI_FAILURE)
     else do {
       st \<leftarrow> init_page_offset;
       if st = VMI_FAILURE then return (Some VMI_FAILURE)
       else do {
         st \<leftarrow> set_memsize E;
         if st = VMI_FAILURE then return (Some VMI_FAILURE)
         else init_os E fuel } } }"

definition vmi_init_private :: "env \<Rightarrow> nat \<Rightarrow> u32 \<Rightarrow> u64 \<Rightarrow> string option \<Rightarrow> string option
    \<Rightarrow> status_t option vm" where
  "vmi_init_private E fuel fl vmid name conf = do {
     let access_mode = fl AND 0x0000FFFF;
     new_instance fl conf;
     st \<leftarrow> open_driver E access_mode vmid name;
     if st = VMI_FAILURE then return (Some VMI_FAILURE)
     else do {
       im \<leftarrow> gets init_mode;
       if im = VMI_INIT_PARTIAL then do {
         _ \<leftarrow> init_page_offset;
         _ \<leftarrow> set_memsize E;
         return (Some VMI_SUCCESS) }
       else if im = VMI_INIT_COMPLETE then init_complete E fuel
       else return (Some VMI_FAILURE) } }"

definition vmi_init :: "env \<Rightarrow> nat \<Rightarrow> u32 \<Rightarrow> string option \<Rightarrow> status_t option vm" where
  "vmi_init E fuel fl name = vmi_init_private E fuel fl 0 name None"

definition build_config_str :: "vmi \<Rightarrow> string \<Rightarrow> string option" where
  "build_config_str s config = map_option (\<lambda>n. n @ CHR '' '' # config) (image_type s)"

definition vmi_destroy :: "status_t vm" where
  "vmi_destroy = do {
     driver_destroy;
     pid_cache_destroy;
     sym_cache_destroy;
     v2p_cache_destroy;
     memory_cache_destroy;
     modify drop_instance;
     return VMI_SUCCESS }"

text \<open>An instance without an image name is copied through a null pointer.\<close>

definition vmi_init_complete :: "env \<Rightarrow> nat \<Rightarrow> string option \<Rightarrow> status_t option vm" where
  "vmi_init_complete E fuel config = do {
     s \<leftarrow> State_Monad.get;
     (case image_type s of
       None \<Rightarrow> raise_fault (Some VMI_FAILURE)
     | Some name \<Rightarrow> do {
         let conf = (case config of None \<Rightarrow> None | Some c \<Rightarrow> build_config_str s c);
         _ \<leftarrow> vmi_destroy;
         vmi_init_private E fuel (VMI_INIT_COMPLETE OR mode s) 0 (Some name) conf }) }"

subsection \<open>The paging layout of a Xen guest\<close>

text \<open>What the hypervisor answers for a register of the first virtual CPU.\<close>

definition hw_reg :: "env \<Rightarrow> xen_instance \<Rightarrow> registers_t \<Rightarrow> reg_t option" where
  "hw_reg E xi reg = (
     if xen_hvm xi \<noteq> 0 then (case hvm_ctx E (xen_domainid xi) 0 of None \<Rightarrow> None
       | Some ctx \<Rightarrow> map_option ctx (hvm_field E reg))
     else (case pv_ctx E (xen_domainid xi) 0 of None \<Rightarrow> None
       | Some ctx \<Rightarrow> if xen_addr_width xi = 8
           then map_option (\<lambda>f. if reg = CR3 then push_bit 12 (xen_cr3_to_pfn_x86_64 (ctx f)) else ctx f) (pv64_field reg)
           else map_option (\<lambda>f. if reg = CR3 then push_bit 12 (ucast (xen_cr3_to_pfn_x86_32 (ctx f))) else ctx f)
             (pv32_field reg)))"

lemma run_driver_get_vcpureg:
  assumes "driver s = Some Xen" "instance_ptrs s = Some (table_of Xen)"
  shows "run_state (driver_get_vcpureg E v reg 0) s =
    ((case hw_reg E (xeninst s) reg of None \<Rightarrow> (VMI_FAILURE, v) | Some x \<Rightarrow> (VMI_SUCCESS, x)), s)"
proof -
  have "run_state (driver_get_vcpureg E v reg 0) s = run_state (xen_get_vcpureg E v reg 0) s"
    using assms by (simp add: driver_get_vcpureg_def run_dispatch attached_def)
  also have "\<dots> = ((case hw_reg E (xeninst s) reg of None \<Rightarrow> (VMI_FAILURE, v) | Some x \<Rightarrow> (VMI_SUCCESS, x)), s)"
    using assms
    by (simp add: xen_get_vcpureg_def xen_get_vcpureg_hvm_def xen_get_vcpureg_pv64_def xen_get_vcpureg_pv32_def
        xen_get_domainid_def xen_get_instance_def attached_def hw_reg_def Let_def)
      (cases "hvm_ctx E (xen_domainid (xeninst s)) 0"; cases "pv_ctx E (xen_domainid (xeninst s)) 0";
        cases "hvm_field E reg"; cases "pv64_field reg"; cases "pv32_field reg"; simp)
  finally show ?thesis .
qed

text \<open>Long mode, from the model-specific register or from the width of the guest's addresses.\<close>

definition long_mode :: "env \<Rightarrow> xen_instance \<Rightarrow> bool" where
  "long_mode E xi = (case hw_reg E xi MSR_EFER of Some e \<Rightarrow> bit e 8 | None \<Rightarrow> xen_addr_width xi = 8)"

lemma run_read_lme:
  assumes "driver s = Some Xen" "instance_ptrs s = Some (table_of Xen)"
  shows "run_state (read_lme E) s = (VMI_SUCCESS, s\<lparr>lme := of_bool (long_mode E (xeninst s))\<rparr>)"
  using assms
  by (simp add: read_lme_def run_driver_get_vcpureg long_mode_def vmi_get_bit_iff driver_get_address_width_def
      run_dispatch xen_get_address_width_def xen_get_instance_def attached_def split: option.split)

text \<open>The paging mode and the root of the page tables, as the architecture defines them.\<close>

definition paging_of :: "reg_t \<Rightarrow> reg_t \<Rightarrow> reg_t \<Rightarrow> bool \<Rightarrow> (page_mode_t \<times> reg_t) option" where
  "paging_of cr0 root cr4 long = (if \<not> bit cr0 31 then None
     else Some (if \<not> bit cr4 5 then (VMI_PM_LEGACY, push_bit 12 (field 12 20 root))
       else if long then (VMI_PM_IA32E, push_bit 12 (field 12 52 root))
       else (VMI_PM_PAE, push_bit 5 (field 5 27 root))))"

lemma root_masks:
  fixes r :: u64
  shows "r AND 0xFFFFF000 = push_bit 12 (field 12 20 r)" "r AND 0xFFFFFFFFFFFFF000 = push_bit 12 (field 12 52 r)"
    "r AND 0xFFFFFFE0 = push_bit 5 (field 5 27 r)"
proof -
  have "(0xFFFFF000 :: u64) = push_bit 12 (mask 20)" "(0xFFFFFFFFFFFFF000 :: u64) = push_bit 12 (mask 52)"
    "(0xFFFFFFE0 :: u64) = push_bit 5 (mask 27)" by (simp_all add: mask_eq_exp_minus_1 push_bit_eq_mult)
  then show "r AND 0xFFFFF000 = push_bit 12 (field 12 20 r)" "r AND 0xFFFFFFFFFFFFF000 = push_bit 12 (field 12 52 r)"
    "r AND 0xFFFFFFE0 = push_bit 5 (field 5 27 r)" by (simp_all only: and_field_mask)
qed

text \<open>C18: For a Xen guest whose control registers can be read, \<open>get_memory_layout\<close> decides the paging mode and
the root of the page tables as the architecture does, from CR0.PG, CR4.PAE and long mode (EFER.LME, or the
width of the guest's addresses where that register cannot be read); without paging it fails, and leaves
everything about paging cleared. Bits 32 to 63 of CR0, which are reserved, must be zero.\<close>

theorem get_memory_layout_modes:
  assumes "attached Xen s" and "hw_reg E (xeninst s) CR0 = Some c0" "hw_reg E (xeninst s) CR3 = Some root" "hw_reg E (xeninst s) CR4 = Some c4"
    and "drop_bit 32 c0 = 0"
  shows "run_state (get_memory_layout E) s = (case paging_of c0 root c4 (long_mode E (xeninst s)) of
      None \<Rightarrow> (VMI_FAILURE, s\<lparr>page_mode := VMI_PM_UNKNOWN, pae := 0, pse := 0, lme := 0, cr3 := 0\<rparr>)
    | Some (pm, r) \<Rightarrow> (VMI_SUCCESS, s\<lparr>page_mode := pm, pae := of_bool (bit c4 5), pse := of_bool (bit c4 4),
        lme := of_bool (long_mode E (xeninst s)), cr3 := r\<rparr>))"
proof -
  have pg: "vmi_get_bit c0 31 = of_bool (bit c0 31)"
  proof -
    have "i = 31" if "31 \<le> i" "bit c0 i" for i
    proof (rule ccontr)
      assume "i \<noteq> 31"
      then have "bit (drop_bit 32 c0) (i - 32)" using that by (simp add: bit_simps)
      then show False by (simp add: assms(5))
    qed
    then have "(\<exists>i. 31 \<le> i \<and> i < 64 \<and> bit c0 i) \<longleftrightarrow> bit c0 31"
      by (intro iffI; (elim exE conjE)?; (rule exI [of _ 31])?) auto
    then show ?thesis using vmi_get_bit_tests [of 0 c0] by simp
  qed
  have a: "driver s = Some Xen" "instance_ptrs s = Some (table_of Xen)" using assms(1) by (simp_all add: attached_def)
  show ?thesis
    using assms(2-4)
    by (simp add: get_memory_layout_def clear_paging_def layout_failed_def choose_layout_def run_driver_get_vcpureg pg vmi_get_bit_iff
        run_read_lme paging_of_def root_masks driver_is_pv_def run_dispatch xen_is_pv_def xen_get_instance_def attached_def a)
qed

text \<open>A Xen guest in long mode.\<close>

definition long_env :: env where
  "long_env = bare_env\<lparr>hvm_ctx := (\<lambda>_ _. Some (\<lambda>f. if f = ''cr0'' then 0x80050033 else if f = ''cr3'' then 0x1AB018
     else if f = ''cr4'' then 0x6F0 else if f = ''msr_efer'' then 0xD01 else 0))\<rparr>"

definition hvm_vmi :: vmi where
  "hvm_vmi = (attach Xen xen_vmi)\<lparr>xeninst := (xeninst zeroed_vmi)\<lparr>xen_hvm := 1\<rparr>\<rparr>"

lemma get_memory_layout_modes_witness:
  "run_state (get_memory_layout long_env) hvm_vmi = (VMI_SUCCESS, hvm_vmi\<lparr>page_mode := VMI_PM_IA32E, pae := 1,
     pse := 1, lme := 1, cr3 := 0x1AB000\<rparr>)"
proof -
  have x: "xeninst hvm_vmi = (xeninst zeroed_vmi)\<lparr>xen_hvm := 1\<rparr>" and a: "attached Xen hvm_vmi"
    by (simp_all add: hvm_vmi_def attached_def attach_def)
  have r: "hw_reg long_env (xeninst hvm_vmi) CR0 = Some 0x80050033" "hw_reg long_env (xeninst hvm_vmi) CR3 = Some 0x1AB018"
    "hw_reg long_env (xeninst hvm_vmi) CR4 = Some 0x6F0" "hw_reg long_env (xeninst hvm_vmi) MSR_EFER = Some 0xD01"
    by (simp_all add: x hw_reg_def long_env_def hvm_field_def)
  have b: "bit (0x80050033 :: u64) 31" "bit (0x6F0 :: u64) 5" "bit (0x6F0 :: u64) 4" "bit (0xD01 :: u64) 8"
    by (simp_all add: bit_iff_odd)
  have "long_mode long_env (xeninst hvm_vmi)" by (simp add: long_mode_def r(4) b(4))
  moreover have "push_bit 12 (field 12 52 (0x1AB018 :: u64)) = 0x1AB000" by (simp add: root_masks(2) [symmetric])
  moreover have "drop_bit 32 (0x80050033 :: u64) = 0" by simp
  ultimately show ?thesis
    using get_memory_layout_modes [OF a r(1-3)] by (simp add: paging_of_def b)
qed

text \<open>What the flags say about the mode.\<close>

definition consistent :: "status_t \<times> vmi \<Rightarrow> bool" where
  "consistent r \<longleftrightarrow> (case r of (st, t) \<Rightarrow>
     page_mode t = (if st = VMI_FAILURE then VMI_PM_UNKNOWN else if pae t = 0 then VMI_PM_LEGACY
       else if lme t \<noteq> 0 then VMI_PM_IA32E else VMI_PM_PAE)
     \<and> (st = VMI_FAILURE \<longrightarrow> pae t = 0 \<and> pse t = 0 \<and> lme t = 0 \<and> cr3 t = 0))"

lemma consistent_layout_failed: "consistent (run_state layout_failed s)"
  by (simp add: consistent_def layout_failed_def clear_paging_def)

lemma consistent_choose_layout: "consistent (run_state (choose_layout root) s)"
proof -
  have "settings (snd (run_state driver_is_pv u)) = settings u" for u
    by (rule keepsD [OF settings_driver_reg(2)])
  then have "page_mode (snd (run_state driver_is_pv u)) = page_mode u \<and> pae (snd (run_state driver_is_pv u)) = pae u
      \<and> lme (snd (run_state driver_is_pv u)) = lme u" for u
    by (simp add: settings_def)
  then show ?thesis by (simp add: consistent_def choose_layout_def case_prod_beta)
qed

lemma consistent_bind:
  "(\<And>x u. consistent (run_state (k x) u)) \<Longrightarrow> consistent (run_state (m \<bind> k) s)"
  by (simp add: case_prod_beta)

lemma consistent_cases:
  "(b \<Longrightarrow> consistent (run_state m s)) \<Longrightarrow> (\<not> b \<Longrightarrow> consistent (run_state n s)) \<Longrightarrow>
    consistent (run_state (if b then m else n) s)"
  "(\<And>a b. consistent (run_state (k a b) s)) \<Longrightarrow> consistent (run_state (case p of (a, b) \<Rightarrow> k a b) s)"
  by (simp_all split: prod.split)

lemma consistent_get_memory_layout: "consistent (run_state (get_memory_layout E) s)"
  unfolding get_memory_layout_def
  by (intro consistent_bind consistent_cases consistent_layout_failed consistent_choose_layout)

text \<open>C19: From any state and whatever the drivers answer, \<open>get_memory_layout\<close> leaves a consistent paging
configuration: it succeeds exactly if the mode is known, the flags \<open>pae\<close> and \<open>lme\<close> then say which of the three
it is, and when it fails the mode is unknown and the flags and \<open>cr3\<close> are zero.\<close>

theorem get_memory_layout_consistent:
  "case run_state (get_memory_layout E) s of (st, t) \<Rightarrow>
     page_mode t = (if st = VMI_FAILURE then VMI_PM_UNKNOWN else if pae t = 0 then VMI_PM_LEGACY
       else if lme t \<noteq> 0 then VMI_PM_IA32E else VMI_PM_PAE)
     \<and> (if st = VMI_FAILURE then pae t = 0 \<and> pse t = 0 \<and> lme t = 0 \<and> cr3 t = 0 else mode_ok t)"
  using consistent_get_memory_layout [of E s] by (cases "run_state (get_memory_layout E) s") (auto simp: consistent_def mode_ok_def)

subsection \<open>Opening a memory file\<close>

lemma run_dispatch_first:
  assumes "driver s = None" and "backend_of_mode (mode s) = Some b" and "sel (table_of b) = Fn c"
  shows "run_state (dispatch sel failed impl) s = run_state (impl c) (attach b s)"
  using run_first_driver_get_instance [of s b] assms by (simp add: dispatch_def)

lemma backend_file [simp]: "backend_of_mode VMI_FILE = Some File" "VMI_FILE \<noteq> VMI_AUTO"
  by (simp_all add: backend_of_mode_def mode_constants)

text \<open>The instance once the file is open.\<close>

definition opened_file :: "u32 \<Rightarrow> string option \<Rightarrow> string \<Rightarrow> u8 list \<Rightarrow> vmi \<Rightarrow> vmi" where
  "opened_file fl conf name bs s = (attach File ((drop_instance (s\<lparr>heap_next := Suc (heap_next s)\<rparr>))
     \<lparr>flags := fl, init_mode := fl AND 0xFFFF0000, configstr := conf, mode := VMI_FILE,
       image_type := Some (strndup (case strrchr_after (CHR ''/'') name of None \<Rightarrow> name | Some p \<Rightarrow> p) 100)\<rparr>))
     \<lparr>fileinst := \<lparr>file_fhandle = Some name, file_filename = Some name, file_map = Some bs\<rparr>,
       memory_cache_age := 0xFFFFFFFF, memory_cache_size_max := MAX_PAGE_CACHE_SIZE, get_data_callback := Some File\<rparr>"

lemma run_open_file:
  assumes "host_file E name = Some bs" "bs \<noteq> []" "length bs < 2 ^ 64" "host_mmap E name" "length name \<le> 500"
  shows "run_state (do { new_instance fl conf; open_driver E VMI_FILE vmid (Some name) }) s
    = (VMI_SUCCESS, opened_file fl conf name bs s)"
proof -
  have ne: "(of_nat (length bs) :: u64) \<noteq> 0"
    using assms(2,3) by (simp add: word_of_nat_eq_0_iff nat_dvd_not_less)
  show ?thesis
    using assms ne
    by (simp add: new_instance_def open_driver_def set_driver_type_def set_id_and_name_def safe_malloc_def
      pid_cache_init_def sym_cache_init_def v2p_cache_init_def set_image_type_for_file_def Let_def
      driver_set_name_def driver_init_def run_dispatch_first drop_instance_def zeroed_vmi_def
      file_set_name_def file_upd_def file_get_instance_def attach_def run_dispatch attached_def file_init_def
      file_get_memsize_def memory_cache_init_def strndup_def opened_file_def)
qed

definition partial_file :: "string \<Rightarrow> u8 list \<Rightarrow> vmi \<Rightarrow> vmi" where
  "partial_file name bs s = (opened_file (VMI_FILE OR VMI_INIT_PARTIAL) None name bs s)
     \<lparr>page_shift := 12, page_size := 4096, vmi_size := of_nat (length bs)\<rparr>"

lemma init_flags: "(VMI_FILE OR VMI_INIT_PARTIAL) AND 0xFFFF = VMI_FILE" 
  "(VMI_FILE OR VMI_INIT_PARTIAL) AND 0xFFFF0000 = VMI_INIT_PARTIAL"
  "(VMI_INIT_COMPLETE OR VMI_FILE) AND 0xFFFF = VMI_FILE" 
  "(VMI_INIT_COMPLETE OR VMI_FILE) AND 0xFFFF0000 = VMI_INIT_COMPLETE" 
  by (simp_all add: mode_constants VMI_INIT_PARTIAL_def VMI_INIT_COMPLETE_def)

lemma run_vmi_init_file:
  assumes "host_file E name = Some bs" "bs \<noteq> []" "length bs < 2 ^ 64" "host_mmap E name" "length name \<le> 500"
  shows "run_state (vmi_init E fuel (VMI_FILE OR VMI_INIT_PARTIAL) (Some name)) s
    = (Some VMI_SUCCESS, partial_file name bs s)"
proof -
  let ?fl = "VMI_FILE OR VMI_INIT_PARTIAL"
  obtain u where u: "run_state (new_instance ?fl None) s = ((), u)" by (cases "run_state (new_instance ?fl None) s") simp
  then have o: "run_state (open_driver E VMI_FILE 0 (Some name)) u = (VMI_SUCCESS, opened_file ?fl None name bs s)"
    using run_open_file [OF assms, of ?fl None 0 s] by simp
  have f: "init_mode (opened_file ?fl None name bs s) = VMI_INIT_PARTIAL" "os_type (opened_file ?fl None name bs s) = VMI_OS_UNKNOWN"
    "page_offset (opened_file ?fl None name bs s) = 0"
    by (simp_all add: opened_file_def attach_def drop_instance_def zeroed_vmi_def init_flags)
  let ?t = "(opened_file ?fl None name bs s)\<lparr>page_offset := 0, page_shift := 12, page_size := 4096\<rparr>"
  have "run_state init_page_offset (opened_file ?fl None name bs s) = (VMI_SUCCESS, ?t)"
    by (simp add: init_page_offset_def f)
  moreover have "run_state (set_memsize E) ?t = (VMI_SUCCESS, ?t\<lparr>vmi_size := of_nat (length bs)\<rparr>)"
    using assms(1)
    by (simp add: set_memsize_def driver_get_memsize_def run_dispatch attached_def opened_file_def attach_def
        file_get_memsize_def file_get_instance_def)
  moreover have "?t\<lparr>vmi_size := of_nat (length bs)\<rparr> = partial_file name bs s"
    by (simp add: partial_file_def opened_file_def attach_def drop_instance_def zeroed_vmi_def)
  ultimately show ?thesis
    by (simp add: vmi_init_def vmi_init_private_def Let_def init_flags u o f)
qed

lemma partial_file_ok:
  assumes "length bs < 2 ^ 64"
  shows "vm_ok E (partial_file name bs s)"
  using assms
  by (simp add: vm_ok_def page_cache_ok_def backing_ready_def entries_ok_def attached_def partial_file_def
      opened_file_def attach_def drop_instance_def zeroed_vmi_def unat_of_nat)

lemma partial_file_byte:
  assumes "length bs < 2 ^ 64" "4096 \<le> unat a" "unat a div 4096 < (length bs - 1) div 4096"
  shows "phys_byte E (partial_file name bs s) a = Some (bs ! unat a)"
proof -
  let ?t = "partial_file name bs s" and ?q = "unat a div 4096"
  have f: "hvm ?t = 0" "get_data_callback ?t = Some File" "vmi_size ?t = of_nat (length bs)" "page_size ?t = 4096"
    "file_map (fileinst ?t) = Some bs"
    by (simp_all add: partial_file_def opened_file_def attach_def drop_instance_def zeroed_vmi_def)
  have le: "4096 * ?q + 4096 < length bs"
  proof -
    have "4096 * Suc ?q \<le> 4096 * ((length bs - 1) div 4096)" using assms(3) by simp
    also have "\<dots> \<le> length bs - 1" by simp
    finally have "4096 * Suc ?q \<le> length bs - 1" .
    moreover have "0 < (length bs - 1) div 4096" using assms(3) by simp
    then have "0 < length bs" by (cases bs) simp_all
    ultimately show ?thesis by simp
  qed
  let ?p = "push_bit 12 (drop_bit 12 a)"
  have up: "unat ?p = 4096 * ?q"
  proof -
    have "4096 * ?q \<le> unat a" by simp
    then have "4096 * ?q < 2 ^ 64" using unat_lt_u64 [of a] by simp
    then show ?thesis
      by (simp add: push_bit_eq_mult unat_word_ariths unat_page_number mult.commute)
  qed
  have "unat (?p + 4096) = 4096 * ?q + 4096" using up le assms(1) by (simp add: unat_word_ariths)
  then have inside: "\<not> vmi_size ?t \<le> ?p + 4096"
    using le assms(1) by (simp add: f word_le_nat_alt unat_of_nat)
  have "unat (drop_bit 12 a) \<noteq> 0" using assms(2) by (simp add: unat_page_number)
  then have "frame_read E ?t (drop_bit 12 a) = PCopy (take 4096 (drop (4096 * ?q) bs))"
    using inside le up
    by (auto simp: frame_read_def frame_page_def page_fetch_def beyond_memory_def memory_of_def f)
  moreover have "unat (4095 AND a) = unat a mod 4096" by (rule unat_page_offset)
  moreover have "4096 * ?q + unat a mod 4096 = unat a" by simp
  ultimately show ?thesis
    using le by (simp add: phys_byte_def page_byte_def)
qed

text \<open>C20: Opening the image of a physical memory and reading from it, end to end: with the flags for a file and
partial initialisation \<open>vmi_init\<close> succeeds on every non-empty file that can be mapped, from any state, and
every read that stays behind the first page and before the last one then returns the bytes of the file at
that offset.\<close>

theorem vmi_init_file_reads:
  assumes "host_file E name = Some bs" "bs \<noteq> []" "length bs < 2 ^ 64" "host_mmap E name" "length name \<le> 500"
    and range: "4096 \<le> unat pa" "unat pa + unat n \<le> 4096 * ((length bs - 1) div 4096)" "unat n < 2 ^ 63"
  shows "\<exists>t. run_state (vmi_init E fuel (VMI_FILE OR VMI_INIT_PARTIAL) (Some name)) s = (Some VMI_SUCCESS, t)
    \<and> vm_ok E t \<and> fst (run_state (vmi_read_pa E pa n) t) = take (unat n) (drop (unat pa) bs)"
proof -
  let ?t = "partial_file name bs s"
  have ok: "vm_ok E ?t" by (rule partial_file_ok [OF assms(3)])
  have byte: "phys_byte E ?t (pa + of_nat i) = Some (bs ! unat (pa + of_nat i)) \<and> unat (pa + of_nat i) = unat pa + i"
    if "i < unat n" for i
  proof -
    have "4096 * ((length bs - 1) div 4096) \<le> length bs - 1" by simp
    then have "unat pa + i < 2 ^ 64" using that range(2) assms(3) by linarith
    then have u: "unat (pa + of_nat i) = unat pa + i" by (simp add: unat_word_ariths unat_of_nat)
    have "(unat pa + i) div 4096 < (length bs - 1) div 4096"
    proof (rule div_less_iff_less_mult [THEN iffD2])
      show "unat pa + i < (length bs - 1) div 4096 * 4096" using that range(2) by linarith
    qed simp
    then show ?thesis using partial_file_byte [OF assms(3), of "pa + of_nat i" E name s] u range(1) by simp
  qed
  have "4096 * ((length bs - 1) div 4096) \<le> length bs - 1" by simp
  then have le: "unat pa + unat n \<le> length bs" using range(2) by linarith
  have "phys_bytes E ?t pa (unat n) = map (\<lambda>i. bs ! unat (pa + of_nat i)) [0..<unat n]"
    by (rule phys_bytes_all) (use byte in blast)
  also have "\<dots> = take (unat n) (drop (unat pa) bs)"
    by (rule nth_equalityI) (use byte le in simp_all)
  finally have "fst (run_state (vmi_read_pa E pa n) ?t) = take (unat n) (drop (unat pa) bs)"
    using reads_value [OF phys.reads_vmi_read_pa [OF range(3)] ok, of pa] by simp
  then show ?thesis using run_vmi_init_file [OF assms(1-5), of fuel s] ok by simp
qed

lemma vmi_init_file_reads_witness:
  "\<exists>t. run_state (vmi_init (bare_env\<lparr>host_file := (\<lambda>_. Some (replicate 5000 1 @ replicate 5000 2))\<rparr>) 0
      (VMI_FILE OR VMI_INIT_PARTIAL) (Some ''/tmp/mem'')) zeroed_vmi = (Some VMI_SUCCESS, t)
    \<and> fst (run_state (vmi_read_pa (bare_env\<lparr>host_file := (\<lambda>_. Some (replicate 5000 1 @ replicate 5000 2))\<rparr>) 4998 4) t)
      = [1, 1, 2, 2]"
proof -
  let ?E = "bare_env\<lparr>host_file := (\<lambda>_. Some (replicate 5000 1 @ replicate 5000 2))\<rparr>"
  have "take 4 (drop 4998 (replicate 5000 1 @ replicate 5000 2)) = replicate 2 1 @ replicate 2 (2 :: u8)"
    by simp
  also have "\<dots> = [1, 1, 2, 2]" by (simp add: numeral_2_eq_2)
  finally have "take 4 (drop 4998 (replicate 5000 1 @ replicate 5000 2)) = [1, 1, 2, 2 :: u8]" .
  then show ?thesis
    using vmi_init_file_reads [of ?E "''/tmp/mem''" "replicate 5000 1 @ replicate 5000 2" 4998 4 0 zeroed_vmi]
    by (auto simp: bare_env_def)
qed

lemma run_open_missing:
  assumes "host_file E name = None" "length name \<le> 500"
  shows "fst (run_state (do { new_instance fl conf; open_driver E VMI_FILE vmid (Some name) }) s) = VMI_FAILURE"
  using assms
  by (simp add: new_instance_def open_driver_def set_driver_type_def set_id_and_name_def safe_malloc_def
    pid_cache_init_def sym_cache_init_def v2p_cache_init_def set_image_type_for_file_def Let_def
    driver_set_name_def driver_init_def run_dispatch_first drop_instance_def zeroed_vmi_def
    file_set_name_def file_upd_def file_get_instance_def attach_def run_dispatch attached_def file_init_def
    file_destroy_def strndup_def)

text \<open>A memory file opened by a path cannot be initialised completely afterwards: \<open>vmi_init_complete\<close> closes it
and opens it again under its image name, which is what follows the last slash of the path, so it fails,
whatever the configuration, unless the working directory holds a file of that name.\<close>

theorem vmi_init_complete_loses_path:
  assumes "host_file E name = Some bs" "bs \<noteq> []" "length bs < 2 ^ 64" "host_mmap E name" "length name \<le> 500"
    and path: "strrchr_after (CHR ''/'') name = Some base" "length base \<le> 100" "host_file E base = None"
  shows "\<exists>t. run_state (vmi_init E fuel (VMI_FILE OR VMI_INIT_PARTIAL) (Some name)) s = (Some VMI_SUCCESS, t)
    \<and> fst (run_state (vmi_init_complete E fuel' config) t) = Some VMI_FAILURE"
proof -
  let ?t = "partial_file name bs s"
  have f: "image_type ?t = Some base" "mode ?t = VMI_FILE"
    using path by (simp_all add: partial_file_def opened_file_def attach_def strndup_def)
  have "fst (run_state (vmi_init_private E fuel' (VMI_INIT_COMPLETE OR VMI_FILE) 0 (Some base) conf) u)
      = Some VMI_FAILURE" for u conf
    using run_open_missing [OF path(3), of "VMI_INIT_COMPLETE OR VMI_FILE" conf 0 u] path(2)
    by (simp add: vmi_init_private_def Let_def init_flags case_prod_beta)
  then have "fst (run_state (vmi_init_complete E fuel' config) ?t) = Some VMI_FAILURE"
    by (simp add: vmi_init_complete_def f case_prod_beta Let_def)
  then show ?thesis using run_vmi_init_file [OF assms(1-5), of fuel s] by simp
qed

lemma vmi_init_complete_loses_path_witness:
  "\<exists>t. run_state (vmi_init (bare_env\<lparr>host_file := [''/dumps/mem'' \<mapsto> [1]]\<rparr>) 0
      (VMI_FILE OR VMI_INIT_PARTIAL) (Some ''/dumps/mem'')) zeroed_vmi = (Some VMI_SUCCESS, t)
    \<and> fst (run_state (vmi_init_complete (bare_env\<lparr>host_file := [''/dumps/mem'' \<mapsto> [1]]\<rparr>) 0 None) t)
      = Some VMI_FAILURE"
  by (rule vmi_init_complete_loses_path [where bs = "[1]" and base = "''mem''"]) (simp_all add: bare_env_def)

end
