(* ===== verification/Accessors.thy ===== *)
theory Accessors
  imports Core_Init
begin

text \<open>
  The public accessors of \<^verbatim>\<open>accessors.c\<close>: members of the instance by name, and calls through to the driver.
\<close>

unbundle bit_operations_syntax

definition vmi_get_page_mode :: "vmi \<Rightarrow> page_mode_t" where
  "vmi_get_page_mode s = page_mode s"

definition vmi_get_access_mode :: "vmi \<Rightarrow> u32" where
  "vmi_get_access_mode s = mode s"

definition vmi_get_ostype :: "vmi \<Rightarrow> os_t" where
  "vmi_get_ostype s = os_type s"

definition vmi_get_winver :: "env \<Rightarrow> win_ver_t vm" where
  "vmi_get_winver E = do {
     s \<leftarrow> State_Monad.get;
     if os_type s \<noteq> VMI_OS_WINDOWS then return VMI_OS_WINDOWS_NONE
     else do {
       (if version (windows_os s) = VMI_OS_WINDOWS_NONE \<or> version (windows_os s) = VMI_OS_WINDOWS_UNKNOWN
        then find_windows_version E (kdversion_block (windows_os s)) else return ());
       w \<leftarrow> gets windows_os;
       return (version w) } }"

definition winver_str :: "win_ver_t \<Rightarrow> string" where
  "winver_str ver = (case ver of
     VMI_OS_WINDOWS_NONE \<Rightarrow> ''VMI_OS_WINDOWS_NONE''
   | VMI_OS_WINDOWS_UNKNOWN \<Rightarrow> ''VMI_OS_WINDOWS_UNKNOWN''
   | VMI_OS_WINDOWS_2000 \<Rightarrow> ''VMI_OS_WINDOWS_2000''
   | VMI_OS_WINDOWS_XP \<Rightarrow> ''VMI_OS_WINDOWS_XP''
   | VMI_OS_WINDOWS_2003 \<Rightarrow> ''VMI_OS_WINDOWS_2003''
   | VMI_OS_WINDOWS_VISTA \<Rightarrow> ''VMI_OS_WINDOWS_VISTA''
   | VMI_OS_WINDOWS_2008 \<Rightarrow> ''VMI_OS_WINDOWS_2008''
   | VMI_OS_WINDOWS_7 \<Rightarrow> ''VMI_OS_WINDOWS_7'')"

definition vmi_get_winver_str :: "env \<Rightarrow> string vm" where
  "vmi_get_winver_str E = do { ver \<leftarrow> vmi_get_winver E; return (winver_str ver) }"

text \<open>
  The union \<open>os\<close>: the five offsets of the Linux member lie where the Windows member has \<open>ntoskrnl\<close>,
  \<open>ntoskrnl_va\<close> and the lower half of \<open>kdversion_block\<close>, least significant half first. The Windows
  offsets lie behind the Linux member, in bytes that a Linux target leaves alone.
\<close>

definition linux_view :: "vmi \<Rightarrow> linux_instance" where
  "linux_view s = (if os_type s = VMI_OS_WINDOWS then (let w = windows_os s in
       \<lparr>linux_tasks_offset = ucast (ntoskrnl w), linux_mm_offset = ucast (drop_bit 32 (ntoskrnl w)),
        linux_pid_offset = ucast (ntoskrnl_va w), linux_pgd_offset = ucast (drop_bit 32 (ntoskrnl_va w)),
        linux_name_offset = ucast (kdversion_block w)\<rparr>)
     else linux_os s)"

text \<open>The offset is an \<open>int\<close>, widened with its sign to the unsigned result.\<close>

definition vmi_get_offset :: "env \<Rightarrow> nat \<Rightarrow> string \<Rightarrow> u64 option vm" where
  "vmi_get_offset E fuel offset_name = do {
     s \<leftarrow> State_Monad.get;
     let w = windows_os s;
     let l = linux_view s;
     let is = strncmp_eq 100 offset_name;
     if is ''win_tasks'' then return (Some (scast (win_tasks_offset w)))
     else if is ''win_pdbase'' then return (Some (scast (win_pdbase_offset w)))
     else if is ''win_pid'' then return (Some (scast (win_pid_offset w)))
     else if is ''win_pname'' then
       (if win_pname_offset w = 0 then obind (find_pname_offset E fuel None) (\<lambda>ofs. do {
            modify (\<lambda>s. s\<lparr>windows_os := (windows_os s)\<lparr>win_pname_offset := ofs\<rparr>\<rparr>);
            return (Some (scast ofs)) })
        else return (Some (scast (win_pname_offset w))))
     else if is ''linux_tasks'' then return (Some (scast (linux_tasks_offset l)))
     else if is ''linux_mm'' then return (Some (scast (linux_mm_offset l)))
     else if is ''linux_pid'' then return (Some (scast (linux_pid_offset l)))
     else if is ''linux_name'' then return (Some (scast (linux_name_offset l)))
     else if is ''linux_pgd'' then return (Some (scast (linux_pgd_offset l)))
     else return (Some 0) }"

definition vmi_get_memsize :: "vmi \<Rightarrow> u64" where
  "vmi_get_memsize s = vmi_size s"

definition vmi_get_vcpureg :: "env \<Rightarrow> reg_t \<Rightarrow> registers_t \<Rightarrow> u64 \<Rightarrow> (status_t \<times> reg_t) vm" where
  "vmi_get_vcpureg E v reg vcpu = driver_get_vcpureg E v reg vcpu"

definition vmi_pause_vm :: "env \<Rightarrow> status_t vm" where
  "vmi_pause_vm E = driver_pause_vm E"

definition vmi_resume_vm :: "env \<Rightarrow> status_t vm" where
  "vmi_resume_vm E = driver_resume_vm E"

definition vmi_get_name :: "env \<Rightarrow> string option vm" where
  "vmi_get_name E = do {
     (st, name) \<leftarrow> driver_get_name E None;
     return (if st = VMI_FAILURE then None else name) }"

definition vmi_get_vmid :: "env \<Rightarrow> u64 vm" where
  "vmi_get_vmid E = do { name \<leftarrow> vmi_get_name E; driver_get_id_from_name E name }"

end
