(* ===== verification/Walk_Tools.thy ===== *)
theory Walk_Tools
  imports Accessors
begin

text \<open>
  The programs that have the hypervisor walk page tables: \<^verbatim>\<open>all_walk_page.c\<close>, which goes through the guest's
  process list, and \<^verbatim>\<open>walk_page.c\<close>, \<^verbatim>\<open>10_walk_page.c\<close> and \<^verbatim>\<open>tmp.c\<close>, which issue fixed calls. The hypervisor is
  code outside the repository: a program's result is the list of calls it makes.
\<close>

unbundle bit_operations_syntax

subsection \<open>all_walk_page.c\<close>

text \<open>
  A hypercall \<open>change_ept_content\<close> as the tools issue it: the domain, a frame or page directory, a second
  frame, and the number of the operation. The buffer that the last argument names is not used by this tool.
\<close>

record ept_call =
  call_dom :: u64
  call_gfn :: u64
  call_mfn :: u64
  call_op :: u64

definition change_ept :: "u32 \<Rightarrow> u64 \<Rightarrow> u64 \<Rightarrow> ept_call" where
  "change_ept domid gfn op = \<lparr>call_dom = scast domid, call_gfn = gfn, call_mfn = 0, call_op = op\<rparr>"

text \<open>The call for one process, if it has a page directory.\<close>

definition walk_process :: "env \<Rightarrow> nat \<Rightarrow> u32 \<Rightarrow> cint \<Rightarrow> ept_call list option vm" where
  "walk_process E fuel domid pid =
     (if 0 \<le> sint pid then obind (vmi_pid_to_dtb E fuel pid) (\<lambda>dtb.
        return (Some (if dtb \<noteq> 0 then [change_ept domid dtb 6] else [])))
      else return (Some []))"

text \<open>
  The loop over the process list, with a bound on its rounds. The result is the calls it issues; \<open>pid\<close>
  keeps its value where the field cannot be read.
\<close>

primrec walk_loop :: "env \<Rightarrow> nat \<Rightarrow> u32 \<Rightarrow> cint \<Rightarrow> cint \<Rightarrow> addr_t \<Rightarrow> nat \<Rightarrow> addr_t \<Rightarrow> cint \<Rightarrow> ept_call list option vm" where
  "walk_loop E fuel domid pid_offset tasks_offset list_head 0 next_process pid = return None"
| "walk_loop E fuel domid pid_offset tasks_offset list_head (Suc rounds) next_process pid = do {
     (_, tmp_next) \<leftarrow> vmi_read_addr_va E fuel next_process 0 0;
     if list_head = tmp_next then return (Some [])
     else do {
       (_, pid) \<leftarrow> vmi_read_32_va E fuel (next_process + scast pid_offset - scast tasks_offset) 0 pid;
       obind (walk_process E fuel domid pid) (\<lambda>calls.
         obind (walk_loop E fuel domid pid_offset tasks_offset list_head rounds tmp_next pid) (\<lambda>rest.
           return (Some (calls @ rest)))) } }"

text \<open>
  The offsets; on Windows the tool tests \<open>tasks_offset\<close> after each of the three. The inner \<open>None\<close> leaves
  through \<open>error_exit\<close>.
\<close>

definition walk_offsets :: "env \<Rightarrow> nat \<Rightarrow> (cint \<times> cint \<times> cint) option option vm" where
  "walk_offsets E fuel = do {
     os \<leftarrow> gets vmi_get_ostype;
     if os = VMI_OS_LINUX then
       obind (vmi_get_offset E fuel ''linux_tasks'') (\<lambda>tasks.
       obind (vmi_get_offset E fuel ''linux_name'') (\<lambda>name.
       obind (vmi_get_offset E fuel ''linux_pid'') (\<lambda>pid.
         return (Some (Some (ucast tasks, ucast name, ucast pid))))))
     else if os = VMI_OS_WINDOWS then
       obind (vmi_get_offset E fuel ''win_tasks'') (\<lambda>tasks.
         if (ucast tasks :: cint) = 0 then return (Some None)
         else obind (vmi_get_offset E fuel ''win_pname'') (\<lambda>name.
           obind (vmi_get_offset E fuel ''win_pid'') (\<lambda>pid.
             return (Some (Some (ucast tasks, ucast name, ucast pid))))))
     else return (Some (Some (ucast (junk E), ucast (junk E), ucast (junk E)))) }"

text \<open>The head of the list and the value of \<open>pid\<close> when the loop starts.\<close>

definition walk_head :: "env \<Rightarrow> nat \<Rightarrow> cint \<Rightarrow> cint \<Rightarrow> cint \<Rightarrow> (addr_t \<times> cint) option vm" where
  "walk_head E fuel tasks_offset name_offset pid_offset = do {
     os \<leftarrow> gets vmi_get_ostype;
     if os = VMI_OS_LINUX then
       obind (vmi_translate_ksym2v E fuel ''init_task'') (\<lambda>init_task_va. do {
         (_, next_process) \<leftarrow> vmi_read_addr_va E fuel (init_task_va + scast tasks_offset) 0 (junk E);
         return (Some (next_process, 0)) })
     else if os = VMI_OS_WINDOWS then
       obind (vmi_read_addr_ksym E fuel ''PsInitialSystemProcess'' (junk E)) (\<lambda>(_, list_head). do {
         (_, next_process) \<leftarrow> vmi_read_addr_va E fuel (list_head + scast tasks_offset) 0 (junk E);
         (_, pid) \<leftarrow> vmi_read_32_va E fuel (list_head + scast pid_offset) 0 0;
         (_, pid) \<leftarrow> vmi_read_32_va E fuel (list_head + scast pid_offset) 0 pid;
         obind (vmi_read_str_va E fuel (list_head + scast name_offset) 0) (\<lambda>procname.
           return (Some (next_process, pid))) })
     else return (Some (junk E, 0)) }"

text \<open>
  The whole run: \<open>arg\<close> is the first argument of the command and \<open>privcmd\<close> says whether the hypervisor's
  device can be opened. Where it cannot the tool exits and leaves the guest paused.
\<close>

definition walk_all :: "env \<Rightarrow> nat \<Rightarrow> string \<Rightarrow> bool \<Rightarrow> ept_call list option vm" where
  "walk_all E fuel arg privcmd = (let domid = atoi arg in
     obind (walk_offsets E fuel) (\<lambda>offsets. case offsets of
       None \<Rightarrow> do { _ \<leftarrow> vmi_resume_vm E; _ \<leftarrow> vmi_destroy; return (Some []) }
     | Some (tasks_offset, name_offset, pid_offset) \<Rightarrow> do {
         st \<leftarrow> vmi_pause_vm E;
         if st \<noteq> VMI_SUCCESS then do { _ \<leftarrow> vmi_resume_vm E; _ \<leftarrow> vmi_destroy; return (Some []) }
         else if \<not> privcmd then return (Some [])
         else obind (walk_head E fuel tasks_offset name_offset pid_offset) (\<lambda>(list_head, pid).
           obind (walk_loop E fuel domid pid_offset tasks_offset list_head fuel list_head pid) (\<lambda>calls. do {
             _ \<leftarrow> vmi_resume_vm E;
             _ \<leftarrow> vmi_destroy;
             return (Some (change_ept domid 0 5 # calls)) })) }))"

definition all_walk_page_main :: "env \<Rightarrow> nat \<Rightarrow> string \<Rightarrow> bool \<Rightarrow> ept_call list option vm" where
  "all_walk_page_main E fuel arg privcmd =
     obind (vmi_init E fuel (VMI_AUTO OR VMI_INIT_COMPLETE) (Some ''Web'')) (\<lambda>st.
       if st = VMI_FAILURE then return (Some []) else walk_all E fuel arg privcmd)"

subsection \<open>walk_page.c, 10_walk_page.c, tmp.c\<close>

text \<open>\<open>walk_page.c\<close> passes a page directory that it no longer looks up.\<close>

definition WALK_VADDR :: u64 where "WALK_VADDR = 0x7f7e7dfcfc28"

definition walk_page_main :: "env \<Rightarrow> string \<Rightarrow> bool \<Rightarrow> ept_call list" where
  "walk_page_main E arg privcmd = (if privcmd
     then [\<lparr>call_dom = scast (atoi arg), call_gfn = WALK_VADDR, call_mfn = junk E, call_op = 8\<rparr>] else [])"

definition ten_walk_page_main :: "string \<Rightarrow> bool \<Rightarrow> ept_call list" where
  "ten_walk_page_main arg privcmd = (if privcmd
     then map (change_ept (atoi arg) 0) [5, 7, 8] else [])"

definition tmp_main :: "string \<Rightarrow> string \<Rightarrow> string \<Rightarrow> bool \<Rightarrow> ept_call list" where
  "tmp_main arg1 arg2 arg3 privcmd = (if privcmd
     then (if atoi arg3 = 1 then [change_ept (atoi arg1) 0 13] else [change_ept (atoi arg1) (strtoull16 arg2) 6])
     else [])"

subsection \<open>The calls of the walk\<close>

text \<open>The process cache agrees with what the operating system's structures say of every process.\<close>

definition pids_sound :: "env \<Rightarrow> addr_t set \<Rightarrow> nat \<Rightarrow> vmi \<Rightarrow> bool" where
  "pids_sound E D fuel s \<longleftrightarrow> view E D (names s) s
     \<and> (\<forall>p d. pid_lookup s p = Some d \<longrightarrow> os_dtb E s fuel p = Some d)"


lemma pids_soundD:
  assumes "pids_sound E D fuel s"
  shows "view E D (names s) s" "pid_lookup s p = Some d \<Longrightarrow> os_dtb E s fuel p = Some d"
  using assms by (simp_all add: pids_sound_def)

lemma pids_sound_cong:
  assumes "pids_sound E D fuel s" "view E D c t" "core t = core s"
    and "\<And>p d. pid_lookup t p = Some d \<Longrightarrow> os_dtb E s fuel p = Some d"
  shows "pids_sound E D fuel t"
proof -
  have "os_dtb E t fuel = os_dtb E s fuel" by (metis assms(3) os_dtb_core ext)
  then show ?thesis using assms(2,4) viewD(7) [OF assms(2)] by (simp add: pids_sound_def)
qed

lemma reads_pids_sound:
  assumes "\<And>c. reads (view E D c) core m f"
  shows "reads (pids_sound E D fuel) core m f"
proof (rule readsI)
  fix s
  assume s: "pids_sound E D fuel s"
  let ?t = "snd (run_state m s)"
  have t: "fst (run_state m s) = f (core s)" "view E D (names s) ?t" "core ?t = core s"
    using reads_run [OF assms pids_soundD(1) [OF s] surjective_pairing] by simp_all
  have "pid_lookup ?t = pid_lookup s" using viewD(7) [OF t(2)] by (simp add: names_def)
  then have "pids_sound E D fuel ?t" using pids_sound_cong [OF s t(2,3)] pids_soundD(2) [OF s] by simp
  with t show "pids_sound E D fuel ?t \<and> core ?t = core s \<and> fst (run_state m s) = f (core s)" by simp
qed

lemma reads_pids_to_dtb:
  "reads (pids_sound E D fuel) core (vmi_pid_to_dtb E fuel pid) (\<lambda>s. os_dtb E s fuel pid)"
proof (rule readsI)
  fix s
  assume s: "pids_sound E D fuel s"
  show "pids_sound E D fuel (snd (run_state (vmi_pid_to_dtb E fuel pid) s))
    \<and> core (snd (run_state (vmi_pid_to_dtb E fuel pid) s)) = core s
    \<and> fst (run_state (vmi_pid_to_dtb E fuel pid) s) = os_dtb E (core s) fuel pid"
  proof (cases "pid_cache s pid")
    case (Some e)
    then have l: "pid_lookup s pid = Some (pid_dtb e)" by (simp add: pid_lookup_def)
    let ?t = "s\<lparr>pid_cache := (pid_cache s)(pid \<mapsto> e\<lparr>pid_last_used := clock s\<rparr>)\<rparr>"
    have "pid_lookup ?t p = pid_lookup s p" for p using Some by (simp add: pid_lookup_def)
    then have "pids_sound E D fuel ?t"
      using pids_sound_cong [OF s view_pid_cache [OF pids_soundD(1) [OF s]], of "(pid_cache s)(pid \<mapsto> e\<lparr>pid_last_used := clock s\<rparr>)"]
        pids_soundD(2) [OF s] by simp
    then show ?thesis
      using Some pids_soundD(2) [OF s l] by (simp add: vmi_pid_to_dtb_def pid_cache_get_def)
  next
    case None
    let ?m = "if os_type s = VMI_OS_LINUX then linux_pid_to_pgd E fuel pid
      else if os_type s = VMI_OS_WINDOWS then windows_pid_to_pgd E fuel pid else return (Some 0)"
    have "reads (pids_sound E D fuel) core ?m (\<lambda>t. if os_type s = VMI_OS_LINUX then linux_pgd E t fuel pid
        else if os_type s = VMI_OS_WINDOWS then windows_pgd E t fuel pid else Some 0)"
      by (intro reads_if reads_pids_sound reads_os_dtb reads_return)
    note r = reads_run [OF this s surjective_pairing]
    have f: "(if os_type s = VMI_OS_LINUX then linux_pgd E (core s) fuel pid
        else if os_type s = VMI_OS_WINDOWS then windows_pgd E (core s) fuel pid else Some 0) = os_dtb E s fuel pid"
      by (metis os_dtb_def os_dtb_core core_fields(10))
    obtain t where t: "run_state ?m s = (os_dtb E s fuel pid, t)" "pids_sound E D fuel t" "core t = core s"
      using r unfolding f by (metis prod.collapse)
    have n: "pids_sound E D fuel (t\<lparr>pid_cache := (pid_cache t)(pid \<mapsto> pid_cache_entry_create t pid d)\<rparr>)"
      if "os_dtb E s fuel pid = Some d" for d
    proof (rule pids_sound_cong [OF t(2) view_pid_cache [OF pids_soundD(1) [OF t(2)]]])
      fix p e
      assume "pid_lookup (t\<lparr>pid_cache := (pid_cache t)(pid \<mapsto> pid_cache_entry_create t pid d)\<rparr>) p = Some e"
      then have "p = pid \<and> e = d \<or> pid_lookup t p = Some e"
        by (auto simp: pid_lookup_def pid_cache_entry_create_def split: if_splits)
      moreover have "os_dtb E t fuel pid = Some d" using that t(3) by (metis os_dtb_core)
      ultimately show "os_dtb E t fuel p = Some e" using pids_soundD(2) [OF t(2)] by auto
    qed simp
    show ?thesis
      using None t n
      by (cases "os_dtb E s fuel pid") (auto simp: vmi_pid_to_dtb_def pid_cache_get_def run_obind pid_cache_set_def)
  qed
qed

text \<open>The calls as a function of the guest: for one process, and along the list.\<close>

definition process_calls :: "env \<Rightarrow> vmi \<Rightarrow> nat \<Rightarrow> u32 \<Rightarrow> cint \<Rightarrow> ept_call list option" where
  "process_calls E s fuel domid pid = (if 0 \<le> sint pid
     then map_option (\<lambda>dtb. if dtb \<noteq> 0 then [change_ept domid dtb 6] else []) (os_dtb E s fuel pid) else Some [])"

lemma process_calls_core [simp]: "process_calls E (core s) fuel domid pid = process_calls E s fuel domid pid"
  by (simp add: process_calls_def)

primrec list_calls :: "env \<Rightarrow> vmi \<Rightarrow> nat \<Rightarrow> u32 \<Rightarrow> cint \<Rightarrow> cint \<Rightarrow> addr_t \<Rightarrow> nat \<Rightarrow> addr_t \<Rightarrow> cint \<Rightarrow> ept_call list option" where
  "list_calls E s fuel domid po to head 0 cur pid = None"
| "list_calls E s fuel domid po to head (Suc rounds) cur pid =
     (if head = node_next E s cur then Some []
      else let pid = snd (node_pid E s po to cur pid) in
        case process_calls E s fuel domid pid of None \<Rightarrow> None
        | Some calls \<Rightarrow> map_option ((@) calls) (list_calls E s fuel domid po to head rounds (node_next E s cur) pid))"

lemma list_calls_core [simp]:
  "list_calls E (core s) fuel domid po to head rounds cur pid = list_calls E s fuel domid po to head rounds cur pid"
  by (induction rounds arbitrary: cur pid) (simp_all add: Let_def cong: option.case_cong)

lemma reads_walk_process:
  "reads (pids_sound E D fuel) core (walk_process E fuel domid pid) (\<lambda>s. process_calls E s fuel domid pid)"
  unfolding walk_process_def
  by (rule reads_weaken, (rule reads_if reads_obind reads_pids_to_dtb reads_return)+)
    (simp add: process_calls_def split: option.split)

lemma vmi_reads_kernel:
  "vmi_read_addr_va E fuel va 0 v = vmi_read_addr_kva E va v" "vmi_read_32_va E fuel va 0 v32 = vmi_read_X_kva E va v32"
  by (simp_all add: vmi_read_addr_va_def vmi_read_32_va_def vmi_read_X_va_def vmi_translate_def [abs_def])

lemma reads_walk_loop:
  "reads (pids_sound E D fuel) core (walk_loop E fuel domid po to head rounds cur pid)
    (\<lambda>s. list_calls E s fuel domid po to head rounds cur pid)"
proof (induction rounds arbitrary: cur pid)
  case 0
  show ?case by (simp add: reads_return)
next
  case (Suc rounds)
  show ?case
    unfolding walk_loop.simps vmi_reads_kernel
    by (rule reads_weaken, (rule reads_bind reads_case_prod reads_if reads_return reads_obind
          reads_pids_sound [OF kern.reads_read_addr_va] reads_pids_sound [OF kern.reads_read_width_va(3)]
          reads_walk_process Suc)+)
      (simp add: node_next_def node_pid_def Let_def case_prod_beta map_option_case split: option.split)
qed

lemma list_calls_linked:
  assumes "linked (node_next E s) cur (cur # as) head" "head \<notin> set as"
    and "pids_are E s po to (cur # as) f" and "length as < rounds"
    and "\<forall>a \<in> set (cur # as). os_dtb E s fuel (f a) = Some (dtb a)"
  shows "list_calls E s fuel domid po to head rounds cur p =
    Some (concat (map (\<lambda>a. if 0 \<le> sint (f a) \<and> dtb a \<noteq> 0 then [change_ept domid (dtb a) 6] else []) (butlast (cur # as))))"
  using assms
proof (induction as arbitrary: cur rounds p)
  case Nil
  then show ?case by (cases rounds) auto
next
  case (Cons a as)
  then obtain n where n: "rounds = Suc n" by (cases rounds) auto
  have nx: "node_next E s cur = a" "head \<noteq> a" using Cons.prems by auto
  have pid: "node_pid E s po to cur p = (VMI_SUCCESS, f cur)" using Cons.prems(3) by (simp add: pids_are_def)
  have "list_calls E s fuel domid po to head n a (f cur) =
      Some (concat (map (\<lambda>a. if 0 \<le> sint (f a) \<and> dtb a \<noteq> 0 then [change_ept domid (dtb a) 6] else []) (butlast (a # as))))"
    by (rule Cons.IH) (use Cons.prems n in \<open>auto simp: pids_are_def\<close>)
  then show ?case using nx pid Cons.prems(5) by (simp add: n Let_def process_calls_def)
qed

text \<open>The process list of the sample guest.\<close>

lemma process_guest_sound: "pids_sound xen_env {0x1000} 4 process_guest"
  using process_guest_view viewD(7) [OF process_guest_view] by (simp add: pids_sound_def names_def)

lemma process_guest_nodes:
  "node_next xen_env process_guest 0x401000 = 0x402000" "node_next xen_env process_guest 0x402000 = 0x403000"
  "node_next xen_env process_guest 0x403000 = 0x401000" "node_next xen_env process_guest 0x401010 = 0"
  "node_next xen_env process_guest 0x402010 = 0x1000" "node_next xen_env process_guest 0x403010 = 0"
  "node_pid xen_env process_guest 8 0 0x401000 q = (VMI_SUCCESS, 1)"
  "node_pid xen_env process_guest 8 0 0x402000 q = (VMI_SUCCESS, 2)"
  "node_pid xen_env process_guest 8 0 0x403000 q = (VMI_SUCCESS, 3)"
  by (simp_all add: node_next_def node_pid_def virt_addr_def process_guest_word process_guest_memory_def
      task_memory_def le_word_def)

lemma process_guest_dtbs:
  "os_dtb xen_env process_guest 4 1 = Some 0" "os_dtb xen_env process_guest 4 2 = Some 0x1000"
  "os_dtb xen_env process_guest 4 3 = Some 0"
proof -
  have w: "eprocess_walk xen_env process_guest (Suc (Suc (Suc (Suc 0)))) 1 8 0 0 0x401000 0 = Some 0x401000"
    "eprocess_walk xen_env process_guest (Suc (Suc (Suc (Suc 0)))) 2 8 0 0 0x401000 0 = Some 0x402000"
    "eprocess_walk xen_env process_guest (Suc (Suc (Suc (Suc 0)))) 3 8 0 0 0x401000 0 = Some 0x403000"
    by (simp_all add: process_guest_nodes)
  have four: "Suc (Suc (Suc (Suc 0))) = 4" by simp
  show "os_dtb xen_env process_guest 4 1 = Some 0" "os_dtb xen_env process_guest 4 2 = Some 0x1000"
    "os_dtb xen_env process_guest 4 3 = Some 0"
    using w unfolding four by (simp_all add: os_dtb_def windows_pgd_def Let_def process_guest_nodes)
qed

text \<open>C25: In a guest with 32-bit paging (legacy or PAE) whose kernel's page tables map no page at or above 4 GiB, and with a
  translation cache that agrees with them (\<open>view\<close>) (\<open>pids_sound\<close>: and the process cache holds no directory but
  the right one), the page-table walker asks the hypervisor once for each process of a circular task list,
  in the order of the list, to walk the page directory that the operating system's structures give for its number, and
  leaves out processes with a negative number or without a directory, and the node before the head; any bound above
  the length of the list is enough for the loop to end, and it changes nothing but the library's caches. IA-32e
  paging is not covered.\<close>

theorem walk_loop_visits:
  assumes "pids_sound E D fuel s" and "linked (node_next E s) head (head # as) head" "head \<notin> set as"
    and "pids_are E s po to (head # as) f" and "length as < rounds"
    and "\<forall>a \<in> set (head # as). os_dtb E s fuel (f a) = Some (dtb a)"
    and "run_state (walk_loop E fuel domid po to head rounds head p) s = (r, t)"
  shows "r = Some (concat (map (\<lambda>a. if 0 \<le> sint (f a) \<and> dtb a \<noteq> 0 then [change_ept domid (dtb a) 6] else [])
      (butlast (head # as)))) \<and> core t = core s"
  using reads_run [OF reads_walk_loop assms(1,7)] list_calls_linked [OF assms(2-6)] by simp

lemma walk_loop_visits_witness:
  "fst (run_state (walk_loop xen_env 4 7 8 0 0x401000 3 0x401000 0) process_guest) = Some [change_ept 7 0x1000 6]"
proof -
  let ?f = "\<lambda>a. ucast (task_memory (a + 8)) :: cint" and ?dtb = "\<lambda>a. if a = 0x402000 then 0x1000 else 0 :: addr_t"
  show ?thesis
    using walk_loop_visits [OF process_guest_sound _ _ _ _ _ surjective_pairing, of "0x401000" "[0x402000, 0x403000]" 8 0 ?f 3 ?dtb 7 0]
    by (simp add: process_guest_nodes process_guest_dtbs pids_are_def task_memory_def)
qed

end
