(* ===== verification/Swap_Tools.thy ===== *)
theory Swap_Tools
  imports Walk_Tools
begin

text \<open>
  The two programs that watch a guest swap: \<^verbatim>\<open>swap_diff/swap_calculate.c\<close> and
  \<^verbatim>\<open>SCHEDULE_SWAP/swap_calculate.c\<close>. The hypervisor is a parameter: for its state, a call and the contents of
  the buffer that the call names it gives the result of the call, the new contents and its next state.
\<close>

unbundle bit_operations_syntax

type_synonym 'h hypervisor = "'h \<Rightarrow> ept_call \<Rightarrow> u64 list \<Rightarrow> cint \<times> u64 list \<times> 'h"

definition swap_call :: "cint \<Rightarrow> u64 \<Rightarrow> u64 \<Rightarrow> u64 \<Rightarrow> ept_call" where
  "swap_call domid gfn mfn op = \<lparr>call_dom = scast domid, call_gfn = gfn, call_mfn = mfn, call_op = op\<rparr>"

text \<open>
  \<open>RECENT_CR3_SIZE\<close> is \<open>100+1\<close>, without parentheses: the loops run over 101 elements, but the size given to
  \<open>malloc\<close> is 801 bytes. The model gives the buffer all its elements.
\<close>

definition RECENT_CR3_SIZE :: nat where "RECENT_CR3_SIZE = 100 + 1"

definition recent_cr3_bytes :: nat where "recent_cr3_bytes = 8 * 100 + 1"

subsection \<open>swap_diff/swap_calculate.c\<close>

definition RECENT_WALK_SIZE :: nat where "RECENT_WALK_SIZE = 10"
definition DIFF_THRESHOLD :: u64 where "DIFF_THRESHOLD = 800"
definition TIMES :: u32 where "TIMES = 1"

text \<open>
  The variables that live across the rounds: \<open>d_flag\<close> is set after the first round. \<open>d_bad\<close> is no variable of the
  program: it records that an index has been out of bounds, which makes all that follows undefined in C.
\<close>

record 'h diff_state =
  d_hv :: 'h
  d_all_cr3 :: "u64 list"
  d_answer_cr3 :: "u64 list"
  d_times :: u32
  d_flag :: bool
  d_bad :: bool

text \<open>
  The loop that counts how often a page directory was seen. There are no places for the most frequent
  ones (\<open>TOP_CR3_SIZE\<close> is 0), so nothing else comes of it.
\<close>

definition count_cr3 :: "u64 \<Rightarrow> u64 list \<Rightarrow> u64 list \<Rightarrow> u64 list" where
  "count_cr3 tot_pages cr3s all_cr3 = foldl (\<lambda>all x. let cr3_index = drop_bit 12 x in
     if cr3_index < tot_pages \<and> cr3_index \<noteq> 0
     then all[unat cr3_index := all ! unat cr3_index + 1] else all) all_cr3 cr3s"

text \<open>The directories to walk: the recent ones, and zeros if there are fewer than ten.\<close>

definition walk_request :: "cint \<Rightarrow> u64 list \<Rightarrow> u64 list" where
  "walk_request new_cr3_size new_cr3 = map (\<lambda>i. if i < unat (scast new_cr3_size :: u64) then new_cr3 ! (i + 1) else 0)
     [0..<RECENT_WALK_SIZE]"

definition swap_growth :: "bool \<Rightarrow> u64 list \<Rightarrow> u64 list \<Rightarrow> u64" where
  "swap_growth flag answer_cr3 last_diff_swap_num = foldl (\<lambda>tot_diff i.
     if answer_cr3 ! i > last_diff_swap_num ! i \<and> flag \<and> last_diff_swap_num ! i > 0
     then tot_diff + (answer_cr3 ! i - last_diff_swap_num ! i) else tot_diff) 0 [0..<RECENT_WALK_SIZE]"

text \<open>
  One round: ask for the recent directories, have them walked twice with a pause in between, and compare.
  \<open>new_cr3_size + 1\<close> is computed as an \<open>int\<close> and compared with an \<open>unsigned long\<close>: a count that is
  negative or above 100 makes the first loop read behind the buffer. The code does not check the count and goes on, and
  so does the model, with \<open>past\<close> for what lies there.
\<close>

definition diff_round :: "(nat \<Rightarrow> u64) \<Rightarrow> 'h hypervisor \<Rightarrow> cint \<Rightarrow> cint \<Rightarrow> u64 \<Rightarrow> 'h diff_state \<Rightarrow> 'h diff_state" where
  "diff_round past hyp domid os tot_pages st = (let
     (_, new_cr3, hv) = hyp (d_hv st) (swap_call domid (scast os) 3 7) (replicate RECENT_CR3_SIZE 0);
     new_cr3_size = (ucast (new_cr3 ! 0) :: cint);
     n = unat (scast (new_cr3_size + 1) :: u64);
     all_cr3 = count_cr3 tot_pages (map (\<lambda>i. if i < RECENT_CR3_SIZE then new_cr3 ! i else past i) [1..<n]) (d_all_cr3 st);
     walk = swap_call domid (of_nat RECENT_WALK_SIZE) 0 12;
     (_, last_diff_swap_num, hv) = hyp hv walk (walk_request new_cr3_size new_cr3);
     (_, answer_cr3, hv) = hyp hv walk (walk_request new_cr3_size new_cr3);
     tot_diff = swap_growth (d_flag st) answer_cr3 last_diff_swap_num
   in st\<lparr>d_hv := hv, d_all_cr3 := all_cr3, d_answer_cr3 := answer_cr3,
       d_times := (if DIFF_THRESHOLD < tot_diff then d_times st + 1 else 0), d_bad := d_bad st \<or> RECENT_CR3_SIZE < n\<rparr>)"

text \<open>The loop, with a bound on its rounds; it ends with a bottleneck.\<close>

primrec diff_loop :: "(nat \<Rightarrow> u64) \<Rightarrow> 'h hypervisor \<Rightarrow> cint \<Rightarrow> cint \<Rightarrow> u64 \<Rightarrow> nat \<Rightarrow> 'h diff_state \<Rightarrow> 'h diff_state option" where
  "diff_loop past hyp domid os tot_pages 0 st = None"
| "diff_loop past hyp domid os tot_pages (Suc rounds) st = (let st' = diff_round past hyp domid os tot_pages st in
     if TIMES \<le> d_times st' then Some st'
     else diff_loop past hyp domid os tot_pages rounds (st'\<lparr>d_flag := True\<rparr>))"

text \<open>
  The program, from the three numbers it is given: \<open>mem_ok\<close> says whether there is memory for an array of a
  number of bytes, and \<open>privcmd\<close> whether the device can be opened. The result says whether a bottleneck
  was reported and whether a buffer has been left, with the hypervisor's last state.
\<close>

definition swap_diff_main :: "(nat \<Rightarrow> u64) \<Rightarrow> 'h hypervisor \<Rightarrow> nat \<Rightarrow> (u64 \<Rightarrow> bool) \<Rightarrow> bool \<Rightarrow> cint \<Rightarrow> u64 \<Rightarrow> cint \<Rightarrow> 'h
    \<Rightarrow> (bool \<times> bool \<times> 'h) option" where
  "swap_diff_main past hyp rounds mem_ok privcmd domid mem os hv = (let tot_pages = mem * 256 + 1024 in
     if \<not> mem_ok (8 * tot_pages) then Some (False, False, hv)
     else if \<not> privcmd then Some (False, False, hv)
     else let (ret, _, hv) = hyp hv (swap_call domid (scast os) 0 13) [] in
       if ret = -1 then Some (False, False, hv)
       else if \<not> mem_ok (of_nat recent_cr3_bytes) then Some (False, False, hv)
       else case diff_loop past hyp domid os tot_pages rounds \<lparr>d_hv = hv, d_all_cr3 = replicate (unat tot_pages) 0,
           d_answer_cr3 = replicate RECENT_WALK_SIZE 0, d_times = 0, d_flag = False, d_bad = False\<rparr> of
         None \<Rightarrow> None
       | Some st \<Rightarrow> let (_, _, hv) = hyp (d_hv st) (swap_call domid (scast os) 0 14) [] in Some (True, d_bad st, hv))"

subsection \<open>SCHEDULE_SWAP/swap_calculate.c\<close>

definition SWAP_THRESHOLD :: u64 where "SWAP_THRESHOLD = 200"
definition SAMPLE_TIMES :: cint where "SAMPLE_TIMES = 1"
definition REFRESH_PERIOD :: nat where "REFRESH_PERIOD = 10"
definition SHOW_PERIOD :: nat where "SHOW_PERIOD = 200 * 1000"

text \<open>
  The buffer after a call, and the sum of the elements that its first one counts. The index is a \<open>long\<close>, so
  a negative count gives an empty sum; \<open>None\<close> is a count that goes past the buffer.
\<close>

definition swap_sum :: "u64 list \<Rightarrow> u64 option" where
  "swap_sum swap_diff = (let ary_size = sint (ucast (swap_diff ! 0) :: cint) in
     if int RECENT_CR3_SIZE \<le> ary_size then None
     else Some (foldl (+) 0 (take (nat ary_size) (drop 1 swap_diff))))"

definition ask_swap :: "'h hypervisor \<Rightarrow> cint \<Rightarrow> cint \<Rightarrow> u64 \<Rightarrow> 'h \<Rightarrow> u64 option \<times> 'h" where
  "ask_swap hyp domid os op hv = (case hyp hv (swap_call domid (scast os) 0 op) (replicate RECENT_CR3_SIZE 0) of
     (_, swap_diff, hv) \<Rightarrow> (swap_sum swap_diff, hv))"

text \<open>
  A report: the growth that caused it and the megabytes of memory to add. \<open>s_bad\<close> is an access out of
  bounds, which ends the model of a period.
\<close>

record 'h sched_state =
  s_hv :: 'h
  s_sample_times :: cint
  s_reports :: "(u64 \<times> u64) list"
  s_bad :: bool

definition sched_sample :: "'h hypervisor \<Rightarrow> cint \<Rightarrow> cint \<Rightarrow> 'h sched_state \<Rightarrow> 'h sched_state" where
  "sched_sample hyp domid os st = (case ask_swap hyp domid os 16 (s_hv st) of
     (None, hv) \<Rightarrow> st\<lparr>s_hv := hv, s_bad := True\<rparr>
   | (Some total_diff, hv) \<Rightarrow>
       if SWAP_THRESHOLD < total_diff then
         let sample_times = s_sample_times st - 1 in
         if sample_times = 0 then (case ask_swap hyp domid os 19 hv of
             (None, hv) \<Rightarrow> st\<lparr>s_hv := hv, s_sample_times := sample_times, s_bad := True\<rparr>
           | (Some tot_swap, hv) \<Rightarrow> st\<lparr>s_hv := hv, s_sample_times := sample_times,
               s_reports := s_reports st @ [(total_diff, tot_swap div 256)]\<rparr>)
         else st\<lparr>s_hv := hv, s_sample_times := sample_times\<rparr>
       else st\<lparr>s_hv := hv\<rparr>)"

primrec show_loop :: "'h hypervisor \<Rightarrow> cint \<Rightarrow> cint \<Rightarrow> nat \<Rightarrow> 'h sched_state \<Rightarrow> 'h sched_state" where
  "show_loop hyp domid os 0 st = st"
| "show_loop hyp domid os (Suc show_times) st = (let st' = sched_sample hyp domid os st in
     if s_bad st' then st' else show_loop hyp domid os show_times st')"

text \<open>A period: the hypervisor is told to start afresh, then asked fifty times.\<close>

definition sched_period :: "'h hypervisor \<Rightarrow> cint \<Rightarrow> cint \<Rightarrow> 'h sched_state \<Rightarrow> 'h sched_state" where
  "sched_period hyp domid os st = (let
     show_times = REFRESH_PERIOD * 1000 * 1000 div SHOW_PERIOD;
     (_, buf, hv) = hyp (s_hv st) (swap_call domid (scast os) 0 15) (replicate RECENT_CR3_SIZE 0);
     (_, buf, hv) = hyp hv (swap_call domid (scast os) 0 18) buf
   in show_loop hyp domid os show_times (st\<lparr>s_hv := hv, s_sample_times := SAMPLE_TIMES\<rparr>))"

text \<open>The program never ends by itself; the handler of the interrupt signal issues the last two calls.\<close>

primrec sched_loop :: "'h hypervisor \<Rightarrow> cint \<Rightarrow> cint \<Rightarrow> nat \<Rightarrow> 'h sched_state \<Rightarrow> 'h sched_state" where
  "sched_loop hyp domid os 0 st = st"
| "sched_loop hyp domid os (Suc periods) st = (let st' = sched_period hyp domid os st in
     if s_bad st' then st' else sched_loop hyp domid os periods st')"

definition end_process :: "'h hypervisor \<Rightarrow> cint \<Rightarrow> cint \<Rightarrow> 'h \<Rightarrow> 'h" where
  "end_process hyp domid os hv = (let
     (_, _, hv) = hyp hv (swap_call domid (scast os) 0 17) [];
     (_, _, hv) = hyp hv (swap_call domid (scast os) 0 14) []
   in hv)"

definition sched_main :: "'h hypervisor \<Rightarrow> bool \<Rightarrow> bool \<Rightarrow> cint \<Rightarrow> cint \<Rightarrow> nat \<Rightarrow> 'h \<Rightarrow> 'h sched_state" where
  "sched_main hyp mem_ok privcmd domid os periods hv = (let
     st = \<lparr>s_hv = hv, s_sample_times = 0, s_reports = [], s_bad = False\<rparr> in
     if \<not> mem_ok \<or> \<not> privcmd then st
     else let (_, _, hv) = hyp hv (swap_call domid (scast os) 0 13) []
       in sched_loop hyp domid os periods (st\<lparr>s_hv := hv\<rparr>))"

subsection \<open>The first sample over the threshold\<close>

lemma find_upt_Suc: "find P [0..<Suc n] = (if P 0 then Some 0 else map_option Suc (find (\<lambda>k. P (Suc k)) [0..<n]))"
proof -
  have "find P (map Suc xs) = map_option Suc (find (\<lambda>k. P (Suc k)) xs)" for xs
    by (induction xs) auto
  moreover have "[0..<Suc n] = 0 # map Suc [0..<n]" by (simp add: upt_conv_Cons map_Suc_upt)
  ultimately show ?thesis by simp
qed

text \<open>The hypervisor after \<open>k\<close> samples, the sum of the next one, and whether it ends the quiet part.\<close>

definition after_samples :: "'h hypervisor \<Rightarrow> cint \<Rightarrow> cint \<Rightarrow> nat \<Rightarrow> 'h \<Rightarrow> 'h" where
  "after_samples hyp domid os k = (\<lambda>hv. snd (ask_swap hyp domid os 16 hv)) ^^ k"

definition sample_sum :: "'h hypervisor \<Rightarrow> cint \<Rightarrow> cint \<Rightarrow> nat \<Rightarrow> 'h \<Rightarrow> u64 option" where
  "sample_sum hyp domid os k hv = fst (ask_swap hyp domid os 16 (after_samples hyp domid os k hv))"

definition alarming :: "u64 option \<Rightarrow> bool" where
  "alarming s \<longleftrightarrow> (case s of None \<Rightarrow> True | Some d \<Rightarrow> 200 < d)"

definition first_report :: "'h hypervisor \<Rightarrow> cint \<Rightarrow> cint \<Rightarrow> nat \<Rightarrow> 'h \<Rightarrow> (u64 \<times> u64) list" where
  "first_report hyp domid os n hv =
    (case find (\<lambda>k. alarming (sample_sum hyp domid os k hv)) [0..<n] of None \<Rightarrow> []
     | Some k \<Rightarrow> (case (sample_sum hyp domid os k hv,
           fst (ask_swap hyp domid os 19 (after_samples hyp domid os (Suc k) hv))) of
         (Some total_diff, Some tot_swap) \<Rightarrow> [(total_diff, tot_swap div 256)] | _ \<Rightarrow> []))"

lemma after_samples_shift:
  "after_samples hyp domid os (Suc k) hv = after_samples hyp domid os k (snd (ask_swap hyp domid os 16 hv))"
  "sample_sum hyp domid os (Suc k) hv = sample_sum hyp domid os k (snd (ask_swap hyp domid os 16 hv))"
  by (simp_all add: after_samples_def sample_sum_def funpow_Suc_right del: funpow.simps)

text \<open>Once the count of samples has passed zero there is no further report.\<close>

lemma sched_sample_spent:
  assumes "sint (s_sample_times st) \<le> 0" "- (2 ^ 31) < sint (s_sample_times st)"
  shows "s_reports (sched_sample hyp domid os st) = s_reports st
    \<and> sint (s_sample_times st) - 1 \<le> sint (s_sample_times (sched_sample hyp domid os st))
    \<and> sint (s_sample_times (sched_sample hyp domid os st)) \<le> 0"
proof -
  have "sint (s_sample_times st - 1) = sint (s_sample_times st) - 1"
    using assms by (simp add: sint_word_ariths signed_take_bit_int_eq_self)
  then have "s_sample_times st - 1 \<noteq> 0" using assms by auto
  then show ?thesis
    using assms \<open>sint (s_sample_times st - 1) = sint (s_sample_times st) - 1\<close>
    by (auto simp: sched_sample_def Let_def split: prod.split option.split)
qed

lemma show_loop_spent:
  assumes "sint (s_sample_times st) \<le> 0" "int n - 2 ^ 31 < sint (s_sample_times st)"
  shows "s_reports (show_loop hyp domid os n st) = s_reports st"
  using assms
proof (induction n arbitrary: st)
  case 0
  then show ?case by simp
next
  case (Suc n)
  let ?t = "sched_sample hyp domid os st"
  have "s_reports ?t = s_reports st" "sint (s_sample_times st) - 1 \<le> sint (s_sample_times ?t)"
    "sint (s_sample_times ?t) \<le> 0"
    using sched_sample_spent [of st hyp domid os] Suc.prems by simp_all
  then show ?case using Suc.IH [of ?t] Suc.prems by (simp add: Let_def)
qed

lemma show_loop_reports:
  assumes "s_sample_times st = 1" "n < 2 ^ 30" "\<not> s_bad st"
  shows "s_reports (show_loop hyp domid os n st) = s_reports st @
    first_report hyp domid os n (s_hv st)"
  using assms
proof (induction n arbitrary: st)
  case 0
  then show ?case by (simp add: first_report_def)
next
  case (Suc n)
  let ?hv = "s_hv st" and ?t = "sched_sample hyp domid os st"
  obtain x hv1 where a: "ask_swap hyp domid os 16 ?hv = (x, hv1)" by (cases "ask_swap hyp domid os 16 ?hv") auto
  have s0: "sample_sum hyp domid os 0 ?hv = x" "after_samples hyp domid os (Suc 0) ?hv = hv1"
    by (simp_all add: sample_sum_def after_samples_def a)
  show ?case
  proof (cases "alarming x")
    case True
    obtain y hv2 where b: "ask_swap hyp domid os 19 hv1 = (y, hv2)" by (cases "ask_swap hyp domid os 19 hv1") auto
    have r: "s_reports ?t = s_reports st @ (case (x, y) of (Some d, Some w) \<Rightarrow> [(d, w div 256)] | _ \<Rightarrow> [])"
      and z: "s_bad ?t \<or> s_sample_times ?t = 0"
      using True Suc.prems(1) a b
      by (auto simp: sched_sample_def Let_def alarming_def SWAP_THRESHOLD_def split: option.splits)
    have "s_reports (show_loop hyp domid os (Suc n) st) = s_reports ?t"
      using z show_loop_spent [of ?t n hyp domid os] Suc.prems(2) by (auto simp: Let_def)
    then show ?thesis using r True by (simp only: first_report_def find_upt_Suc s0 if_True option.case b fst_conv)
  next
    case False
    then obtain d where d: "x = Some d" "\<not> 200 < d" by (cases x) (auto simp: alarming_def)
    then have t: "?t = st\<lparr>s_hv := hv1\<rparr>" using a by (simp add: sched_sample_def SWAP_THRESHOLD_def)
    have h: "snd (ask_swap hyp domid os 16 ?hv) = hv1" by (simp add: a)
    let ?F = "find (\<lambda>k. alarming (sample_sum hyp domid os k hv1)) [0..<n]"
    have "s_reports (show_loop hyp domid os (Suc n) st) = s_reports (show_loop hyp domid os n ?t)"
      using Suc.prems(3) by (simp add: t)
    also have "\<dots> = s_reports st @ first_report hyp domid os n hv1"
      using Suc.IH [of ?t] Suc.prems by (simp add: t)
    finally show ?thesis
      using False by (cases ?F) (simp_all only: first_report_def find_upt_Suc s0 if_False after_samples_shift h option.map option.case)
  qed
qed

text \<open>C29: The scheduler's monitor reports a bottleneck at most once in a period of fifty samples: at the first
sample whose differences add up to more than the threshold of 200, with that sum and the swapped pages
divided by 256, provided that no count in a sample up to there, or in the answer about swapped pages, exceeds
the buffer.\<close>

theorem sched_period_reports:
  assumes "\<not> s_bad st"
    and "hyp (s_hv st) (swap_call domid (scast os) 0 15) (replicate 101 0) = (r1, buf, hv1)"
    and "hyp hv1 (swap_call domid (scast os) 0 18) buf = (r2, buf2, hv)"
  shows "s_reports (sched_period hyp domid os st) = s_reports st @
    first_report hyp domid os 50 hv"
proof -
  have "sched_period hyp domid os st = show_loop hyp domid os 50 (st\<lparr>s_hv := hv, s_sample_times := 1\<rparr>)"
    using assms(2,3)
    by (simp add: sched_period_def Let_def REFRESH_PERIOD_def SHOW_PERIOD_def SAMPLE_TIMES_def RECENT_CR3_SIZE_def)
  then show ?thesis
    using show_loop_reports [of "st\<lparr>s_hv := hv, s_sample_times := 1\<rparr>" 50 hyp domid os] assms(1) by simp
qed

text \<open>A hypervisor that counts the calls about differences, and reports 100 more pages at each.\<close>

definition growing_hypervisor :: "nat hypervisor" where
  "growing_hypervisor hv call buf = (0, (if call_op call = 16 then 2 # of_nat (100 * hv) # 7 # drop 3 buf
     else if call_op call = 19 then 1 # 5120 # drop 2 buf else buf), if call_op call = 16 then Suc hv else hv)"

lemma sched_period_reports_witness:
  "s_reports (sched_period growing_hypervisor 1 0 \<lparr>s_hv = 0, s_sample_times = 0, s_reports = [], s_bad = False\<rparr>)
    = [(207, 20)]"
proof -
  let ?st = "\<lparr>s_hv = 0 :: nat, s_sample_times = 0, s_reports = [], s_bad = False\<rparr>"
  have a: "ask_swap growing_hypervisor 1 0 16 m = (Some (of_nat (100 * m) + 7), Suc m)"
    "ask_swap growing_hypervisor 1 0 19 m = (Some 5120, m)" for m
    by (simp_all add: ask_swap_def growing_hypervisor_def swap_call_def swap_sum_def RECENT_CR3_SIZE_def Let_def)
  have h: "after_samples growing_hypervisor 1 0 k m = k + m" for k m
    by (induction k) (simp_all add: after_samples_def a)
  have s: "sample_sum growing_hypervisor 1 0 k 0 = Some (of_nat (100 * k) + 7)" for k
    by (simp add: sample_sum_def h a)
  have "[0..<50] = 0 # 1 # 2 # [3..<50 :: nat]" by (simp add: upt_conv_Cons del: upt_rec_numeral)
  then have f: "find (\<lambda>k. alarming (sample_sum growing_hypervisor 1 0 k 0)) [0..<50] = Some 2"
    by (simp add: s alarming_def del: upt_rec_numeral)
  have r: "first_report growing_hypervisor 1 0 50 0 = [(207, 20)]"
    unfolding first_report_def f option.case by (simp add: s h a)
  show ?thesis
    using sched_period_reports [of ?st growing_hypervisor 1 0 0 "replicate 101 0" 0 0 "replicate 101 0" 0]
    by (simp add: r growing_hypervisor_def swap_call_def)
qed

subsection \<open>The first growth over the threshold\<close>

text \<open>
  What the hypervisor answers in a round: whether the count of directories fits the buffer, and the swapped pages of
  ten directories before and after the pause.
\<close>

definition round_answers :: "'h hypervisor \<Rightarrow> cint \<Rightarrow> cint \<Rightarrow> 'h \<Rightarrow> (bool \<times> u64 list \<times> u64 list) \<times> 'h" where
  "round_answers hyp domid os hv = (let
     (_, new_cr3, hv) = hyp hv (swap_call domid (scast os) 3 7) (replicate RECENT_CR3_SIZE 0);
     size = (ucast (new_cr3 ! 0) :: cint);
     walk = swap_call domid (of_nat RECENT_WALK_SIZE) 0 12;
     (_, before, hv) = hyp hv walk (walk_request size new_cr3);
     (_, after, hv) = hyp hv walk (walk_request size new_cr3)
   in ((0 \<le> sint (size + 1) \<and> sint (size + 1) \<le> 101, before, after), hv))"

definition total_growth :: "u64 list \<times> u64 list \<Rightarrow> u64" where
  "total_growth r = (case r of (before, after) \<Rightarrow>
     \<Sum>i<10. if 0 < before ! i \<and> before ! i < after ! i then after ! i - before ! i else 0)"

lemma swap_growth_sum:
  "swap_growth flag after before = (if flag then total_growth (before, after) else 0)"
proof -
  have "foldl (\<lambda>tot i. if after ! i > before ! i \<and> flag \<and> before ! i > 0 then tot + (after ! i - before ! i) else tot) x [0..<n]
      = x + (\<Sum>i<n. if flag \<and> 0 < before ! i \<and> before ! i < after ! i then after ! i - before ! i else 0)" for n x
    by (induction n) (auto simp: lessThan_Suc)
  then show ?thesis by (simp add: swap_growth_def total_growth_def RECENT_WALK_SIZE_def del: upt_rec_numeral)
qed

lemma count_fits:
  "RECENT_CR3_SIZE < unat (scast (x :: cint) :: u64) \<longleftrightarrow> \<not> (0 \<le> sint x \<and> sint x \<le> 101)"
proof -
  have b: "- 2147483648 \<le> sint x" "sint x < 2147483648"
    using sint_greater_eq [of x] sint_less [of x] by simp_all
  have r: "RECENT_CR3_SIZE < unat w \<longleftrightarrow> 101 < int (unat w)" for w :: u64
    by (simp add: RECENT_CR3_SIZE_def del: of_nat_unat)
  have "uint (scast x :: u64) = sint x mod 2 ^ 64" unfolding scast_eq uint_word_of_int by simp
  then have u: "int (unat (scast x :: u64)) = sint x mod 2 ^ 64" by (simp only: uint_nat)
  show ?thesis
  proof (cases "0 \<le> sint x")
    case True
    then have "sint x mod 2 ^ 64 = sint x" using b by (intro mod_pos_pos_trivial) simp_all
    then show ?thesis using True unfolding r u by (simp add: not_le)
  next
    case False
    have "sint x mod 2 ^ 64 = (sint x + 2 ^ 64) mod 2 ^ 64" by simp
    also have "\<dots> = sint x + 2 ^ 64" using b False by (intro mod_pos_pos_trivial) simp_all
    finally show ?thesis using False b unfolding r u by (simp add: not_le)
  qed
qed

lemma diff_round_answers:
  assumes "round_answers hyp domid os (d_hv st) = ((fits, g), hv)"
  shows "d_hv (diff_round past hyp domid os tot st) = hv"
    and "d_bad (diff_round past hyp domid os tot st) \<longleftrightarrow> d_bad st \<or> \<not> fits"
    and "d_times (diff_round past hyp domid os tot st) = (if d_flag st \<and> 800 < total_growth g then d_times st + 1 else 0)"
    and "d_flag (diff_round past hyp domid os tot st) = d_flag st"
  using assms
  by (auto simp: round_answers_def diff_round_def Let_def swap_growth_sum DIFF_THRESHOLD_def count_fits split: prod.splits)

text \<open>The answers in round \<open>k\<close>, counted from 0.\<close>

definition answers_at :: "'h hypervisor \<Rightarrow> cint \<Rightarrow> cint \<Rightarrow> nat \<Rightarrow> 'h \<Rightarrow> bool \<times> u64 list \<times> u64 list" where
  "answers_at hyp domid os k hv = fst (round_answers hyp domid os (((\<lambda>hv. snd (round_answers hyp domid os hv)) ^^ k) hv))"

lemma answers_at_simps:
  "answers_at hyp domid os 0 hv = fst (round_answers hyp domid os hv)"
  "answers_at hyp domid os (Suc k) hv = answers_at hyp domid os k (snd (round_answers hyp domid os hv))"
  by (simp_all add: answers_at_def funpow_Suc_right del: funpow.simps)

definition fits_at :: "'h hypervisor \<Rightarrow> cint \<Rightarrow> cint \<Rightarrow> 'h \<Rightarrow> nat \<Rightarrow> bool" where
  "fits_at hyp domid os hv k = fst (answers_at hyp domid os k hv)"

definition growth_at :: "'h hypervisor \<Rightarrow> cint \<Rightarrow> cint \<Rightarrow> 'h \<Rightarrow> nat \<Rightarrow> u64" where
  "growth_at hyp domid os hv k = total_growth (snd (answers_at hyp domid os k hv))"

lemma ex_le_Suc: "(\<exists>j\<le>Suc k. P j) \<longleftrightarrow> P 0 \<or> (\<exists>j\<le>k. P (Suc j))"
  by (metis Suc_le_mono not0_implies_Suc zero_le)

lemma diff_loop_reports:
  assumes "d_times st = 0"
  shows "map_option d_bad (diff_loop past hyp domid os tot n st) =
    map_option (\<lambda>k. d_bad st \<or> (\<exists>j\<le>k. \<not> fits_at hyp domid os (d_hv st) j))
      (find (\<lambda>k. (d_flag st \<or> 0 < k) \<and> 800 < growth_at hyp domid os (d_hv st) k) [0..<n])"
  using assms
proof (induction n arbitrary: st)
  case 0
  then show ?case by simp
next
  case (Suc n)
  let ?t = "diff_round past hyp domid os tot st"
  obtain fits g hv where a: "round_answers hyp domid os (d_hv st) = ((fits, g), hv)"
    by (cases "round_answers hyp domid os (d_hv st)") auto
  note d = diff_round_answers [OF a, where tot = tot and past = past]
  have at: "fits_at hyp domid os (d_hv st) 0 = fits" "growth_at hyp domid os (d_hv st) 0 = total_growth g"
    "fits_at hyp domid os (d_hv st) (Suc k) = fits_at hyp domid os hv k"
    "growth_at hyp domid os (d_hv st) (Suc k) = growth_at hyp domid os hv k" for k
    by (simp_all add: fits_at_def growth_at_def answers_at_simps a)
  show ?case
  proof (cases "d_flag st \<and> 800 < total_growth g")
    case True
    then have "diff_loop past hyp domid os tot (Suc n) st = Some ?t"
      using d Suc.prems by (simp add: TIMES_def Let_def)
    then show ?thesis using True d by (simp add: find_upt_Suc at del: upt_Suc diff_loop.simps)
  next
    case False
    then have "diff_loop past hyp domid os tot (Suc n) st = diff_loop past hyp domid os tot n (?t\<lparr>d_flag := True\<rparr>)" "d_times ?t = 0"
      using d Suc.prems by (auto simp: TIMES_def Let_def)
    then show ?thesis
      using Suc.IH [of "?t\<lparr>d_flag := True\<rparr>"] False d
      by (cases "d_flag st"; simp add: find_upt_Suc at option.map_comp comp_def ex_le_Suc disj_assoc del: upt_Suc diff_loop.simps)
  qed
qed

text \<open>C28: Once it has its memory and the hypervisor, \<^verbatim>\<open>swap_calculate.c\<close> of \<^verbatim>\<open>swap_diff\<close> runs to the first round in
  which the directories whose pages were swapped before the pause have together more than 800 further pages swapped
  after it, reports a bottleneck there and ends; growth in the very first round is never reported, and where there is no
  such round the loop does not end. This is for runs in which the hypervisor's count of page directories fits
  the buffer in every round. Where it does not, the code reads behind its buffer and goes on, which is undefined: the
  flag of the result is set in exactly these cases, and nothing is claimed of them but that.\<close>

theorem swap_diff_reports:
  assumes "\<And>bytes. mem_ok bytes" "privcmd"
    and "hyp hv (swap_call domid (scast os) 0 13) [] = (ret, buf, hv1)" "ret \<noteq> -1"
  shows "map_option (\<lambda>(reported, undefined_behaviour, _). (reported, undefined_behaviour))
      (swap_diff_main past hyp rounds mem_ok privcmd domid mem os hv) =
    map_option (\<lambda>k. (True, \<exists>j\<le>k. \<not> fits_at hyp domid os hv1 j))
      (find (\<lambda>k. 0 < k \<and> 800 < growth_at hyp domid os hv1 k) [0..<rounds])"
proof -
  let ?st = "\<lparr>d_hv = hv1, d_all_cr3 = replicate (unat (mem * 256 + 1024)) 0,
    d_answer_cr3 = replicate RECENT_WALK_SIZE 0, d_times = 0, d_flag = False, d_bad = False\<rparr>"
  have "map_option (\<lambda>(reported, undefined_behaviour, _). (reported, undefined_behaviour))
        (swap_diff_main past hyp rounds mem_ok privcmd domid mem os hv)
      = map_option (Pair True) (map_option d_bad (diff_loop past hyp domid os (mem * 256 + 1024) rounds ?st))"
    using assms by (auto simp: swap_diff_main_def Let_def option.map_comp split: prod.splits option.split)
  then show ?thesis by (simp add: diff_loop_reports option.map_comp comp_def)
qed

text \<open>A guest with one page directory, whose count of swapped pages grows by 1000 with every call.\<close>

definition growing_swap :: "u64 hypervisor" where
  "growing_swap n call buf = (if call_op call = 7 then (0, [1, 0x1000], n)
     else if call_op call = 12 then (0, (n + 1000) # replicate 9 0, n + 1000) else (0, buf, n))"

lemma growing_swap_answers:
  "round_answers growing_swap domid os n = ((True, (n + 1000) # replicate 9 0, (n + 2000) # replicate 9 0), n + 2000)"
  by (simp add: round_answers_def growing_swap_def swap_call_def RECENT_CR3_SIZE_def RECENT_WALK_SIZE_def Let_def)

lemma growing_swap_13: "growing_swap n (swap_call domid os mfn 13) buf = (0, buf, n)"
  by (simp add: growing_swap_def swap_call_def)

lemma total_growth_one:
  "total_growth (a # replicate 9 0, b # replicate 9 0) = (if 0 < a \<and> a < b then b - a else 0)"
proof -
  have "(\<Sum>i<Suc 9. f i) = f 0 + (\<Sum>i<9. f (Suc i))" for f :: "nat \<Rightarrow> u64" by (rule sum.lessThan_Suc_shift)
  then show ?thesis by (simp add: total_growth_def)
qed

theorem swap_diff_reports_witness:
  "map_option (\<lambda>(reported, undefined_behaviour, _). (reported, undefined_behaviour))
    (swap_diff_main (\<lambda>_. 0) growing_swap 9 (\<lambda>_. True) True 1 512 64 0) = Some (True, False)"
proof -
  let ?ans = "\<lambda>k. answers_at growing_swap 1 64 k 0"
  have a: "?ans 0 = (True, 1000 # replicate 9 0, 2000 # replicate 9 0)"
    "?ans (Suc 0) = (True, 3000 # replicate 9 0, 4000 # replicate 9 0)"
    by (simp_all add: answers_at_simps growing_swap_answers)
  then have g: "800 < growth_at growing_swap 1 64 0 (Suc 0)"
    by (simp add: growth_at_def total_growth_one)
  have n: "(9::nat) = Suc (Suc 7)" by simp
  have f: "find (\<lambda>k. 0 < k \<and> 800 < growth_at growing_swap 1 64 0 k) [0..<9] = Some (Suc 0)"
    unfolding n by (simp only: find_upt_Suc g) simp
  have "(\<exists>j\<le>Suc 0. \<not> fits_at growing_swap 1 64 0 j) = False"
    using a by (simp add: fits_at_def ex_le_Suc)
  then show ?thesis
    by (subst swap_diff_reports [of "\<lambda>_. True" True growing_swap 0 1 64 0 "[]" 0]) (simp_all add: f growing_swap_13 del: upt_rec_numeral)
qed

end
