(* ===== verification/Config_File.thy ===== *)
theory Config_File
  imports Core_Init
begin

text \<open>
  \<^verbatim>\<open>read_config_file\<close> of \<^verbatim>\<open>core.c\<close> with the scanner and the parser of the configuration file: what the two
  kinds of block do to the instance.
\<close>

unbundle bit_operations_syntax

subsection \<open>A configuration text\<close>

definition linux_items :: "string \<Rightarrow> nat \<Rightarrow> nat \<Rightarrow> nat \<Rightarrow> nat \<Rightarrow> nat \<Rightarrow> conf_item list" where
  "linux_items smap tasks mm pid pgd nm = [Ostype_item ''Linux'', Sysmap_item smap, Num_item LINUX_TASKS (dec_nat tasks),
     Num_item LINUX_MM (dec_nat mm), Num_item LINUX_PID (dec_nat pid), Num_item LINUX_PGD (dec_nat pgd),
     Num_item LINUX_NAME (dec_nat nm)]"

definition windows_items :: "string \<Rightarrow> nat \<Rightarrow> nat \<Rightarrow> nat \<Rightarrow> nat \<Rightarrow> nat \<Rightarrow> nat \<Rightarrow> nat \<Rightarrow> conf_item list" where
  "windows_items smap nt tasks pdbase pid pname kdvb sp = [Ostype_item ''Windows'', Sysmap_item smap,
     Num_item WIN_NTOSKRNL (dec_nat nt), Num_item WIN_TASKS (dec_nat tasks), Num_item WIN_PDBASE (dec_nat pdbase),
     Num_item WIN_PID (dec_nat pid), Num_item WIN_PNAME (dec_nat pname), Num_item WIN_KDVB (dec_nat kdvb),
     Num_item WIN_SYSPROC (dec_nat sp)]"

definition conf_text :: "string \<Rightarrow> conf_item list \<Rightarrow> string" where
  "conf_text name items = print_tokens (block_tokens (name, items))"

lemma conf_text_nonempty: "conf_text name items \<noteq> []"
  by (simp add: conf_text_def print_tokens_def spell_def block_tokens_def)

lemma vmi_parse_conf_text:
  assumes "list_all item_ok items" "\<forall>i \<in> set items. \<forall>t \<in> set (item_tokens i). token_ok t"
    and "token_ok (WORD name)" "length name < CONFIG_STR_LENGTH"
  shows "vmi_parse_config (conf_text name items) name = Some (block_entry (name, items))"
proof -
  have "\<forall>t \<in> set (concat (map block_tokens [(name, items)])). token_ok t"
    using assms(2,3) by (auto simp: block_tokens_def items_tokens_def token_ok_sign)
  then show ?thesis
    using vmi_parse_config_print [of "[(name, items)]" name] assms(1,4)
    by (simp add: conf_text_def block_ok_def configuration_def named_def conf_str_short strncmp_short)
qed

lemma token_ok_items:
  assumes "token_ok (FILENAME smap)"
  shows "\<forall>i \<in> set (linux_items smap tasks mm pid pgd nm). \<forall>t \<in> set (item_tokens i). token_ok t"
    "\<forall>i \<in> set (windows_items smap nt tasks pdbase pid pname kdvb sp). \<forall>t \<in> set (item_tokens i). token_ok t"
proof -
  have "token_ok (WORD ''Linux'')" "token_ok (WORD ''Windows'')" by code_simp+
  moreover have "\<forall>t \<in> snd ` set lex_keywords. token_ok t" using token_ok_keyword by auto
  ultimately show "\<forall>i \<in> set (linux_items smap tasks mm pid pgd nm). \<forall>t \<in> set (item_tokens i). token_ok t"
    "\<forall>i \<in> set (windows_items smap nt tasks pdbase pid pname kdvb sp). \<forall>t \<in> set (item_tokens i). token_ok t"
    using assms by (simp_all add: linux_items_def windows_items_def token_ok_sign token_ok_dec_nat lex_keywords_def)
qed

lemma ucast_strtol0:
  assumes "n < 2 ^ 31"
  shows "(ucast (strtol0 (dec_nat n)) :: cint) = of_nat n"
proof -
  have "(ucast (of_nat n :: u64) :: cint) = of_nat n"
    by (rule word_unat_eq_iff [THEN iffD2]) (use assms in \<open>simp add: unsigned_ucast_eq unat_of_nat take_bit_nat_eq_self\<close>)
  then show ?thesis using assms by (simp add: strtol0_dec_nat)
qed

lemma halves: "push_bit 32 (ucast (ucast (drop_bit 32 v) :: u32)) + ucast (ucast v :: u32) = (v :: u64)"
proof -
  have "(ucast (ucast v :: u32) :: u64) = take_bit 32 v" "(ucast (ucast (drop_bit 32 v) :: u32) :: u64) = drop_bit 32 v"
    by (rule bit_word_eqI; auto simp: bit_simps dest: bit_imp_le_length)+
  then show ?thesis using bits_ident [of 32 v] by simp
qed

lemma zero_record: "zero_entry = \<lparr>ce_domain_name = [], ce_sysmap = [], ce_ostype = [], ce_offsets = [0, 0, 0, 0, 0, 0, 0, 0, 0, 0, 0, 0]\<rparr>"
  by (simp add: zero_entry_def eval_nat_numeral)

lemma item_effect_record:
  "set_int i str \<lparr>ce_domain_name = d, ce_sysmap = m, ce_ostype = os, ce_offsets = u\<rparr> =
    \<lparr>ce_domain_name = d, ce_sysmap = m, ce_ostype = os, ce_offsets = u[i := ucast (strtol0 str)]\<rparr>"
  "set_uint64 i str \<lparr>ce_domain_name = d, ce_sysmap = m, ce_ostype = os, ce_offsets = u\<rparr> =
    \<lparr>ce_domain_name = d, ce_sysmap = m, ce_ostype = os,
     ce_offsets = u[i := ucast (strtoull0 str), Suc i := ucast (drop_bit 32 (strtoull0 str))]\<rparr>"
  by (simp_all add: set_int_def set_uint64_def Let_def)

lemma conf_str_literals: "conf_str ''Linux'' = ''Linux''" "conf_str ''Windows'' = ''Windows''"
  by (simp_all add: conf_str_short CONFIG_STR_LENGTH_def)

text \<open>C23: What a Linux block gives, read back from its text: the offsets, printed in decimal, replace those of the
instance unless they are zero, and the symbol file and the kind of system are set; nothing else changes.\<close>

theorem read_config_file_linux:
  assumes "configstr s = Some (conf_text name (linux_items smap tasks mm pid pgd nm))" "image_type s = Some name"
    and "token_ok (WORD name)" "token_ok (FILENAME smap)" "length name < CONFIG_STR_LENGTH" "length smap < CONFIG_STR_LENGTH"
    and "tasks < 2 ^ 31" "mm < 2 ^ 31" "pid < 2 ^ 31" "pgd < 2 ^ 31" "nm < 2 ^ 31"
  shows "run_state (read_config_file E) s = (VMI_SUCCESS, s\<lparr>sysmap := Some smap, os_type := VMI_OS_LINUX,
    linux_os := (linux_os s)\<lparr>linux_tasks_offset := offset_or (of_nat tasks) (linux_tasks_offset (linux_os s)),
      linux_mm_offset := offset_or (of_nat mm) (linux_mm_offset (linux_os s)),
      linux_pid_offset := offset_or (of_nat pid) (linux_pid_offset (linux_os s)),
      linux_name_offset := offset_or (of_nat nm) (linux_name_offset (linux_os s)),
      linux_pgd_offset := offset_or (of_nat pgd) (linux_pgd_offset (linux_os s))\<rparr>\<rparr>)"
proof -
  let ?items = "linux_items smap tasks mm pid pgd nm"
  have e: "block_entry (name, ?items) = \<lparr>ce_domain_name = name, ce_sysmap = smap, ce_ostype = ''Linux'',
    ce_offsets = [of_nat tasks, of_nat mm, of_nat pid, of_nat pgd, 0, of_nat nm, 0, 0, 0, 0, 0, 0]\<rparr>"
    using assms(5-)
    by (simp add: block_entry_def linux_items_def num_action_def item_effect_record zero_record ucast_strtol0 conf_str_short
      conf_str_literals)
  have "vmi_parse_config (conf_text name ?items) name = Some (block_entry (name, ?items))"
    by (rule vmi_parse_conf_text [OF _ token_ok_items(1) [OF assms(4)] assms(3,5)]) (simp add: linux_items_def num_action_def)
  then show ?thesis
    using assms(1,2) conf_text_nonempty [of name ?items]
    by (simp add: read_config_file_def config_text_def e strncmp_short CONFIG_STR_LENGTH_def copy_linux_offsets_def
      ce_linux_offsets_def Let_def)
qed

lemma read_config_file_linux_witness:
  "run_state (read_config_file bare_env) (zeroed_vmi\<lparr>configstr := Some (conf_text ''Web'' (linux_items ''/boot/map'' 130 154 192 36 0)),
      image_type := Some ''Web''\<rparr>)
    = (VMI_SUCCESS, zeroed_vmi\<lparr>configstr := Some (conf_text ''Web'' (linux_items ''/boot/map'' 130 154 192 36 0)),
      image_type := Some ''Web'', sysmap := Some ''/boot/map'', os_type := VMI_OS_LINUX,
      linux_os := \<lparr>linux_tasks_offset = 130, linux_mm_offset = 154, linux_pid_offset = 192, linux_pgd_offset = 36,
        linux_name_offset = 0\<rparr>\<rparr>)"
proof -
  have "token_ok (WORD ''Web'')" "token_ok (FILENAME ''/boot/map'')" by code_simp+
  then show ?thesis
    by (subst read_config_file_linux [where name = "''Web''" and smap = "''/boot/map''" and tasks = 130 and mm = 154 and pid = 192 and pgd = 36 and nm = 0])
      (simp_all add: CONFIG_STR_LENGTH_def zeroed_vmi_def offset_or_def)
qed

text \<open>C24: What a Windows block gives, read back from its text: the numbers, printed in decimal, replace those of the
instance unless they are zero. The last two are addresses of 64 bits, which the entry holds in the halves
of its storage.\<close>

theorem read_config_file_windows:
  assumes "configstr s = Some (conf_text name (windows_items smap nt tasks pdbase pid pname kdvb sp))" "image_type s = Some name"
    and "token_ok (WORD name)" "token_ok (FILENAME smap)" "length name < CONFIG_STR_LENGTH" "length smap < CONFIG_STR_LENGTH"
    and "nt < 2 ^ 31" "tasks < 2 ^ 31" "pdbase < 2 ^ 31" "pid < 2 ^ 31" "pname < 2 ^ 31" "kdvb < 2 ^ 64" "sp < 2 ^ 64"
  shows "run_state (read_config_file E) s = (VMI_SUCCESS, s\<lparr>sysmap := Some smap, os_type := VMI_OS_WINDOWS,
    windows_os := (windows_os s)\<lparr>ntoskrnl := offset_or (of_nat nt) (ntoskrnl (windows_os s)),
      win_tasks_offset := offset_or (of_nat tasks) (win_tasks_offset (windows_os s)),
      win_pdbase_offset := offset_or (of_nat pdbase) (win_pdbase_offset (windows_os s)),
      win_pid_offset := offset_or (of_nat pid) (win_pid_offset (windows_os s)),
      win_pname_offset := offset_or (of_nat pname) (win_pname_offset (windows_os s)),
      kdversion_block := offset_or (of_nat kdvb) (kdversion_block (windows_os s)),
      sysproc := offset_or (of_nat sp) (sysproc (windows_os s))\<rparr>\<rparr>)"
proof -
  let ?items = "windows_items smap nt tasks pdbase pid pname kdvb sp"
  let ?k = "of_nat kdvb :: u64" and ?p = "of_nat sp :: u64"
  have e: "block_entry (name, ?items) = \<lparr>ce_domain_name = name, ce_sysmap = smap, ce_ostype = ''Windows'',
    ce_offsets = [of_nat nt, of_nat tasks, of_nat pdbase, of_nat pid, 0, 0, 0, of_nat pname,
      ucast ?k, ucast (drop_bit 32 ?k), ucast ?p, ucast (drop_bit 32 ?p)]\<rparr>"
    using assms(5-)
    by (simp add: block_entry_def windows_items_def num_action_def item_effect_record zero_record ucast_strtol0 strtoull0_dec_nat
      conf_str_short conf_str_literals)
  have nt: "(scast (of_nat nt :: cint) :: u64) = of_nat nt"
    by (rule scast_of_nat_small [OF assms(7)])
  have "vmi_parse_config (conf_text name ?items) name = Some (block_entry (name, ?items))"
    by (rule vmi_parse_conf_text [OF _ token_ok_items(2) [OF assms(4)] assms(3,5)]) (simp add: windows_items_def num_action_def)
  then show ?thesis
    using assms(1,2) conf_text_nonempty [of name ?items]
    by (simp add: read_config_file_def config_text_def e strncmp_short CONFIG_STR_LENGTH_def copy_windows_offsets_def
      ce_windows_offsets_def Let_def halves nt)
qed
lemma read_config_file_windows_witness:
  "run_state (read_config_file bare_env) (zeroed_vmi\<lparr>configstr := Some (conf_text ''XP''
      (windows_items ''/boot/map'' 0 0x88 0x18 0x84 0x174 0xfffff80002a4e068 0)), image_type := Some ''XP''\<rparr>)
    = (VMI_SUCCESS, zeroed_vmi\<lparr>configstr := Some (conf_text ''XP''
      (windows_items ''/boot/map'' 0 0x88 0x18 0x84 0x174 0xfffff80002a4e068 0)), image_type := Some ''XP'',
      sysmap := Some ''/boot/map'', os_type := VMI_OS_WINDOWS,
      windows_os := (windows_os zeroed_vmi)\<lparr>win_tasks_offset := 0x88, win_pdbase_offset := 0x18,
        win_pid_offset := 0x84, win_pname_offset := 0x174, kdversion_block := 0xfffff80002a4e068\<rparr>\<rparr>)"
proof -
  have "token_ok (WORD ''XP'')" "token_ok (FILENAME ''/boot/map'')" by code_simp+
  then show ?thesis
    by (subst read_config_file_windows [where name = "''XP''" and smap = "''/boot/map''" and nt = 0 and tasks = "0x88"
        and pdbase = "0x18" and pid = "0x84" and pname = "0x174" and kdvb = "0xfffff80002a4e068" and sp = 0])
      (simp_all add: CONFIG_STR_LENGTH_def zeroed_vmi_def offset_or_def)
qed

end
