(* ===== verification/C_Format.thy ===== *)
theory C_Format
  imports C_Strings
begin

text \<open>
  Hexadecimal output of \<open>printf\<close>, and the functions of the C library that search and read it again.
\<close>

subsection \<open>Printing\<close>

definition hex_char :: "nat \<Rightarrow> char" where
  "hex_char d = char_of (if d < 10 then 48 + d else 87 + d)"

text \<open>\<open>%x\<close>: no leading zeros.\<close>

fun hex_nat :: "nat \<Rightarrow> string" where
  "hex_nat n = (if n < 16 then [hex_char n] else hex_nat (n div 16) @ [hex_char (n mod 16)])"

declare hex_nat.simps [simp del]

text \<open>A precision gives the least number of digits.\<close>

definition fmt_x :: "nat \<Rightarrow> nat \<Rightarrow> string" where
  "fmt_x precision n = (let s = hex_nat n in replicate (precision - length s) (CHR ''0'') @ s)"

subsection \<open>Searching and reading\<close>

definition c_tolower :: "char \<Rightarrow> char" where
  "c_tolower c = (let x = of_char c :: nat in if 65 \<le> x \<and> x \<le> 90 then char_of (x + 32) else c)"

text \<open>The rest of the string from the first occurrence of the other, whatever the case of the letters.\<close>

fun strcasestr :: "string \<Rightarrow> string \<Rightarrow> string option" where
  "strcasestr [] needle = (if needle = [] then Some [] else None)"
| "strcasestr (c # s) needle = (if map c_tolower (take (length needle) (c # s)) = map c_tolower needle
     then Some (c # s) else strcasestr s needle)"

text \<open>\<open>strtol\<close> and \<open>strtoll\<close> with base 16: values out of the range of 64 bits are clamped.\<close>

definition strtol16 :: "string \<Rightarrow> int" where
  "strtol16 s = (let (neg, r) = sign_split (dropWhile c_isspace s);
     n = int (digits_acc 16 0 (hex_prefix r)); v = (if neg then - n else n)
     in max (- (2 ^ 63)) (min (2 ^ 63 - 1) v))"

subsection \<open>Digits\<close>

definition is_hex :: "char \<Rightarrow> bool" where
  "is_hex c \<longleftrightarrow> digit_val 16 c \<noteq> None"

lemma digit_val_hex_char: "d < 16 \<Longrightarrow> digit_val 16 (hex_char d) = Some d"
  by (auto simp: digit_val_def hex_char_def Let_def)

lemma hex_char_cases:
  assumes "d < 16"
  shows "\<not> c_isspace (hex_char d) \<and> hex_char d \<noteq> CHR ''-'' \<and> hex_char d \<noteq> CHR ''+'' \<and> hex_char d \<noteq> CHR ''x''
    \<and> hex_char d \<noteq> CHR ''X'' \<and> hex_char d \<noteq> CHR 0x00"
proof -
  have "\<forall>d \<in> set [0..<16]. \<not> c_isspace (hex_char d) \<and> hex_char d \<noteq> CHR ''-'' \<and> hex_char d \<noteq> CHR ''+'' \<and> hex_char d \<noteq> CHR ''x''
    \<and> hex_char d \<noteq> CHR ''X'' \<and> hex_char d \<noteq> CHR 0x00" by code_simp
  then show ?thesis using assms by simp
qed

lemma set_hex_nat: "c \<in> set (hex_nat n) \<Longrightarrow> \<exists>d < 16. c = hex_char d"
proof (induction n rule: hex_nat.induct)
  case (1 n)
  show ?case
  proof (cases "n < 16 \<or> c \<notin> set (hex_nat (n div 16))")
    case True
    with "1.prems" have "c = hex_char (n mod 16)" by (auto simp: hex_nat.simps [of n] split: if_splits)
    then show ?thesis by (intro exI [of _ "n mod 16"]) simp
  next
    case False
    with "1.IH" show ?thesis by simp
  qed
qed

lemma set_fmt_x: "c \<in> set (fmt_x p n) \<Longrightarrow> \<exists>d < 16. c = hex_char d"
proof -
  assume c: "c \<in> set (fmt_x p n)"
  have "CHR ''0'' = hex_char 0" by code_simp
  then have "\<exists>d < 16. CHR ''0'' = hex_char d" by (intro exI [of _ 0]) simp
  then show ?thesis using c set_hex_nat [of c n] by (cases "c = CHR ''0''") (auto simp: fmt_x_def Let_def)
qed

lemma length_hex_nat: "n < 16 ^ k \<Longrightarrow> 0 < k \<Longrightarrow> length (hex_nat n) \<le> k"
proof (induction n arbitrary: k rule: hex_nat.induct)
  case (1 n)
  show ?case
  proof (cases "n < 16")
    case True
    then show ?thesis using "1.prems" by (simp add: hex_nat.simps [of n])
  next
    case False
    then obtain j where k: "k = Suc j" "0 < j" using "1.prems" by (cases k; cases "k - 1") auto
    then have "n div 16 < 16 ^ j" using "1.prems"(1) by (simp add: less_mult_imp_div_less mult.commute)
    then show ?thesis using "1.IH" [OF False, of j] k False by (simp add: hex_nat.simps [of n])
  qed
qed

lemma length_fmt_x: "n < 16 ^ p \<Longrightarrow> 0 < p \<Longrightarrow> length (fmt_x p n) = p"
  using length_hex_nat [of n p] by (simp add: fmt_x_def Let_def)

lemma digits_acc_stop:
  "(\<And>c. c \<in> set s \<Longrightarrow> is_hex c) \<Longrightarrow> r = [] \<or> \<not> is_hex (hd r) \<Longrightarrow> digits_acc 16 acc (s @ r) = digits_acc 16 acc s"
proof (induction s arbitrary: acc)
  case Nil
  then show ?case by (cases r) (auto simp: is_hex_def)
next
  case (Cons c s)
  from Cons.prems(1) [of c] obtain d where "digit_val 16 c = Some d" by (auto simp: is_hex_def)
  with Cons show ?case by simp
qed

lemma digits_acc_hex_nat: "digits_acc 16 0 (hex_nat n) = n"
proof (induction n rule: hex_nat.induct)
  case (1 n)
  show ?case
  proof (cases "n < 16")
    case True
    then show ?thesis by (simp add: hex_nat.simps [of n] digit_val_hex_char)
  next
    case False
    have "digit_val 16 c \<noteq> None" if "c \<in> set (hex_nat (n div 16))" for c
      using set_hex_nat [OF that] by (auto simp: digit_val_hex_char)
    note digits_acc_append_digit [OF this, of "hex_nat (n div 16)"]
    with False "1.IH" show ?thesis by (simp add: hex_nat.simps [of n] digit_val_hex_char)
  qed
qed

lemma digits_acc_zeros: "digits_acc 16 0 (replicate k (CHR ''0'') @ s) = digits_acc 16 0 s"
  by (induction k) (simp_all add: digit_val_def)

lemma digits_acc_fmt_x: "digits_acc 16 0 (fmt_x p n) = n"
  by (simp add: fmt_x_def Let_def digits_acc_zeros digits_acc_hex_nat)

lemma is_hex_fmt_x: "c \<in> set (fmt_x p n) \<Longrightarrow> is_hex c"
  using set_fmt_x [of c p n] by (auto simp: is_hex_def digit_val_hex_char)

lemma fmt_x_ne: "fmt_x p n \<noteq> []"
  by (simp add: fmt_x_def Let_def hex_nat.simps [of n])

text \<open>A printed number is read back, with or without \<open>0x\<close> before it, whatever follows that is no digit.\<close>

lemma strtol16_fmt_x:
  assumes "r = [] \<or> \<not> is_hex (hd r)" "r = [] \<or> hd r \<noteq> CHR ''x'' \<and> hd r \<noteq> CHR ''X''"
  shows "strtol16 (fmt_x p n @ r) = min (2 ^ 63 - 1) (int n)"
    and "strtol16 (''0x'' @ fmt_x p n @ r) = min (2 ^ 63 - 1) (int n)"
proof -
  obtain c s where f: "fmt_x p n = c # s" using fmt_x_ne by (cases "fmt_x p n") auto
  then obtain d where c: "c = hex_char d" "d < 16" using set_fmt_x [of c p n] by auto
  have v: "digits_acc 16 0 (fmt_x p n @ r) = n"
    using digits_acc_stop [where s = "fmt_x p n" and r = r and acc = 0, OF is_hex_fmt_x assms(1)] by (simp add: digits_acc_fmt_x)
  have sp: "dropWhile c_isspace (fmt_x p n @ r) = fmt_x p n @ r" "sign_split (fmt_x p n @ r) = (False, fmt_x p n @ r)"
    using hex_char_cases [OF c(2)] by (simp_all add: f c(1) sign_split_def)
  have hp: "hex_prefix (fmt_x p n @ r) = fmt_x p n @ r"
  proof (cases s)
    case Nil
    then show ?thesis using assms(2) by (auto simp: hex_prefix_def f split: list.split)
  next
    case (Cons b u)
    then obtain e where "b = hex_char e" "e < 16" using set_fmt_x [of b p n] f by auto
    then show ?thesis using hex_char_cases [of e] Cons by (auto simp: hex_prefix_def f split: list.split)
  qed
  show "strtol16 (fmt_x p n @ r) = min (2 ^ 63 - 1) (int n)"
    by (simp add: strtol16_def sp hp v max_def)
  have "hex_prefix (''0x'' @ fmt_x p n @ r) = fmt_x p n @ r"
    using c digit_val_hex_char [of d] by (simp add: hex_prefix_def f)
  then show "strtol16 (''0x'' @ fmt_x p n @ r) = min (2 ^ 63 - 1) (int n)"
    using v by (simp add: strtol16_def c_isspace_def sign_split_def max_def)
qed

subsection \<open>Where a string is found\<close>

lemma strcasestr_here: "strcasestr (needle @ s) needle = Some (needle @ s)"
  by (cases needle; cases s) simp_all

text \<open>
  Past a prefix whose last character is in no way part of the string that is looked for, and which is
  shorter than it.
\<close>

lemma strcasestr_skip:
  assumes "\<forall>d \<in> set needle. c_tolower d \<noteq> c_tolower c" "length pre < length needle"
  shows "strcasestr (pre @ c # s) needle = strcasestr s needle"
  using assms(2)
proof (induction pre)
  case Nil
  then obtain d n where "needle = d # n" by (cases needle) auto
  then show ?case using assms(1) by auto
next
  case (Cons p pre)
  let ?h = "p # pre @ c # s"
  have "map c_tolower (take (length needle) ?h) \<noteq> map c_tolower needle"
  proof
    assume eq: "map c_tolower (take (length needle) ?h) = map c_tolower needle"
    have i: "Suc (length pre) < length needle" using Cons.prems by simp
    have "take (length needle) ?h ! Suc (length pre) = c" using i by (simp add: nth_append)
    moreover have "Suc (length pre) < length (take (length needle) ?h)" using i by simp
    ultimately have "c_tolower c = c_tolower (needle ! Suc (length pre))"
      using arg_cong [OF eq, of "\<lambda>l. l ! Suc (length pre)"] i by simp
    then show False using assms(1) i by (metis nth_mem)
  qed
  then show ?case using Cons by simp
qed

subsection \<open>Texts of equal pieces\<close>

lemma drop_concat_map:
  assumes "\<And>k. length (f k) = w" "k < n"
  shows "drop (w * k) (concat (map f [0..<n]) @ r) = f k @ concat (map f [Suc k..<n]) @ r"
proof -
  have len: "length (concat (map f [0..<m])) = w * m" for m
    by (induction m) (simp_all add: assms(1))
  have "[0..<n] = [0..<k] @ k # [Suc k..<n]" using assms(2) upt_add_eq_append [of 0 k "n - k"] by (simp add: upt_conv_Cons)
  then show ?thesis by (simp add: len)
qed

end
