(* ===== verification/Kvm_Driver.thy ===== *)
theory Kvm_Driver
  imports Vmi_Instance C_Format
begin

text \<open>
  The part of \<^verbatim>\<open>driver/kvm.c\<close> that is compiled with \<open>ENABLE_KVM\<close>. This configuration of the library has the
  stubs of \<open>Drivers\<close> in its dispatch table instead; the driver is modelled here by itself, on the members of the
  instance that it uses. Its definitions have the prefix \<open>qemu\<close> where the C function has \<open>kvm\<close>.
\<close>

unbundle bit_operations_syntax

subsection \<open>The host\<close>

text \<open>
  libvirt, the shell, sockets and the allocator are parameters. A connection is always to the same hypervisor; a
  domain object is a number. \<open>popen\<close> is what the shell prints for a command, with the next state of the world,
  and \<open>None\<close> where the process cannot be started. A write to the socket returns the number of bytes it
  took, a read the bytes it gave, or \<open>None\<close> for an error.
\<close>

record 'q libvirt =
  vir_connect :: bool
  vir_lib_version :: bool
  vir_lookup_id :: "cint \<Rightarrow> nat option"
  vir_lookup_name :: "string \<Rightarrow> nat option"
  vir_get_id :: "nat \<Rightarrow> u32"
  vir_get_name :: "nat \<Rightarrow> string option"
  vir_max_mem :: "nat \<Rightarrow> u64 option"
  vir_suspend :: "nat \<Rightarrow> bool"
  vir_resume :: "nat \<Rightarrow> bool"
  popen :: "string \<Rightarrow> 'q \<Rightarrow> string option \<times> 'q"
  temp_name :: string
  sock_connect :: "string \<Rightarrow> cint option"
  sock_write :: "cint \<Rightarrow> u8 list \<Rightarrow> 'q \<Rightarrow> cint \<times> 'q"
  sock_read :: "cint \<Rightarrow> nat \<Rightarrow> 'q \<Rightarrow> u8 list option \<times> 'q"
  malloced :: "nat \<Rightarrow> u8"

record kvm_instance =
  kvm_conn :: bool
  kvm_dom :: "nat option"
  kvm_id :: u64
  kvm_name :: "string option"
  ds_path :: "string option"
  socket_fd :: cint

datatype kvm_memory = Patch | Native

text \<open>The instance as far as the driver goes; \<open>kvm_fault\<close> marks undefined behaviour.\<close>

record 'q kvm_vmi =
  kvminst :: kvm_instance
  kvm_page_mode :: page_mode_t
  kvm_hvm :: cint
  kvm_callback :: "kvm_memory option"
  kvm_age :: u32
  world :: 'q
  kvm_fault :: bool

type_synonym ('q, 'a) kvm = "('q kvm_vmi, 'a) state"

definition kvm_undefined :: "'a \<Rightarrow> ('q, 'a) kvm" where
  "kvm_undefined x = do { modify (\<lambda>s. s\<lparr>kvm_fault := True\<rparr>); return x }"

definition on_world :: "('q \<Rightarrow> 'a \<times> 'q) \<Rightarrow> ('q, 'a) kvm" where
  "on_world f = State (\<lambda>s. case f (world s) of (x, q) \<Rightarrow> (x, s\<lparr>world := q\<rparr>))"

definition upd_kvm :: "(kvm_instance \<Rightarrow> kvm_instance) \<Rightarrow> ('q, unit) kvm" where
  "upd_kvm f = modify (\<lambda>s. s\<lparr>kvminst := f (kvminst s)\<rparr>)"

subsection \<open>Commands to the monitor\<close>

definition QMP_OUTPUT :: nat where "QMP_OUTPUT = 20000"

text \<open>
  The output of a command is the buffer with the bytes that were read at its start; what lies behind them is
  what \<open>malloc\<close> found.
\<close>

definition exec_qmp_cmd :: "'q libvirt \<Rightarrow> string \<Rightarrow> ('q, string option) kvm" where
  "exec_qmp_cmd L query = do {
     k \<leftarrow> gets kvminst;
     (case Option.bind (kvm_dom k) (vir_get_name L) of
       None \<Rightarrow> kvm_undefined None
     | Some name \<Rightarrow> do {
         out \<leftarrow> on_world (popen L (''virsh qemu-monitor-command '' @ name @ '' '' @ query));
         (case out of
           None \<Rightarrow> return None
         | Some text \<Rightarrow> (let output = take QMP_OUTPUT text in
             if output = [] then return None
             else return (Some (output @ map (\<lambda>i. char_of (unat (malloced L i))) [length output..<QMP_OUTPUT])))) }) }"

definition quote :: string where "quote = [CHR 0x22]"

definition info_registers_query :: string where
  "info_registers_query = CHR 0x27 # ''{'' @ quote @ ''execute'' @ quote @ '': '' @ quote @ ''human-monitor-command'' @ quote
     @ '', '' @ quote @ ''arguments'' @ quote @ '': {'' @ quote @ ''command-line'' @ quote @ '': '' @ quote
     @ ''info registers'' @ quote @ ''}}'' @ [CHR 0x27]"

definition exec_info_registers :: "'q libvirt \<Rightarrow> ('q, string option) kvm" where
  "exec_info_registers L = exec_qmp_cmd L info_registers_query"

definition memory_access_query :: "string \<Rightarrow> string" where
  "memory_access_query path = CHR 0x27 # ''{'' @ quote @ ''execute'' @ quote @ '': '' @ quote @ ''pmemaccess'' @ quote
     @ '', '' @ quote @ ''arguments'' @ quote @ '': {'' @ quote @ ''path'' @ quote @ '': '' @ quote @ path @ quote @ ''}}''
     @ [CHR 0x27]"

text \<open>The query is printed into 256 bytes.\<close>

definition exec_memory_access :: "'q libvirt \<Rightarrow> ('q, string option) kvm" where
  "exec_memory_access L = (let query = memory_access_query (temp_name L) in
     if 256 \<le> length query then kvm_undefined None
     else do {
       upd_kvm (\<lambda>k. k\<lparr>ds_path := Some (temp_name L)\<rparr>);
       exec_qmp_cmd L query })"

text \<open>\<open>%x\<close> takes an \<open>unsigned int\<close>: of the 64-bit address it is given it prints the lower half.\<close>

definition xp_query :: "nat \<Rightarrow> addr_t \<Rightarrow> string" where
  "xp_query numwords paddr = CHR 0x27 # ''{'' @ quote @ ''execute'' @ quote @ '': '' @ quote @ ''human-monitor-command'' @ quote
     @ '', '' @ quote @ ''arguments'' @ quote @ '': {'' @ quote @ ''command-line'' @ quote @ '': '' @ quote
     @ ''xp /'' @ dec_nat numwords @ ''wx 0x'' @ fmt_x 1 (unat (ucast paddr :: u32)) @ quote @ ''}}'' @ [CHR 0x27]"

definition exec_xp :: "'q libvirt \<Rightarrow> nat \<Rightarrow> addr_t \<Rightarrow> ('q, string option) kvm" where
  "exec_xp L numwords paddr = exec_qmp_cmd L (xp_query numwords paddr)"

text \<open>
  The functions on strings need a terminating zero: \<open>str_at\<close> is the string at an index of a buffer, \<open>None\<close>
  where there is no zero behind it.
\<close>

definition str_at :: "string \<Rightarrow> nat \<Rightarrow> string option" where
  "str_at buf p = (if CHR 0x00 \<in> set (drop p buf) then Some (c_str (drop p buf)) else None)"

text \<open>The index of an occurrence in a buffer from an index on: the outer \<open>None\<close> is undefined behaviour.\<close>

definition search_from :: "string \<Rightarrow> nat \<Rightarrow> string \<Rightarrow> nat option option" where
  "search_from buf p needle = (case str_at buf p of None \<Rightarrow> None
     | Some s \<Rightarrow> Some (map_option (\<lambda>r. p + (length s - length r)) (strcasestr s needle)))"

definition parse_reg_value :: "string \<Rightarrow> string option \<Rightarrow> ('q, reg_t) kvm" where
  "parse_reg_value regname ir_output = (case ir_output of None \<Rightarrow> return 0
     | Some buf \<Rightarrow> (case search_from buf 0 regname of
         None \<Rightarrow> kvm_undefined 0
       | Some None \<Rightarrow> return 0
       | Some (Some p) \<Rightarrow> (case str_at buf (p + length regname + 1) of
           None \<Rightarrow> kvm_undefined 0
         | Some s \<Rightarrow> return (of_int (strtol16 s)))))"

definition exec_memory_access_success :: "string option \<Rightarrow> ('q, status_t) kvm" where
  "exec_memory_access_success status = (case status of None \<Rightarrow> return VMI_FAILURE
     | Some buf \<Rightarrow> (case search_from buf 0 ''CommandNotFound'' of
         None \<Rightarrow> kvm_undefined VMI_FAILURE
       | Some None \<Rightarrow> return VMI_SUCCESS
       | Some (Some _) \<Rightarrow> return VMI_FAILURE))"

subsection \<open>Memory by the patched QEMU\<close>

text \<open>\<open>struct request\<close>: a byte, seven bytes of padding and two 64-bit members.\<close>

definition request :: "'q libvirt \<Rightarrow> u8 \<Rightarrow> u64 \<Rightarrow> u64 \<Rightarrow> u8 list" where
  "request L ty address len = ty # map (malloced L) [0..<7] @ word_bytes address @ word_bytes len"

text \<open>The path is printed into \<open>sun_path\<close>, an array of 108 bytes.\<close>

definition init_domain_socket :: "'q libvirt \<Rightarrow> ('q, status_t) kvm" where
  "init_domain_socket L = do {
     k \<leftarrow> gets kvminst;
     (case ds_path k of
       None \<Rightarrow> kvm_undefined VMI_FAILURE
     | Some path \<Rightarrow> if 108 \<le> length path then kvm_undefined VMI_FAILURE
         else (case sock_connect L path of
           None \<Rightarrow> return VMI_FAILURE
         | Some fd \<Rightarrow> do { upd_kvm (\<lambda>k. k\<lparr>socket_fd := fd\<rparr>); return VMI_SUCCESS })) }"

definition destroy_domain_socket :: "'q libvirt \<Rightarrow> ('q, unit) kvm" where
  "destroy_domain_socket L = do {
     k \<leftarrow> gets kvminst;
     if socket_fd k \<noteq> 0 then do { _ \<leftarrow> on_world (sock_write L (socket_fd k) (request L 0 0 0)); return () }
     else return () }"

text \<open>
  The last byte of an answer says whether the read was possible; an answer in parts is a failure. The -1 of a
  failed \<open>read\<close> is compared as an unsigned number.
\<close>

definition kvm_get_memory_patch :: "'q libvirt \<Rightarrow> addr_t \<Rightarrow> u32 \<Rightarrow> ('q, u8 list option) kvm" where
  "kvm_get_memory_patch L paddr len = do {
     k \<leftarrow> gets kvminst;
     nbytes \<leftarrow> on_world (sock_write L (socket_fd k) (request L 1 paddr (ucast len)));
     if nbytes \<noteq> 24 then return None
     else do {
       buf \<leftarrow> on_world (sock_read L (socket_fd k) (unat (len + 1)));
       (case buf of None \<Rightarrow> if len + 1 = -1 then kvm_undefined None else return None
       | Some buf \<Rightarrow> if length buf \<noteq> unat (len + 1) then return None
           else if length buf \<le> unat len then kvm_undefined None
           else if buf ! unat len \<noteq> 0 then return (Some (take (unat len) buf)) else return None) } }"

definition kvm_put_memory :: "'q libvirt \<Rightarrow> addr_t \<Rightarrow> u32 \<Rightarrow> u8 list \<Rightarrow> ('q, status_t) kvm" where
  "kvm_put_memory L paddr len buf = do {
     k \<leftarrow> gets kvminst;
     nbytes \<leftarrow> on_world (sock_write L (socket_fd k) (request L 2 paddr (ucast len)));
     if nbytes \<noteq> 24 then return VMI_FAILURE
     else if length buf < unat len then kvm_undefined VMI_FAILURE
     else do {
       _ \<leftarrow> on_world (sock_write L (socket_fd k) (take (unat len) buf));
       status \<leftarrow> on_world (sock_read L (socket_fd k) 1);
       return (case status of Some (b # _) \<Rightarrow> if b = 0 then VMI_FAILURE else VMI_SUCCESS | _ \<Rightarrow> VMI_FAILURE) } }"

subsection \<open>Memory by the monitor's command xp\<close>

text \<open>
  The output has a line for four words. \<open>xp_words\<close> reads the words of a line into the buffer from an index
  on; the result is \<open>None\<close> where it reads or writes out of bounds.
\<close>

definition addr_text :: "addr_t \<Rightarrow> string" where
  "addr_text paddr = fmt_x 16 (unat (ucast paddr :: u32))"

fun xp_words :: "string \<Rightarrow> nat \<Rightarrow> nat \<Rightarrow> nat \<Rightarrow> u8 list \<Rightarrow> u8 list option" where
  "xp_words bufstr 0 ptr i buf = Some buf"
| "xp_words bufstr (Suc j) ptr i buf = (case str_at bufstr ptr of None \<Rightarrow> None
     | Some s \<Rightarrow> if length buf < i * 4 + 4 then None
       else xp_words bufstr j (ptr + 11) (Suc i)
         (take (i * 4) buf @ word_bytes (of_int (strtol16 s) :: u32) @ drop (i * 4 + 4) buf))"

function xp_loop :: "string \<Rightarrow> nat \<Rightarrow> addr_t \<Rightarrow> nat \<Rightarrow> nat option \<Rightarrow> u8 list \<Rightarrow> u8 list option" where
  "xp_loop bufstr numwords paddr i ptr buf = (case ptr of None \<Rightarrow> Some buf
   | Some p \<Rightarrow> if i < numwords then
       (let p = p + length (addr_text (paddr + of_nat (i * 4))) + 2 in
        case xp_words bufstr 4 p i buf of None \<Rightarrow> None
        | Some buf \<Rightarrow> (case search_from bufstr (p + 44) (addr_text (paddr + of_nat ((i + 4) * 4))) of None \<Rightarrow> None
          | Some ptr \<Rightarrow> xp_loop bufstr numwords paddr (i + 4) ptr buf))
     else Some buf)"
  by pat_completeness auto

termination
  by (relation "measure (\<lambda>(b, n, a, i, p, d). n - i)") auto

declare xp_loop.simps [simp del]

definition kvm_get_memory_native :: "'q libvirt \<Rightarrow> addr_t \<Rightarrow> u32 \<Rightarrow> ('q, u8 list option) kvm" where
  "kvm_get_memory_native L paddr len = do {
     let numwords = unat len div 4;
     let buf = map (malloced L) [0..<numwords * 4];
     bufstr \<leftarrow> exec_xp L numwords paddr;
     (case bufstr of None \<Rightarrow> kvm_undefined None
     | Some out \<Rightarrow> (case Option.bind (search_from out 0 (addr_text paddr)) (\<lambda>ptr. xp_loop out numwords paddr 0 ptr buf) of
         None \<Rightarrow> kvm_undefined None
       | Some data \<Rightarrow> return (Some data))) }"

subsection \<open>The functions of the dispatch table\<close>

definition qemu_init :: "'q libvirt \<Rightarrow> ('q, status_t) kvm" where
  "qemu_init L = do {
     k \<leftarrow> gets kvminst;
     if \<not> vir_connect L then return VMI_FAILURE
     else (case vir_lookup_id L (ucast (kvm_id k)) of None \<Rightarrow> return VMI_FAILURE
       | Some d \<Rightarrow> if \<not> vir_lib_version L then return VMI_FAILURE
         else do {
           upd_kvm (\<lambda>k. k\<lparr>kvm_conn := True, kvm_dom := Some d, socket_fd := 0\<rparr>);
           modify (\<lambda>s. s\<lparr>kvm_hvm := 1\<rparr>);
           status \<leftarrow> exec_memory_access L;
           st \<leftarrow> exec_memory_access_success status;
           if st = VMI_SUCCESS then do {
             modify (\<lambda>s. s\<lparr>kvm_callback := Some Patch, kvm_age := 1\<rparr>);
             init_domain_socket L }
           else do {
             modify (\<lambda>s. s\<lparr>kvm_callback := Some Native, kvm_age := 1\<rparr>);
             return VMI_SUCCESS } }) }"

text \<open>The objects are given back to libvirt, but the pointers to them stay.\<close>

definition qemu_destroy :: "'q libvirt \<Rightarrow> ('q, unit) kvm" where
  "qemu_destroy L = destroy_domain_socket L"

definition qemu_get_id_from_name :: "'q libvirt \<Rightarrow> string \<Rightarrow> u64" where
  "qemu_get_id_from_name L name = (if \<not> vir_connect L then -1
     else case vir_lookup_name L name of None \<Rightarrow> -1 | Some d \<Rightarrow> ucast (vir_get_id L d))"

definition qemu_get_id :: "('q, u64) kvm" where
  "qemu_get_id = gets (\<lambda>s. kvm_id (kvminst s))"

definition qemu_set_id :: "u64 \<Rightarrow> ('q, unit) kvm" where
  "qemu_set_id i = upd_kvm (\<lambda>k. k\<lparr>kvm_id := i\<rparr>)"

definition qemu_get_name :: "'q libvirt \<Rightarrow> string option \<Rightarrow> ('q, status_t \<times> string option) kvm" where
  "qemu_get_name L name = do {
     k \<leftarrow> gets kvminst;
     (case Option.bind (kvm_dom k) (vir_get_name L) of None \<Rightarrow> return (VMI_FAILURE, name)
     | Some n \<Rightarrow> return (VMI_SUCCESS, Some n)) }"

definition qemu_set_name :: "string \<Rightarrow> ('q, unit) kvm" where
  "qemu_set_name name = upd_kvm (\<lambda>k. k\<lparr>kvm_name := Some (strndup name 500)\<rparr>)"

definition qemu_get_memsize :: "'q libvirt \<Rightarrow> u64 \<Rightarrow> ('q, status_t \<times> u64) kvm" where
  "qemu_get_memsize L sz = do {
     k \<leftarrow> gets kvminst;
     (case Option.bind (kvm_dom k) (vir_max_mem L) of None \<Rightarrow> return (VMI_FAILURE, sz)
     | Some kb \<Rightarrow> return (VMI_SUCCESS, kb * 1024)) }"

text \<open>The names that the monitor gives the registers, in 64-bit and in other modes.\<close>

definition reg_name64 :: "registers_t \<Rightarrow> string option" where
  "reg_name64 reg = (case reg of
     RAX \<Rightarrow> Some ''RAX'' | RBX \<Rightarrow> Some ''RBX'' | RCX \<Rightarrow> Some ''RCX'' | RDX \<Rightarrow> Some ''RDX'' | RBP \<Rightarrow> Some ''RBP''
   | RSI \<Rightarrow> Some ''RSI'' | RDI \<Rightarrow> Some ''RDI'' | RSP \<Rightarrow> Some ''RSP'' | R8 \<Rightarrow> Some ''R8'' | R9 \<Rightarrow> Some ''R9''
   | R10 \<Rightarrow> Some ''R10'' | R11 \<Rightarrow> Some ''R11'' | R12 \<Rightarrow> Some ''R12'' | R13 \<Rightarrow> Some ''R13'' | R14 \<Rightarrow> Some ''R14''
   | R15 \<Rightarrow> Some ''R15'' | RIP \<Rightarrow> Some ''RIP'' | RFLAGS \<Rightarrow> Some ''RFL'' | CR0 \<Rightarrow> Some ''CR0'' | CR2 \<Rightarrow> Some ''CR2''
   | CR3 \<Rightarrow> Some ''CR3'' | CR4 \<Rightarrow> Some ''CR4'' | DR0 \<Rightarrow> Some ''DR0'' | DR1 \<Rightarrow> Some ''DR1'' | DR2 \<Rightarrow> Some ''DR2''
   | DR3 \<Rightarrow> Some ''DR3'' | DR6 \<Rightarrow> Some ''DR6'' | DR7 \<Rightarrow> Some ''DR7'' | MSR_EFER \<Rightarrow> Some ''EFER'' | _ \<Rightarrow> None)"

definition reg_name32 :: "registers_t \<Rightarrow> string option" where
  "reg_name32 reg = (case reg of
     RAX \<Rightarrow> Some ''EAX'' | RBX \<Rightarrow> Some ''EBX'' | RCX \<Rightarrow> Some ''ECX'' | RDX \<Rightarrow> Some ''EDX'' | RBP \<Rightarrow> Some ''EBP''
   | RSI \<Rightarrow> Some ''ESI'' | RDI \<Rightarrow> Some ''EDI'' | RSP \<Rightarrow> Some ''ESP'' | RIP \<Rightarrow> Some ''EIP'' | RFLAGS \<Rightarrow> Some ''EFL''
   | CR0 \<Rightarrow> Some ''CR0'' | CR2 \<Rightarrow> Some ''CR2'' | CR3 \<Rightarrow> Some ''CR3'' | CR4 \<Rightarrow> Some ''CR4'' | DR0 \<Rightarrow> Some ''DR0''
   | DR1 \<Rightarrow> Some ''DR1'' | DR2 \<Rightarrow> Some ''DR2'' | DR3 \<Rightarrow> Some ''DR3'' | DR6 \<Rightarrow> Some ''DR6'' | DR7 \<Rightarrow> Some ''DR7''
   | MSR_EFER \<Rightarrow> Some ''EFER'' | _ \<Rightarrow> None)"

text \<open>A command that has failed, or that prints no such register, gives 0 and success.\<close>

definition qemu_get_vcpureg :: "'q libvirt \<Rightarrow> reg_t \<Rightarrow> registers_t \<Rightarrow> u64 \<Rightarrow> ('q, status_t \<times> reg_t) kvm" where
  "qemu_get_vcpureg L v reg vcpu = do {
     regs \<leftarrow> exec_info_registers L;
     pm \<leftarrow> gets kvm_page_mode;
     (case (if pm = VMI_PM_IA32E then reg_name64 reg else reg_name32 reg) of
       None \<Rightarrow> return (VMI_FAILURE, v)
     | Some n \<Rightarrow> do { x \<leftarrow> parse_reg_value n regs; return (VMI_SUCCESS, x) }) }"

text \<open>\<open>read_page\<close> hands the address of the page to the page cache, which is the argument \<open>cache_insert\<close>.\<close>

definition qemu_read_page :: "(addr_t \<Rightarrow> ('q, u8 list option) kvm) \<Rightarrow> u32 \<Rightarrow> addr_t \<Rightarrow> ('q, u8 list option) kvm" where
  "qemu_read_page cache_insert shift page = cache_insert (push_bit (unat shift) page)"

definition qemu_write :: "'q libvirt \<Rightarrow> addr_t \<Rightarrow> u8 list \<Rightarrow> u32 \<Rightarrow> ('q, status_t) kvm" where
  "qemu_write L paddr buf len = kvm_put_memory L paddr len buf"

definition qemu_is_pv :: cint where "qemu_is_pv = 0"

definition qemu_test :: "'q libvirt \<Rightarrow> u64 \<Rightarrow> string \<Rightarrow> status_t" where
  "qemu_test L i name = (if \<not> vir_connect L \<or> vir_lookup_name L name = None then VMI_FAILURE else VMI_SUCCESS)"

definition qemu_pause_vm :: "'q libvirt \<Rightarrow> ('q, status_t) kvm" where
  "qemu_pause_vm L = do {
     k \<leftarrow> gets kvminst;
     return (case kvm_dom k of Some d \<Rightarrow> if vir_suspend L d then VMI_SUCCESS else VMI_FAILURE | None \<Rightarrow> VMI_FAILURE) }"

definition qemu_resume_vm :: "'q libvirt \<Rightarrow> ('q, status_t) kvm" where
  "qemu_resume_vm L = do {
     k \<leftarrow> gets kvminst;
     return (case kvm_dom k of Some d \<Rightarrow> if vir_resume L d then VMI_SUCCESS else VMI_FAILURE | None \<Rightarrow> VMI_FAILURE) }"

end
