(* ===== verification/Kvm_Reads.thy ===== *)
theory Kvm_Reads
  imports Kvm_Driver
begin

text \<open>
  What the KVM driver reads from the answers of the monitor: guest memory from the output of \<open>xp\<close> and
  registers from \<open>info registers\<close>.
\<close>

unbundle bit_operations_syntax

subsection \<open>Strings in the buffer of a command\<close>

text \<open>A buffer that holds a text and has a zero somewhere behind it.\<close>

definition holds_text :: "string \<Rightarrow> string \<Rightarrow> bool" where
  "holds_text buf t \<longleftrightarrow> CHR 0x00 \<notin> set t \<and> (\<exists>r. buf = t @ CHR 0x00 # r)"

lemma str_at_text:
  assumes "holds_text buf t" "p \<le> length t"
  shows "str_at buf p = Some (drop p t)"
proof -
  obtain r where r: "buf = t @ CHR 0x00 # r" "CHR 0x00 \<notin> set t" using assms(1) by (auto simp: holds_text_def)
  have "CHR 0x00 \<notin> set (drop p t)" using r(2) in_set_dropD by fastforce
  then have "takeWhile (\<lambda>c. c \<noteq> CHR 0x00) (drop p t @ CHR 0x00 # r) = drop p t"
    by (subst takeWhile_append2) auto
  then show ?thesis using r assms(2) by (simp add: str_at_def c_str_def)
qed

text \<open>The output of a command, with the bytes of \<open>malloc\<close> up to the first zero behind it.\<close>

lemma run_exec_qmp_cmd:
  assumes "Option.bind (kvm_dom (kvminst s)) (vir_get_name L) = Some name"
    and "popen L (''virsh qemu-monitor-command '' @ name @ '' '' @ query) (world s) = (Some out, q)"
    and "out \<noteq> []" "CHR 0x00 \<notin> set out" "length out \<le> z" "z < QMP_OUTPUT" "malloced L z = 0"
  obtains buf g where "run_state (exec_qmp_cmd L query) s = (Some buf, s\<lparr>world := q\<rparr>)" "holds_text buf (out @ g)"
proof -
  let ?m = "map (\<lambda>i. char_of (unat (malloced L i))) [length out..<QMP_OUTPUT]"
  have "z \<in> set [length out..<QMP_OUTPUT]" using assms(5,6) by simp
  then have "char_of (unat (malloced L z)) \<in> set ?m" unfolding set_map by (rule imageI)
  then have "CHR 0x00 \<in> set ?m" using assms(7) by (simp only: unsigned_0) (simp add: char_of_def)
  then obtain g r where g: "?m = g @ CHR 0x00 # r" "CHR 0x00 \<notin> set g" by (meson split_list_first)
  have "run_state (exec_qmp_cmd L query) s = (Some (out @ ?m), s\<lparr>world := q\<rparr>)"
    using assms(1-6) by (simp add: exec_qmp_cmd_def on_world_def Let_def)
  moreover have "holds_text (out @ ?m) (out @ g)" using assms(4) g by (auto simp: holds_text_def)
  ultimately show ?thesis by (rule that)
qed

lemma search_from_text:
  assumes "holds_text buf t" "p \<le> length t" "strcasestr (drop p t) needle = Some (drop (p + k) t)" "p + k \<le> length t"
  shows "search_from buf p needle = Some (Some (p + k))"
  using assms by (simp add: search_from_def str_at_text)

subsection \<open>Reading memory with xp\<close>

text \<open>
  What QEMU prints for \<open>xp /NUMwx ADDR\<close>, four words in a line, each line with its address; in the answer to
  the command the end of a line is escaped. \<open>mem\<close> is the guest's physical memory.
\<close>

definition xp_word :: "(u64 \<Rightarrow> u8) \<Rightarrow> u64 \<Rightarrow> u32" where
  "xp_word mem a = le_word (map (\<lambda>i. mem (a + of_nat i)) [0..<4])"

definition xp_line :: "(u64 \<Rightarrow> u8) \<Rightarrow> u64 \<Rightarrow> string" where
  "xp_line mem a = fmt_x 16 (unat a) @ '':'' @ concat (map (\<lambda>j. '' 0x'' @ fmt_x 8 (unat (xp_word mem (a + of_nat (4 * j))))) [0..<4])
     @ [CHR 0x5C, CHR ''r'', CHR 0x5C, CHR ''n'']"

definition xp_lines :: "(u64 \<Rightarrow> u8) \<Rightarrow> u64 \<Rightarrow> nat \<Rightarrow> string" where
  "xp_lines mem a n = concat (map (\<lambda>k. xp_line mem (a + of_nat (16 * k))) [0..<n])"

definition monitor_answer :: "string \<Rightarrow> string" where
  "monitor_answer t = ''{'' @ quote @ ''return'' @ quote @ '':'' @ quote @ t"

lemma length_fmt_word: "length (fmt_x 8 (unat (w :: u32))) = 8"
  using unat_lt_u32 [of w] by (intro length_fmt_x) simp_all

lemma length_fmt_addr: "length (fmt_x 16 (unat (w :: u64))) = 16"
  using unat_lt_u64 [of w] by (intro length_fmt_x) simp_all

lemma length_xp_line: "length (xp_line mem a) = 65"
  by (simp add: xp_line_def length_fmt_addr length_fmt_word upt_rec)

lemma strtol16_word:
  assumes "r = [] \<or> \<not> is_hex (hd r)" "r = [] \<or> hd r \<noteq> CHR ''x'' \<and> hd r \<noteq> CHR ''X''"
  shows "(of_int (strtol16 (''0x'' @ fmt_x 8 (unat (w :: u32)) @ r)) :: u32) = w"
proof -
  have "int (unat w) < int 4294967296" using unat_lt_u32 [of w] by (simp only: of_nat_less_iff)
  then have "int (unat w) \<le> 2 ^ 63 - 1" by simp
  then show ?thesis using strtol16_fmt_x(2) [OF assms, of 8 "unat w"] by (simp add: min_def)
qed

text \<open>
  The words of a line from an index of the text on, each with one character behind it that is no digit.
\<close>

fun words_at :: "string \<Rightarrow> u32 list \<Rightarrow> bool" where
  "words_at t [] = True"
| "words_at t (w # ws) = (\<exists>c r. t = ''0x'' @ fmt_x 8 (unat w) @ c # r \<and> \<not> is_hex c \<and> c \<noteq> CHR ''x'' \<and> c \<noteq> CHR ''X''
     \<and> words_at r ws)"

lemma xp_words_text:
  assumes "holds_text buf t" "words_at (drop p t) ws" "p \<le> length t" "length data = n" "4 * (i + length ws) \<le> n"
  shows "xp_words buf (length ws) p i data =
    Some (take (4 * i) data @ concat (map word_bytes ws) @ drop (4 * (i + length ws)) data)"
  using assms(2-)
proof (induction ws arbitrary: p i data)
  case Nil
  then show ?case by simp
next
  case (Cons w ws)
  let ?d = "take (i * 4) data @ word_bytes w @ drop (i * 4 + 4) data"
  from Cons.prems(1) obtain c r where r: "drop p t = ''0x'' @ fmt_x 8 (unat w) @ c # r" "\<not> is_hex c" "c \<noteq> CHR ''x''" "c \<noteq> CHR ''X''"
    "words_at r ws" by auto
  have len: "length (drop p t) = 11 + length r" by (simp add: r(1) length_fmt_word)
  have "drop 11 (drop p t) = r" by (simp add: r(1) length_fmt_word)
  then have d: "drop (p + 11) t = r" by (simp add: add.commute)
  have "xp_words buf (length (w # ws)) p i data = xp_words buf (length ws) (p + 11) (Suc i) ?d"
    using str_at_text [OF assms(1) Cons.prems(2)] strtol16_word [of "c # r" w] r Cons.prems(3,4) by simp
  also have "\<dots> = Some (take (4 * Suc i) ?d @ concat (map word_bytes ws) @ drop (4 * (Suc i + length ws)) ?d)"
    by (rule Cons.IH) (use r(5) d len Cons.prems in simp_all)
  finally show ?case using Cons.prems(3,4) by (simp add: min_def algebra_simps)
qed

lemma words_at_line:
  "words_at (drop 18 (xp_line mem a @ r)) (map (\<lambda>j. xp_word mem (a + of_nat (4 * j))) [0..<4])"
  by (simp add: xp_line_def length_fmt_addr upt_rec is_hex_def digit_val_def)

lemma xp_word_bytes: "concat (map word_bytes (map (\<lambda>j. xp_word mem (a + of_nat (4 * j))) [0..<4])) = map (\<lambda>i. mem (a + of_nat i)) [0..<16]"
proof -
  have w: "word_bytes (xp_word mem b) = map (\<lambda>i. mem (b + of_nat i)) [0..<4]" for b
  proof -
    let ?bs = "map (\<lambda>i. mem (b + of_nat i)) [0..<4]"
    have "unat (le_word ?bs :: u32) = le_nat ?bs" using le_nat_less [of ?bs] by (simp add: le_word_def unat_of_nat_small)
    then show ?thesis using le_bytes_le_nat [of ?bs] by (simp add: word_bytes_def xp_word_def)
  qed
  show ?thesis by (simp add: w upt_rec add.assoc)
qed

lemma drop_xp_lines:
  assumes "k < n"
  shows "\<exists>r. drop (length pre + 65 * k) (pre @ xp_lines mem a n @ rest) = xp_line mem (a + of_nat (16 * k)) @ r
    \<and> drop (length pre + 65 * Suc k) (pre @ xp_lines mem a n @ rest) = r"
proof -
  let ?t = "pre @ xp_lines mem a n @ rest" and ?f = "\<lambda>k. xp_line mem (a + of_nat (16 * k))"
  have d: "drop (length pre + 65 * k) ?t = ?f k @ concat (map ?f [Suc k..<n]) @ rest"
    using drop_concat_map [of ?f 65 k n rest, OF length_xp_line assms] by (simp add: xp_lines_def)
  have "length pre + 65 * Suc k = 65 + (length pre + 65 * k)" by simp
  then have "drop (length pre + 65 * Suc k) ?t = drop 65 (drop (length pre + 65 * k) ?t)" by (simp only: drop_drop)
  with d show ?thesis by (simp add: length_xp_line)
qed

lemma drop_line_62: "drop 62 (xp_line mem a @ r) = [CHR ''r'', CHR 0x5C] @ CHR ''n'' # r"
  by (simp add: xp_line_def length_fmt_addr length_fmt_word upt_rec)

lemma c_tolower_hex: "d < 16 \<Longrightarrow> c_tolower (hex_char d) \<noteq> CHR ''n'' \<and> c_tolower (hex_char d) \<noteq> CHR 0x22"
proof -
  assume d: "d < 16"
  then have "c_tolower (hex_char d) = hex_char d" by (auto simp: c_tolower_def hex_char_def Let_def)
  moreover have "\<forall>d \<in> set [0..<16]. hex_char d \<noteq> CHR ''n'' \<and> hex_char d \<noteq> CHR 0x22" by code_simp
  ultimately show ?thesis using d by simp
qed

lemma not_in_addr_text: "c = CHR ''n'' \<or> c = CHR 0x22 \<Longrightarrow> \<forall>d \<in> set (addr_text a). c_tolower d \<noteq> c_tolower c"
proof -
  have "c_tolower (CHR ''n'') = CHR ''n''" "c_tolower (CHR 0x22) = CHR 0x22" by (simp_all add: c_tolower_def)
  then show "c = CHR ''n'' \<or> c = CHR 0x22 \<Longrightarrow> ?thesis"
    using set_fmt_x c_tolower_hex unfolding addr_text_def by metis
qed

lemma length_addr_text: "length (addr_text a) = 16"
  unfolding addr_text_def using unat_lt_u32 [of "ucast a"] by (intro length_fmt_x) simp_all

text \<open>The address that the driver looks for is the one QEMU prints, as long as its lower half does not wrap.\<close>

lemma addr_text_line:
  assumes "unat (ucast paddr :: u32) + m < 2 ^ 32"
  shows "addr_text (paddr + of_nat m) = fmt_x 16 (unat (ucast (ucast paddr :: u32) + of_nat m :: u64))"
proof -
  let ?l = "ucast paddr :: u32"
  have mm: "(p mod 18446744073709551616 + x) mod 4294967296 = (p + x) mod (4294967296 :: int)" for p x
    by (rule mod_add_cong [OF mod_mod_cancel refl]) simp
  have "(ucast (paddr + of_nat m) :: u32) = ?l + of_nat m"
    by transfer (simp add: take_bit_eq_mod mm mod_mod_cancel)
  moreover have "unat (?l + of_nat m) = unat ?l + m" using assms by (simp add: unat_word_ariths unat_of_nat)
  moreover have "unat (ucast ?l + of_nat m :: u64) = unat ?l + m"
    using assms unat_ucast_u32 [of ?l] by (simp add: unat_word_ariths unat_of_nat)
  ultimately show ?thesis by (simp add: addr_text_def)
qed

lemma xp_line_step:
  assumes "holds_text buf t" "drop p t = xp_line mem a @ r" "length data = n" "4 * (i + 4) \<le> n"
  shows "xp_words buf 4 (p + 18) i data =
      Some (take (4 * i) data @ map (\<lambda>j. mem (a + of_nat j)) [0..<16] @ drop (4 * (i + 4)) data)"
    and "p + 62 \<le> length t"
proof -
  let ?ws = "map (\<lambda>j. xp_word mem (a + of_nat (4 * j))) [0..<4]"
  have "65 \<le> length (drop p t)" by (simp add: assms(2) length_xp_line)
  then show p: "p + 62 \<le> length t" by simp
  have "words_at (drop (p + 18) t) ?ws"
    using words_at_line [of mem a r] by (simp only: assms(2) [symmetric] drop_drop add.commute)
  from xp_words_text [OF assms(1) this, of data n i] p assms(3,4)
  show "xp_words buf 4 (p + 18) i data =
      Some (take (4 * i) data @ map (\<lambda>j. mem (a + of_nat j)) [0..<16] @ drop (4 * (i + 4)) data)"
    by (simp only: xp_word_bytes) simp
qed

lemma next_line:
  assumes "holds_text buf t" "drop p t = xp_line mem a @ addr_text b @ r"
  shows "search_from buf (p + 62) (addr_text b) = Some (Some (p + 65))"
proof -
  have "65 \<le> length (drop p t)" by (simp add: assms(2) length_xp_line)
  then have p: "p + 65 \<le> length t" by simp
  have "drop (p + 62) t = [CHR ''r'', CHR 0x5C] @ CHR ''n'' # addr_text b @ r"
    using drop_line_62 [of mem a "addr_text b @ r"] by (simp only: assms(2) [symmetric] drop_drop add.commute)
  moreover have "drop (p + 65) t = addr_text b @ r"
  proof -
    have "drop 65 (drop p t) = addr_text b @ r" by (simp add: assms(2) length_xp_line)
    then show ?thesis by (simp only: drop_drop add.commute)
  qed
  ultimately have "strcasestr (drop (p + 62) t) (addr_text b) = Some (drop (p + 62 + 3) t)"
    using strcasestr_skip [OF not_in_addr_text [of "CHR ''n''" b], of "[CHR ''r'', CHR 0x5C]" "addr_text b @ r"]
      strcasestr_here [of "addr_text b" r] by (simp add: length_addr_text add.commute)
  from search_from_text [OF assms(1) _ this] p show ?thesis by simp
qed

lemma search_from_defined:
  assumes "holds_text buf t" "p \<le> length t"
  obtains q where "search_from buf p needle = Some q"
  using assms by (simp add: search_from_def str_at_text)

lemma xp_loop_lines:
  fixes paddr :: addr_t
  defines "a \<equiv> ucast (ucast paddr :: u32)"
  assumes h: "holds_text buf (pre @ xp_lines mem a n @ rest)"
    and m: "unat (ucast paddr :: u32) + 16 * n \<le> 2 ^ 32"
    and "k \<le> n" "length data = 16 * n" "k < n \<longrightarrow> ptr = Some (length pre + 65 * k)"
  shows "xp_loop buf (4 * n) paddr (4 * k) ptr data = Some (take (16 * k) data @ map (\<lambda>i. mem (a + of_nat i)) [16 * k..<16 * n])"
  using assms(4-)
proof (induction "n - k" arbitrary: k data ptr)
  case 0
  then show ?case by (simp add: xp_loop.simps split: option.split)
next
  case (Suc d)
  let ?t = "pre @ xp_lines mem a n @ rest" and ?p = "length pre + 65 * k"
  let ?b = "paddr + of_nat (16 * Suc k)"
  let ?d = "take (16 * k) data @ map (\<lambda>j. mem (a + of_nat (16 * k) + of_nat j)) [0..<16] @ drop (16 * Suc k) data"
  have k: "k < n" "16 * Suc k \<le> 16 * n" using Suc.hyps(2) by simp_all
  from drop_xp_lines [OF k(1), of pre mem a rest] obtain r where
    r: "drop ?p ?t = xp_line mem (a + of_nat (16 * k)) @ r" "drop (length pre + 65 * Suc k) ?t = r" by blast
  note step = xp_line_step [OF h r(1), of data "16 * n" "4 * k"]
  have w: "xp_words buf 4 (?p + 18) (4 * k) data = Some ?d" using step(1) Suc.prems(2) k(2) by (simp add: algebra_simps)
  obtain q where q: "search_from buf (?p + 62) (addr_text ?b) = Some q" "Suc k < n \<longrightarrow> q = Some (?p + 65)"
  proof (cases "Suc k < n")
    case True
    from drop_xp_lines [OF True, of pre mem a rest] r(2) obtain r' where "r = xp_line mem (a + of_nat (16 * Suc k)) @ r'" by blast
    moreover have "fmt_x 16 (unat (a + of_nat (16 * Suc k))) = addr_text ?b"
      unfolding a_def by (rule addr_text_line [symmetric]) (use m True in simp)
    ultimately obtain r'' where "r = addr_text ?b @ r''" by (auto simp: xp_line_def simp del: of_nat_mult mult_Suc_right)
    with next_line [OF h, of ?p mem "a + of_nat (16 * k)" ?b r''] r(1) that show ?thesis by simp
  next
    case False
    have "?p + 62 \<le> length ?t" using step(2) Suc.prems(2) k(2) by simp
    from search_from_defined [OF h this, of "addr_text ?b"] obtain q where "search_from buf (?p + 62) (addr_text ?b) = Some q" .
    with that False show ?thesis by blast
  qed
  have ls: "length ?d = 16 * n" using Suc.prems(2) k(2) by simp
  have "xp_loop buf (4 * n) paddr (4 * k) ptr data = xp_loop buf (4 * n) paddr (4 * Suc k) q ?d"
    using Suc.prems(3) k(1) w q(1) by (subst xp_loop.simps) (simp add: length_addr_text Let_def add.commute)
  also have "\<dots> = Some (take (16 * Suc k) ?d @ map (\<lambda>i. mem (a + of_nat i)) [16 * Suc k..<16 * n])"
    by (rule Suc.hyps(1)) (use Suc.hyps(2) k ls q(2) in simp_all)
  also have "take (16 * Suc k) ?d = take (16 * k) data @ map (\<lambda>i. mem (a + of_nat i)) [16 * k..<16 * Suc k]"
  proof -
    have "map (\<lambda>j. mem (a + of_nat (16 * k) + of_nat j)) [0..<16] = map (\<lambda>i. mem (a + of_nat i)) [16 * k..<16 * Suc k]"
      by (rule nth_equalityI) (simp_all add: add.assoc)
    then show ?thesis using Suc.prems(2) k(2) by simp
  qed
  finally have e: "xp_loop buf (4 * n) paddr (4 * k) ptr data = Some ((take (16 * k) data @
      map (\<lambda>i. mem (a + of_nat i)) [16 * k..<16 * Suc k]) @ map (\<lambda>i. mem (a + of_nat i)) [16 * Suc k..<16 * n])" .
  have "[16 * k..<16 * n] = [16 * k..<16 * Suc k] @ [16 * Suc k..<16 * n]"
    using upt_add_eq_append [of "16 * k" "16 * Suc k" "16 * n - 16 * Suc k"] k(2) by simp
  with e show ?case by simp
qed

lemma xp_first:
  assumes "holds_text buf (monitor_answer (xp_lines mem (ucast (ucast paddr :: u32)) n @ rest))" "0 < n"
    and "t = monitor_answer []"
  shows "search_from buf 0 (addr_text paddr) = Some (Some (length t))"
proof -
  let ?a = "ucast (ucast paddr :: u32) :: u64"
  obtain r where "drop (length t) (t @ xp_lines mem ?a n @ rest) = xp_line mem ?a @ r"
    using drop_xp_lines [OF assms(2), of t mem ?a rest] by auto
  moreover have "addr_text paddr = fmt_x 16 (unat ?a)"
    using addr_text_line [of paddr 0] unat_lt_u32 [of "ucast paddr"] by simp
  ultimately obtain r' where r: "xp_lines mem ?a n @ rest = addr_text paddr @ r'" by (auto simp: xp_line_def)
  let ?pre = "''{'' @ quote @ ''return'' @ quote @ '':''"
  have ans: "monitor_answer s = ?pre @ CHR 0x22 # s" for s by (simp add: monitor_answer_def quote_def)
  have "strcasestr (monitor_answer (addr_text paddr @ r')) (addr_text paddr) = Some (addr_text paddr @ r')"
    unfolding ans using not_in_addr_text [of "CHR 0x22" paddr]
    by (subst strcasestr_skip) (simp_all add: length_addr_text quote_def strcasestr_here)
  moreover have "length t = 11" by (simp add: assms(3) monitor_answer_def quote_def)
  moreover have "drop 11 (monitor_answer s) = s" for s by (simp add: monitor_answer_def quote_def)
  ultimately show ?thesis using search_from_text [OF assms(1), of 0 "addr_text paddr" "length t"]
    by (simp add: r ans quote_def)
qed

definition xp_output :: "(u64 \<Rightarrow> u8) \<Rightarrow> u32 \<Rightarrow> nat \<Rightarrow> string" where
  "xp_output mem lo n = monitor_answer (xp_lines mem (ucast lo) n @ quote @ ''}'' @ [CHR 0x0D, CHR 0x0A])"

lemma no_zero_fmt_x: "CHR 0x00 \<notin> set (fmt_x p n)"
proof
  assume "CHR 0x00 \<in> set (fmt_x p n)"
  then obtain d where d: "d < 16" "CHR 0x00 = hex_char d" using set_fmt_x by blast
  show False using hex_char_cases [OF d(1)] unfolding d(2) [symmetric] by blast
qed

lemma no_zero_xp_line: "CHR 0x00 \<notin> set (xp_line mem a)"
  unfolding xp_line_def set_append set_concat set_map using no_zero_fmt_x by auto

lemma not_in_append3: "c \<notin> set x \<Longrightarrow> c \<notin> set y \<Longrightarrow> c \<notin> set z \<Longrightarrow> c \<notin> set (x @ y @ z)"
  by simp

lemma no_zero_xp_output: "CHR 0x00 \<notin> set (xp_output mem lo n)"
proof -
  have e: "xp_output mem lo n = monitor_answer [] @ xp_lines mem (ucast lo) n @ (quote @ ''}'' @ [CHR 0x0D, CHR 0x0A])"
    by (simp add: xp_output_def monitor_answer_def)
  have "CHR 0x00 \<notin> set (xp_lines mem (ucast lo) n)"
    unfolding xp_lines_def set_concat set_map using no_zero_xp_line by blast
  moreover have "CHR 0x00 \<notin> set (monitor_answer [])" "CHR 0x00 \<notin> set (quote @ ''}'' @ [CHR 0x0D, CHR 0x0A])" by code_simp+
  ultimately show ?thesis unfolding e by - (rule not_in_append3)
qed

text \<open>C17: Reading guest memory with the monitor's command \<open>xp\<close>. Where the monitor answers with the words of
  memory in lines of four, with the address before each line, and the buffer of the answer has a zero behind it, the
  driver's search for the addresses and its parse of the words give the bytes of guest memory in their order. The
  address is cut to its lower 32 bits on the way, so the bytes are those of the page below 4 GiB that agrees in
  these bits.\<close>

theorem kvm_get_memory_native_reads:
  assumes "Option.bind (kvm_dom (kvminst s)) (vir_get_name L) = Some name"
    and "popen L (''virsh qemu-monitor-command '' @ name @ '' '' @ xp_query (4 * n) paddr) (world s)
      = (Some (xp_output mem (ucast paddr) n), q)"
    and "unat len = 16 * n" "0 < n" "65 * n + 15 \<le> z" "z < QMP_OUTPUT" "malloced L z = 0"
    and "unat (ucast paddr :: u32) + 16 * n \<le> 2 ^ 32"
  shows "run_state (kvm_get_memory_native L paddr len) s =
    (Some (map (\<lambda>i. mem (ucast (ucast paddr :: u32) + of_nat i)) [0..<16 * n]), s\<lparr>world := q\<rparr>)"
proof -
  let ?a = "ucast (ucast paddr :: u32) :: u64" and ?t = "monitor_answer []"
  let ?rest = "quote @ ''}'' @ [CHR 0x0D, CHR 0x0A]" and ?out = "xp_output mem (ucast paddr) n"
  have out: "?out = ?t @ xp_lines mem ?a n @ ?rest" by (simp add: xp_output_def monitor_answer_def)
  have "length (xp_lines mem ?a n) = 65 * n"
    unfolding xp_lines_def by (induction n) (simp_all add: length_xp_line)
  then have "length ?out = 65 * n + 15" by (simp add: out monitor_answer_def quote_def)
  then have "?out \<noteq> []" "length ?out \<le> z" using assms(5) by auto
  from run_exec_qmp_cmd [OF assms(1,2) this(1) no_zero_xp_output this(2) assms(6,7)] obtain buf g where
    b: "run_state (exec_xp L (4 * n) paddr) s = (Some buf, s\<lparr>world := q\<rparr>)" "holds_text buf (?out @ g)"
    unfolding exec_xp_def by blast
  let ?buf = "map (malloced L) [0..<16 * n]"
  have h: "holds_text buf (?t @ xp_lines mem ?a n @ (?rest @ g))" using b(2) by (simp add: out)
  then have "search_from buf 0 (addr_text paddr) = Some (Some (length ?t))"
    by (intro xp_first [where mem = mem and n = n and rest = "?rest @ g"]) (use assms(4) in \<open>simp_all add: monitor_answer_def\<close>)
  moreover have "xp_loop buf (4 * n) paddr 0 (Some (length ?t)) ?buf = Some (map (\<lambda>i. mem (?a + of_nat i)) [0..<16 * n])"
    using xp_loop_lines [OF h assms(8), of 0 ?buf "Some (length ?t)"] by simp
  ultimately show ?thesis using b(1) assms(3)
    by (simp add: kvm_get_memory_native_def Let_def)
qed

definition sample_libvirt :: "(string \<Rightarrow> nat \<Rightarrow> string option \<times> nat) \<Rightarrow> nat libvirt" where
  "sample_libvirt out = \<lparr>vir_connect = True, vir_lib_version = True, vir_lookup_id = (\<lambda>i. Some 7), vir_lookup_name = (\<lambda>n. Some 7),
     vir_get_id = (\<lambda>d. 7), vir_get_name = (\<lambda>d. Some ''guest''), vir_max_mem = (\<lambda>d. Some 524288), vir_suspend = (\<lambda>d. True),
     vir_resume = (\<lambda>d. True), popen = out, temp_name = ''/tmp/vmi1'', sock_connect = (\<lambda>p. None),
     sock_write = (\<lambda>fd bs q. (-1, q)), sock_read = (\<lambda>fd n q. (None, q)), malloced = (\<lambda>i. 0)\<rparr>"

definition sample_kvm :: "nat kvm_vmi" where
  "sample_kvm = \<lparr>kvminst = \<lparr>kvm_conn = True, kvm_dom = Some 7, kvm_id = 7, kvm_name = None, ds_path = None, socket_fd = 0\<rparr>,
     kvm_page_mode = VMI_PM_IA32E, kvm_hvm = 1, kvm_callback = Some Native, kvm_age = 1, world = 0, kvm_fault = False\<rparr>"

lemma kvm_get_memory_native_reads_witness:
  "run_state (kvm_get_memory_native
      (sample_libvirt (\<lambda>cmd q. (if cmd = ''virsh qemu-monitor-command guest '' @ xp_query 4 0x1FFFFF000
        then Some (xp_output (\<lambda>a. ucast a + 1) 0xFFFFF000 1) else None, q))) 0x1FFFFF000 16) sample_kvm
    = (Some [1, 2, 3, 4, 5, 6, 7, 8, 9, 10, 11, 12, 13, 14, 15, 16], sample_kvm)"
proof -
  let ?L = "sample_libvirt (\<lambda>cmd q. (if cmd = ''virsh qemu-monitor-command guest '' @ xp_query 4 0x1FFFFF000
        then Some (xp_output (\<lambda>a. ucast a + 1) 0xFFFFF000 1) else None, q))"
  have lo: "ucast (0x1FFFFF000 :: u64) = (0xFFFFF000 :: u32)" by simp
  have p: "popen ?L (''virsh qemu-monitor-command '' @ ''guest'' @ '' '' @ xp_query (4 * 1) 0x1FFFFF000) (world sample_kvm) =
      (Some (xp_output (\<lambda>a. ucast a + 1) (ucast (0x1FFFFF000 :: u64)) 1), 0)"
    by (simp only: lo) (simp add: sample_libvirt_def sample_kvm_def)
  have "run_state (kvm_get_memory_native ?L 0x1FFFFF000 16) sample_kvm =
    (Some (map (\<lambda>i. ucast (ucast (ucast (0x1FFFFF000 :: u64) :: u32) + of_nat i :: u64) + 1) [0..<16 * 1]), sample_kvm\<lparr>world := 0\<rparr>)"
    by (rule kvm_get_memory_native_reads [where name = "''guest''" and mem = "\<lambda>a. ucast a + 1" and z = 80, OF _ p])
      (simp_all add: sample_libvirt_def sample_kvm_def lo QMP_OUTPUT_def)
  then show ?thesis by (simp add: sample_kvm_def upt_rec)
qed

subsection \<open>Registers\<close>

text \<open>The name that the driver looks for in the output of the monitor.\<close>

definition monitor_reg :: "page_mode_t \<Rightarrow> registers_t \<Rightarrow> string option" where
  "monitor_reg pm reg = (if pm = VMI_PM_IA32E then reg_name64 reg else reg_name32 reg)"

lemma run_qemu_get_vcpureg:
  assumes "monitor_reg (kvm_page_mode s) reg = Some n"
    and "run_state (exec_info_registers L) s = (Some buf, s\<lparr>world := q\<rparr>)" "holds_text buf t"
    and "strcasestr t n = Some (n @ c # r)"
  shows "run_state (qemu_get_vcpureg L v reg vcpu) s = ((VMI_SUCCESS, of_int (strtol16 r)), s\<lparr>world := q\<rparr>)"
proof -
  have "\<exists>p. t = p @ n @ c # r" using assms(4)
  proof (induction t)
    case Nil
    then show ?case by (auto split: if_splits)
  next
    case (Cons x t)
    show ?case
    proof (cases "x # t = n @ c # r")
      case False
      with Cons obtain p where "t = p @ n @ c # r" by (auto split: if_splits)
      then show ?thesis by (intro exI [of _ "x # p"]) simp
    qed (intro exI [of _ "[]"], simp)
  qed
  then obtain p where t: "t = p @ n @ c # r" by blast
  have f: "search_from buf 0 n = Some (Some (length p))"
    using search_from_text [OF assms(3), of 0 n "length p"] assms(4) t by simp
  have "str_at buf (length p + length n + 1) = Some r"
    using str_at_text [OF assms(3), of "length p + length n + 1"] t by simp
  with f assms(1,2) show ?thesis
    by (simp add: qemu_get_vcpureg_def parse_reg_value_def monitor_reg_def)
qed

lemma strcasestr_length: "strcasestr s n = Some t \<Longrightarrow> length n \<le> length t \<and> length t \<le> length s"
proof (induction s)
  case Nil
  then show ?case by (auto split: if_splits)
next
  case (Cons x s)
  show ?case
  proof (cases "map c_tolower (take (length n) (x # s)) = map c_tolower n")
    case True
    then have "length n \<le> length (x # s)" by (metis length_map length_take min.cobounded1)
    with True Cons.prems show ?thesis by auto
  next
    case False
    with Cons show ?thesis by auto
  qed
qed

lemma strcasestr_append: "strcasestr s n = Some t \<Longrightarrow> strcasestr (s @ g) n = Some (t @ g)"
proof (induction s)
  case Nil
  then have "n = []" "t = []" by (auto split: if_splits)
  then show ?case by (cases g) simp_all
next
  case (Cons x s)
  have "length n \<le> length (x # s)" using strcasestr_length [OF Cons.prems] by linarith
  then have "take (length n) ((x # s) @ g) = take (length n) (x # s)" by (subst take_append) simp
  then show ?case using Cons by (auto split: if_splits)
qed

text \<open>C32: Reading a register from the monitor's \<open>info registers\<close>. Where the first occurrence of the register's
  name is followed by an equals sign and 16 hexadecimal digits, the driver gives that value if it is below \<open>2^63\<close>; for
  a larger one, as every kernel address has it, \<open>strtoll\<close> clamps and the result is \<open>2^63 - 1\<close>.\<close>

theorem qemu_get_vcpureg_reads:
  assumes "Option.bind (kvm_dom (kvminst s)) (vir_get_name L) = Some name"
    and "popen L (''virsh qemu-monitor-command '' @ name @ '' '' @ info_registers_query) (world s) = (Some out, q)"
    and "CHR 0x00 \<notin> set out" "length out \<le> z" "z < QMP_OUTPUT" "malloced L z = 0"
    and "monitor_reg (kvm_page_mode s) reg = Some n"
    and "strcasestr out n = Some (n @ ''='' @ fmt_x 16 (unat x) @ c # r)" "\<not> is_hex c" "c \<noteq> CHR ''x''" "c \<noteq> CHR ''X''"
  shows "run_state (qemu_get_vcpureg L v reg vcpu) s =
    ((VMI_SUCCESS, if x < 0x8000000000000000 then x else 0x7FFFFFFFFFFFFFFF), s\<lparr>world := q\<rparr>)"
proof -
  have "out \<noteq> []" using strcasestr_length [OF assms(8)] by auto
  from run_exec_qmp_cmd [OF assms(1,2) this assms(3-6)] obtain buf g where
    b: "run_state (exec_info_registers L) s = (Some buf, s\<lparr>world := q\<rparr>)" "holds_text buf (out @ g)"
    unfolding exec_info_registers_def by blast
  have "strcasestr (out @ g) n = Some ((n @ ''='' @ fmt_x 16 (unat x) @ c # r) @ g)"
    using assms(8) by (rule strcasestr_append)
  then have f: "strcasestr (out @ g) n = Some (n @ CHR ''='' # fmt_x 16 (unat x) @ c # r @ g)" by simp
  have "strtol16 (fmt_x 16 (unat x) @ c # r @ g) = min (2 ^ 63 - 1) (int (unat x))"
    using strtol16_fmt_x(1) [of "c # r @ g" 16 "unat x"] assms(9-11) by simp
  moreover have "of_int (min (2 ^ 63 - 1) (int (unat x))) = (if x < 0x8000000000000000 then x else 0x7FFFFFFFFFFFFFFF)"
  proof (cases "unat x < 9223372036854775808")
    case True
    then have "int (unat x) < int 9223372036854775808" by (simp only: of_nat_less_iff)
    then have "min (2 ^ 63 - 1) (int (unat x)) = int (unat x)" by simp
    then show ?thesis using True by (simp add: word_less_nat_alt)
  next
    case False
    then have "int 9223372036854775808 \<le> int (unat x)" by (simp only: of_nat_le_iff not_less)
    then show ?thesis using False by (simp add: word_less_nat_alt min_def)
  qed
  ultimately show ?thesis using run_qemu_get_vcpureg [OF assms(7) b f] by simp
qed

lemma qemu_get_vcpureg_reads_witness:
  "run_state (qemu_get_vcpureg (sample_libvirt (\<lambda>cmd q. (if cmd = ''virsh qemu-monitor-command guest '' @ info_registers_query
        then Some ''RIP=ffffffff8100afe2 RFL=00000246 CR3=0000000001a05000 CR4='' else None, q))) 0 RIP 0) sample_kvm
    = ((VMI_SUCCESS, 0x7FFFFFFFFFFFFFFF), sample_kvm)"
proof -
  let ?out = "''RIP=ffffffff8100afe2 RFL=00000246 CR3=0000000001a05000 CR4=''"
  let ?L = "sample_libvirt (\<lambda>cmd q. (if cmd = ''virsh qemu-monitor-command guest '' @ info_registers_query then Some ?out else None, q))"
  have u: "fmt_x 16 (unat (0xffffffff8100afe2 :: u64)) = ''ffffffff8100afe2''"
    by (simp add: fmt_x_def hex_nat.simps Let_def hex_char_def char_of_def bit_0)
  have f: "strcasestr ?out ''RIP'' = Some (''RIP'' @ ''='' @ fmt_x 16 (unat (0xffffffff8100afe2 :: u64)) @ CHR '' ''
      # ''RFL=00000246 CR3=0000000001a05000 CR4='')" unfolding u by code_simp
  have c: "CHR 0x00 \<notin> set ?out" "\<not> is_hex (CHR '' '')" by code_simp+
  have "run_state (qemu_get_vcpureg ?L 0 RIP 0) sample_kvm =
      ((VMI_SUCCESS, if 0xffffffff8100afe2 < (0x8000000000000000 :: u64) then 0xffffffff8100afe2 else 0x7FFFFFFFFFFFFFFF), sample_kvm\<lparr>world := 0\<rparr>)"
    by (rule qemu_get_vcpureg_reads [where name = "''guest''" and out = ?out and z = 100, OF _ _ c(1) _ _ _ _ f c(2)])
      (simp_all add: sample_libvirt_def sample_kvm_def QMP_OUTPUT_def monitor_reg_def reg_name64_def)
  then show ?thesis by (simp add: sample_kvm_def)
qed

end
