(* ===== verification/Qemu_Access.thy ===== *)
theory Qemu_Access
  imports Kvm_Driver
begin

text \<open>
  The other end of the KVM driver's socket: \<^verbatim>\<open>memory-access.c\<close>, which
  \<^verbatim>\<open>tools/qemu-kvm-patch/kvm-physmem-access.patch\<close> adds to QEMU, and the driver's requests answered by it.
\<close>

unbundle bit_operations_syntax

subsection \<open>QEMU and the socket\<close>

text \<open>
  The thread's state: the guest's physical memory, the bytes that have arrived and the ones that have been sent,
  whether the loop has been left, and whether the process did something undefined. Once \<open>qfault\<close> is set nothing that
  the state says of later behaviour is a claim about QEMU.
\<close>

record qemu =
  guest :: "u64 \<Rightarrow> u8"
  inbox :: "u8 list"
  outbox :: "u8 list"
  quit :: bool
  qfault :: bool

text \<open>
  What the code takes from outside: \<open>cpu_map\<close> stands for \<open>cpu_physical_memory_map\<close>, the number of bytes that it maps
  of the range it is asked for, \<open>None\<close> where it gives no pointer. \<open>can_alloc\<close> says which sizes \<open>malloc\<close> grants,
  \<open>malloc_at\<close> the address it gives and \<open>found_byte\<close> what a new block holds; \<open>proc_mem\<close> is the memory of the process,
  \<open>None\<close> where reading it faults. \<open>transfer\<close> is the number of bytes that a \<open>read\<close> or a \<open>write\<close> of the socket is
  ready to move: a stream socket may move fewer than it is asked to, at either end and in every call.
\<close>

record qemu_host =
  cpu_map :: "u64 \<Rightarrow> u64 \<Rightarrow> bool \<Rightarrow> u64 option"
  can_alloc :: "u64 \<Rightarrow> bool"
  malloc_at :: "u64 \<Rightarrow> u64"
  found_byte :: "nat \<Rightarrow> u8"
  proc_mem :: "qemu \<Rightarrow> u64 \<Rightarrow> u8 option"
  transfer :: "qemu \<Rightarrow> nat \<Rightarrow> nat"

text \<open>A call that can move \<open>n\<close> bytes moves at least one of them, and never more.\<close>

definition moved :: "qemu_host \<Rightarrow> qemu \<Rightarrow> nat \<Rightarrow> nat" where
  "moved H q n = (if n = 0 then 0 else max 1 (min n (transfer H q n)))"

lemma moved_le: "moved H q n \<le> n"
  by (auto simp: moved_def)

lemma moved_pos: "0 < n \<Longrightarrow> 0 < moved H q n"
  by (simp add: moved_def)

lemma moved_all: "n \<le> transfer H q n \<Longrightarrow> moved H q n = n"
  by (auto simp: moved_def)

lemma moved_0 [simp]: "moved H q 0 = 0"
  by (simp add: moved_def)

definition connection_read_memory :: "qemu_host \<Rightarrow> u64 \<Rightarrow> u8 list \<Rightarrow> u64 \<Rightarrow> qemu \<Rightarrow> u64 \<times> u8 list" where
  "connection_read_memory H paddr buf len q = (case cpu_map H paddr len False of None \<Rightarrow> (0, buf)
     | Some l \<Rightarrow> (l, map (\<lambda>i. guest q (paddr + of_nat i)) [0..<unat l] @ drop (unat l) buf))"

text \<open>The bytes at an address of the process, if all of them can be read.\<close>

definition proc_bytes :: "qemu_host \<Rightarrow> qemu \<Rightarrow> u64 \<Rightarrow> nat \<Rightarrow> u8 list option" where
  "proc_bytes H q p n = (if list_all (\<lambda>i. proc_mem H q (p + of_nat i) \<noteq> None) [0..<n]
     then Some (map (\<lambda>i. the (proc_mem H q (p + of_nat i))) [0..<n]) else None)"

definition guest_write :: "u64 \<Rightarrow> u8 list \<Rightarrow> (u64 \<Rightarrow> u8) \<Rightarrow> u64 \<Rightarrow> u8" where
  "guest_write paddr bs m a = (if unat (a - paddr) < length bs then bs ! unat (a - paddr) else m a)"

text \<open>The copy reads from \<open>buf\<close>, an address of the process; \<open>None\<close> is a fault.\<close>

definition connection_write_memory :: "qemu_host \<Rightarrow> u64 \<Rightarrow> u64 \<Rightarrow> u64 \<Rightarrow> qemu \<Rightarrow> (u64 \<times> qemu) option" where
  "connection_write_memory H paddr buf len q = (case cpu_map H paddr len True of None \<Rightarrow> Some (0, q)
     | Some l \<Rightarrow> (case proc_bytes H q buf (unat l) of None \<Rightarrow> None
         | Some bs \<Rightarrow> Some (l, q\<lparr>guest := guest_write paddr bs (guest q)\<rparr>)))"

definition send :: "qemu_host \<Rightarrow> u8 list \<Rightarrow> qemu \<Rightarrow> qemu" where
  "send H bs q = q\<lparr>outbox := outbox q @ take (moved H q (length bs)) bs\<rparr>"

definition send_success_ack :: "qemu_host \<Rightarrow> qemu \<Rightarrow> qemu" where "send_success_ack H = send H [1]"

definition send_fail_ack :: "qemu_host \<Rightarrow> qemu \<Rightarrow> qemu" where "send_fail_ack H = send H [0]"

subsection \<open>The requests\<close>

text \<open>\<open>nbytes\<close> is an \<open>int\<close>; it is compared with the 64-bit length.\<close>

definition as_int :: "u64 \<Rightarrow> cint" where "as_int x = ucast x"

definition serve_read :: "qemu_host \<Rightarrow> u64 \<Rightarrow> u64 \<Rightarrow> qemu \<Rightarrow> qemu" where
  "serve_read H address len q = (if len + 1 = 0 \<or> \<not> can_alloc H (len + 1) then q\<lparr>qfault := True\<rparr>
     else let (r, buf) = connection_read_memory H address (map (found_byte H) [0..<unat (len + 1)]) len q;
              nbytes = as_int r
       in if scast nbytes \<noteq> len then send H (take 1 (buf[unat len := 0])) q
          else if nbytes = 0x7FFFFFFF then q\<lparr>qfault := True\<rparr>
          else send H (take (unat (scast (nbytes + 1) :: u64)) (buf[unat len := 1])) q)"

text \<open>
  The data of a write is read to the address of the pointer \<open>write_buf\<close>, not to what it points to: up to eight bytes
  replace the low bytes of the pointer, more of them run over the stack. The copy then takes its bytes from where the
  pointer now points, the answer is sent, and \<open>free\<close> gets the pointer, which is undefined unless it is still what
  \<open>malloc\<close> gave. \<open>None\<close> says that the thread waits for the data.
\<close>

definition write_buf :: "qemu_host \<Rightarrow> u64 \<Rightarrow> u64" where
  "write_buf H len = (if can_alloc H len then malloc_at H len else 0)"

definition overwritten :: "u64 \<Rightarrow> u8 list \<Rightarrow> u64" where
  "overwritten p bs = le_word (overlay (word_bytes p) bs)"

definition serve_write :: "qemu_host \<Rightarrow> u64 \<Rightarrow> u64 \<Rightarrow> qemu \<Rightarrow> qemu option" where
  "serve_write H address len q = (if len \<noteq> 0 \<and> inbox q = [] then None
     else Some (let
       k = moved H q (min (unat len) (length (inbox q)));
       data = take k (inbox q);
       q = q\<lparr>inbox := drop k (inbox q)\<rparr>;
       p = write_buf H len
     in if 8 < k then q\<lparr>qfault := True\<rparr>
       else let p' = overwritten p data in
         (case (if k \<noteq> unat len then Some (send_fail_ack H q)
            else (case connection_write_memory H address p' len q of None \<Rightarrow> None
              | Some (r, q) \<Rightarrow> if scast (as_int r) = len then Some (send_success_ack H q) else Some (send_fail_ack H q))) of
           None \<Rightarrow> q\<lparr>qfault := True\<rparr>
         | Some q \<Rightarrow> if p' \<noteq> p then q\<lparr>qfault := True\<rparr> else q)))"

text \<open>
  One turn of the loop: \<open>None\<close> where the thread waits for bytes or has ended. A request of which the first \<open>read\<close>
  gives a part only is dropped, and the next one is looked for in what follows.
\<close>

definition handler_step :: "qemu_host \<Rightarrow> qemu \<Rightarrow> qemu option" where
  "handler_step H q = (if quit q \<or> qfault q \<or> inbox q = [] then None
     else let k = moved H q (min 24 (length (inbox q))); req = take k (inbox q); q = q\<lparr>inbox := drop k (inbox q)\<rparr>;
              ty = req ! 0; address = le_word (take 8 (drop 8 req)); len = le_word (take 8 (drop 16 req))
       in if length req \<noteq> 24 then Some q
          else if ty = 0 then Some (q\<lparr>quit := True\<rparr>)
          else if ty = 1 then Some (serve_read H address len q)
          else if ty = 2 then serve_write H address len q
          else Some (send H [0] q))"

lemma inbox_send [simp]: "inbox (send H bs q) = inbox q"
  by (simp add: send_def)

lemma inbox_serve_read [simp]: "inbox (serve_read H a n q) = inbox q"
  by (simp add: serve_read_def Let_def split: prod.split)

lemma inbox_serve_write: "serve_write H a n q = Some q' \<Longrightarrow> length (inbox q') \<le> length (inbox q)"
  by (auto simp: serve_write_def connection_write_memory_def send_success_ack_def send_fail_ack_def Let_def
      split: if_splits option.splits)

lemma handler_step_inbox: "handler_step H q = Some q' \<Longrightarrow> length (inbox q') < length (inbox q)"
proof -
  let ?k = "moved H q (min 24 (length (inbox q)))"
  assume st: "handler_step H q = Some q'"
  then have "inbox q \<noteq> []" by (auto simp: handler_step_def)
  then have "length (drop ?k (inbox q)) < length (inbox q)" by (simp add: moved_pos)
  moreover have "length (inbox q') \<le> length (drop ?k (inbox q))"
    using st inbox_serve_write [of H _ _ "q\<lparr>inbox := drop ?k (inbox q)\<rparr>" q']
    by (auto simp: handler_step_def Let_def split: if_splits)
  ultimately show ?thesis by simp
qed

text \<open>The loop, up to where it waits or ends.\<close>

function connection_handler :: "qemu_host \<Rightarrow> qemu \<Rightarrow> qemu" where
  "connection_handler H q = (case handler_step H q of None \<Rightarrow> q | Some q \<Rightarrow> connection_handler H q)"
  by pat_completeness auto

termination
  by (relation "measure (\<lambda>(H, q). length (inbox q))") (auto dest: handler_step_inbox)

declare connection_handler.simps [simp del]

subsection \<open>The driver with its server\<close>

text \<open>
  The socket functions of the host when the server is at the other end: what is written arrives, as far as the call
  moves it, and a read gives some of what the server has sent once it has done what it can. No byte comes where the server
  will send none; this stands for the end of the connection, and for a call that waits without end.
\<close>

definition served :: "qemu_host \<Rightarrow> qemu libvirt \<Rightarrow> qemu libvirt" where
  "served H L = L\<lparr>
     sock_write := (\<lambda>fd bs q. let k = moved H q (length bs) in (of_nat k, q\<lparr>inbox := inbox q @ take k bs\<rparr>)),
     sock_read := (\<lambda>fd n q. let q = connection_handler H q; k = moved H q (min n (length (outbox q)))
       in (Some (take k (outbox q)), q\<lparr>outbox := drop k (outbox q)\<rparr>))\<rparr>"

definition idle :: "qemu \<Rightarrow> bool" where
  "idle q \<longleftrightarrow> inbox q = [] \<and> outbox q = [] \<and> \<not> quit q \<and> \<not> qfault q"

lemma length_request: "length (request L ty a n) = 24"
  by (simp add: request_def)

lemma handler_waits: "inbox q = [] \<or> quit q \<or> qfault q \<Longrightarrow> connection_handler H q = q"
  by (auto simp: connection_handler.simps [of H q] handler_step_def)

text \<open>A request that has arrived as a whole.\<close>

lemma request_members:
  "request L ty a n ! 0 = ty" "le_word (take 8 (drop 8 (request L ty a n))) = a" "le_word (take 8 (drop 16 (request L ty a n))) = n"
proof -
  have "drop 8 (request L ty a n) = word_bytes a @ word_bytes n" "drop 16 (request L ty a n) = word_bytes n"
    by (simp_all add: request_def)
  then show "le_word (take 8 (drop 8 (request L ty a n))) = a" "le_word (take 8 (drop 16 (request L ty a n))) = n"
    by simp_all
  show "request L ty a n ! 0 = ty" by (simp add: request_def)
qed

lemma handler_step_request:
  assumes "\<not> quit q" "\<not> qfault q" "inbox q = request L ty a n @ r" "moved H q 24 = 24"
  shows "handler_step H q = (let q = q\<lparr>inbox := r\<rparr> in if ty = 0 then Some (q\<lparr>quit := True\<rparr>)
     else if ty = 1 then Some (serve_read H a n q) else if ty = 2 then serve_write H a n q else Some (send H [0] q))"
proof -
  have d: "take 24 (request L ty a n @ r) = request L ty a n" "drop 24 (request L ty a n @ r) = r"
    "min 24 (length (request L ty a n @ r)) = 24"
    by (simp_all add: length_request)
  have "request L t a n \<noteq> []" for t using length_request [of L t a n] by auto
  then show ?thesis
    unfolding handler_step_def assms(3) d Let_def assms(4) request_members length_request using assms(1,2) by simp
qed

text \<open>Fewer bytes than a request has are read and dropped.\<close>

lemma handler_drops:
  assumes "\<not> quit q" "\<not> qfault q" "length (inbox q) < 24"
  shows "connection_handler H q = q\<lparr>inbox := []\<rparr>"
  using assms
proof (induction H q rule: connection_handler.induct)
  case (1 H q)
  show ?case
  proof (cases "inbox q = []")
    case True
    then have "q\<lparr>inbox := []\<rparr> = q" by simp
    then show ?thesis using True by (simp add: handler_waits)
  next
    case False
    let ?k = "moved H q (min 24 (length (inbox q)))"
    have "length (take ?k (inbox q)) < 24" using 1(4) by simp
    then have st: "handler_step H q = Some (q\<lparr>inbox := drop ?k (inbox q)\<rparr>)"
      using False 1(2,3) by (simp add: handler_step_def Let_def)
    then show ?thesis using 1 by (simp add: connection_handler.simps [of H q])
  qed
qed

lemma scast_as_int:
  assumes "unat l < 2 ^ 31"
  shows "scast (as_int l) = l"
proof -
  have "as_int l = of_nat (unat l)" by (simp add: as_int_def of_nat_unat)
  then show ?thesis using scast_of_nat_small [OF assms] by simp
qed

lemma serve_read_result:
  assumes "unat len < 2 ^ 31 - 1" "can_alloc H (len + 1)" "\<forall>l. cpu_map H a len False = Some l \<longrightarrow> l \<le> len" "0 < len"
  shows "serve_read H a len q = (if cpu_map H a len False = Some len
    then send H (map (\<lambda>i. guest q (a + of_nat i)) [0..<unat len] @ [1]) q
    else send H (take 1 ((snd (connection_read_memory H a (map (found_byte H) [0..<unat (len + 1)]) len q))[unat len := 0])) q)"
proof -
  have u: "unat (len + 1) = Suc (unat len)"
    using assms(1) by (simp add: unat_plus_if_size word_size)
  then have ne: "len + 1 \<noteq> 0" by (metis nat.distinct(1) unat_0)
  obtain r buf where rb: "connection_read_memory H a (map (found_byte H) [0..<unat (len + 1)]) len q = (r, buf)" by fastforce
  have r: "r \<le> len" "r = len \<longleftrightarrow> cpu_map H a len False = Some len" 
    using rb assms(3,4) by (auto simp: connection_read_memory_def split: option.splits)
  have sc: "scast (as_int r) = r"
    using r(1) assms(1) by (intro scast_as_int) (simp add: word_le_nat_alt)
  show ?thesis
  proof (cases "r = len")
    case True
    have l: "as_int len = of_nat (unat len)" by (simp add: as_int_def of_nat_unat)
    have "unat (as_int len) = unat len" using assms(1) by (simp add: as_int_def unsigned_ucast_eq take_bit_nat_eq_self)
    then have "as_int len \<noteq> 0x7FFFFFFF" using assms(1) by auto
    moreover have "unat (scast (as_int len + 1) :: u64) = Suc (unat len)"
    proof -
      have e: "as_int len + 1 = of_nat (Suc (unat len))" by (simp add: l)
      have "unat (of_nat (Suc (unat len)) :: u64) = Suc (unat len)"
        using assms(1) by (simp add: unat_of_nat del: of_nat_Suc of_nat_unat)
      moreover have "(scast (of_nat (Suc (unat len)) :: cint) :: u64) = of_nat (Suc (unat len))"
        by (rule scast_of_nat_small) (use assms(1) in simp)
      ultimately show ?thesis by (simp only: e)
    qed
    moreover have "buf = map (\<lambda>i. guest q (a + of_nat i)) [0..<unat len] @ [found_byte H (unat len)]"
      using rb True r(2) u by (auto simp: connection_read_memory_def)
    ultimately show ?thesis using True r(2) ne assms(2) sc by (simp add: serve_read_def rb list_update_append)
  next
    case False
    then show ?thesis using r(2) ne assms(2) sc by (simp add: serve_read_def rb)
  qed
qed


text \<open>A read request that has arrived as a whole is served, unless the server's \<open>read\<close> gives a part of it only.\<close>

lemma handler_read_request:
  assumes "idle q"
  shows "connection_handler H (q\<lparr>inbox := request L 1 a n\<rparr>) =
    (if moved H (q\<lparr>inbox := request L 1 a n\<rparr>) 24 = 24 then serve_read H a n q else q)"
proof -
  let ?q = "q\<lparr>inbox := request L 1 a n\<rparr>" and ?k = "moved H (q\<lparr>inbox := request L 1 a n\<rparr>) 24"
  have q: "q\<lparr>inbox := []\<rparr> = q" "\<not> quit q" "\<not> qfault q" "inbox q = []" using assms by (simp_all add: idle_def)
  show ?thesis
  proof (cases "?k = 24")
    case True
    then have "handler_step H ?q = Some (serve_read H a n q)"
      using handler_step_request [of ?q L 1 a n "[]" H] q by simp
    then show ?thesis using True q by (simp add: connection_handler.simps [of H ?q] handler_waits)
  next
    case False
    then have k: "?k < 24" "0 < ?k" using moved_le [of H ?q 24] moved_pos [of 24 H ?q] by simp_all
    then have "handler_step H ?q = Some (q\<lparr>inbox := drop ?k (request L 1 a n)\<rparr>)"
      using q length_request [of L 1 a n] by (auto simp: handler_step_def Let_def)
    moreover have "connection_handler H (q\<lparr>inbox := drop ?k (request L 1 a n)\<rparr>) = q"
      using k q by (subst handler_drops) (simp_all add: length_request)
    ultimately show ?thesis using False by (simp add: connection_handler.simps [of H ?q])
  qed
qed

lemma sock_served:
  "sock_write (served H L) fd bs q = (of_nat (moved H q (length bs)), q\<lparr>inbox := inbox q @ take (moved H q (length bs)) bs\<rparr>)"
  "sock_read (served H L) fd n q = (let q = connection_handler H q; k = moved H q (min n (length (outbox q)))
     in (Some (take k (outbox q)), q\<lparr>outbox := drop k (outbox q)\<rparr>))"
  by (simp_all add: served_def Let_def)

lemma request_written: "(of_nat (moved H q 24) :: cint) = 24 \<longleftrightarrow> moved H q 24 = 24"
proof -
  have "moved H q 24 \<le> 24" by (rule moved_le)
  then have "unat (of_nat (moved H q 24) :: cint) = moved H q 24" by (simp add: unat_of_nat)
  then show ?thesis by (auto simp: word_unat_eq_iff)
qed

text \<open>C16: The driver's read request and the server in the patched QEMU, joined by an idle socket that may cut every
  transfer short, for a length of 1 to \<open>2 ^ 31 - 2\<close> bytes for which the server gets its buffer. Whatever is cut, memory that the driver returns is exactly the guest's, all of the range was mapped, and client
  and server are left as they were, with nothing in the socket. If no transfer is short, the request succeeds where the
  whole range can be mapped and fails, again with nothing left in the socket, where it can not. But the driver calls
  \<open>read\<close> once: if this call alone brings less than the answer, the request fails although all is mapped and the rest of
  the answer stays in the socket, where the next request finds it.\<close>

theorem kvm_get_memory_patch_served:
  assumes "idle (world s)" "0 < len" "unat len < 2 ^ 31 - 1" "can_alloc H (ucast len + 1)"
    and "\<forall>l. cpu_map H paddr (ucast len) False = Some l \<longrightarrow> l \<le> ucast len"
    and "run_state (kvm_get_memory_patch (served H L) paddr len) s = (r, t)"
  defines "whole \<equiv> cpu_map H paddr (ucast len) False = Some (ucast len)"
    and "content \<equiv> map (\<lambda>i. guest (world s) (paddr + of_nat i)) [0..<unat len]"
  shows "(\<forall>bs. r = Some bs \<longrightarrow> whole \<and> bs = content \<and> t = s)
    \<and> ((\<forall>q n. n \<le> transfer H q n) \<longrightarrow> r = (if whole then Some content else None) \<and> t = s)
    \<and> (whole \<and> (\<forall>q n. outbox q = [] \<longrightarrow> n \<le> transfer H q n) \<and> (\<forall>q. outbox q \<noteq> [] \<longrightarrow> transfer H q (unat len + 1) \<le> unat len)
       \<longrightarrow> r = None \<and> outbox (world t) \<noteq> [])"
proof -
  let ?n = "ucast len :: u64" and ?w = "world s"
  let ?req = "request (served H L) 1 paddr ?n"
  define q1 where "q1 = connection_handler H (?w\<lparr>inbox := ?req\<rparr>)"
  define k where "k = moved H q1 (min (Suc (unat len)) (length (outbox q1)))"
  have n: "unat ?n = unat len" "0 < ?n" "1 \<le> unat len" using assms(2) by (simp_all add: unat_ucast_u32 word_less_nat_alt)
  have n1: "unat (len + 1) = Suc (unat len)" using assms(3) by (simp add: unat_plus_if_size word_size)
  have idle: "inbox ?w = []" "outbox ?w = []" "?w\<lparr>outbox := []\<rparr> = ?w" "s\<lparr>world := ?w\<rparr> = s"
    using assms(1) by (simp_all add: idle_def)
  have run: "(r, t) = (if moved H ?w 24 = 24
      then (let ans = take k (outbox q1) in if length ans \<noteq> Suc (unat len) then None
          else if ans ! unat len \<noteq> 0 then Some (take (unat len) ans) else None, s\<lparr>world := q1\<lparr>outbox := drop k (outbox q1)\<rparr>\<rparr>)
      else (None, s\<lparr>world := ?w\<lparr>inbox := take (moved H ?w 24) ?req\<rparr>\<rparr>))"
  proof (cases "moved H ?w 24 = 24")
    case True
    then have "sock_write (served H L) fd ?req ?w = (24, ?w\<lparr>inbox := ?req\<rparr>)" for fd
      using idle(1) by (simp add: sock_served length_request)
    moreover have "sock_read (served H L) fd (Suc (unat len)) (?w\<lparr>inbox := ?req\<rparr>)
        = (Some (take k (outbox q1)), q1\<lparr>outbox := drop k (outbox q1)\<rparr>)" for fd
      by (simp add: sock_served q1_def k_def Let_def)
    ultimately show ?thesis
      unfolding assms(6) [symmetric] using n1 True by (simp add: kvm_get_memory_patch_def on_world_def Let_def del: length_take)
  next
    case False
    then show ?thesis
      unfolding assms(6) [symmetric] using idle(1)
      by (simp add: kvm_get_memory_patch_def on_world_def sock_served length_request request_written)
  qed
  define ans where "ans = (if whole then content @ [1]
    else take 1 ((snd (connection_read_memory H paddr (map (found_byte H) [0..<unat (?n + 1)]) ?n ?w))[unat len := 0]))"
  have q1: "q1 = (if moved H (?w\<lparr>inbox := ?req\<rparr>) 24 = 24 then send H ans ?w else ?w)"
    unfolding q1_def handler_read_request [OF assms(1)]
    using serve_read_result [of ?n H paddr ?w, unfolded n(1), OF assms(3-5) n(2)]
    by (simp add: ans_def whole_def content_def)
  have len: "length ans = (if whole then Suc (unat len) else length ans)" "\<not> whole \<Longrightarrow> length ans < Suc (unat len)"
    using n(3) by (auto simp: ans_def content_def)
  show ?thesis
  proof (intro conjI impI allI)
    fix bs
    assume r: "r = Some bs"
    let ?m = "moved H ?w (length ans)"
    from r run have l: "length (take k (outbox q1)) = Suc (unat len)"
      and bs: "bs = take (unat len) (take k (outbox q1))" "t = s\<lparr>world := q1\<lparr>outbox := drop k (outbox q1)\<rparr>\<rparr>"
      by (auto simp: Let_def split: if_splits)
    then have q: "q1 = send H ans ?w" using q1 idle(2) by (auto split: if_splits)
    then have o: "outbox q1 = take ?m ans" using idle(2) by (simp add: send_def)
    then have w: "whole" using l len(2) by (cases whole) auto
    have "take k (outbox q1) = ans" "drop k (outbox q1) = []" using l len(1) w unfolding o by (auto simp: min_def split: if_splits)
    then show "whole" "bs = content" "t = s"
      using w bs q idle by (simp_all add: ans_def content_def send_def)
  next
    assume "\<forall>q n. n \<le> transfer H q n"
    then have m: "moved H q n = n" for q n by (simp add: moved_all)
    then have q: "q1 = send H ans ?w" and o: "outbox q1 = ans" using q1 idle(2) by (simp_all add: send_def)
    have "k = length ans" using len by (cases whole) (auto simp: k_def m o min_def)
    then have "take k (outbox q1) = ans" "drop k (outbox q1) = []" by (simp_all add: o)
    then show "r = (if whole then Some content else None)" "t = s"
      using run len idle q by (auto simp: m Let_def ans_def content_def send_def nth_append split: if_splits)
  next
    assume "whole \<and> (\<forall>q n. outbox q = [] \<longrightarrow> n \<le> transfer H q n) \<and> (\<forall>q. outbox q \<noteq> [] \<longrightarrow> transfer H q (unat len + 1) \<le> unat len)"
    then have w: "whole" and all: "outbox q = [] \<Longrightarrow> moved H q n = n" and short: "outbox q \<noteq> [] \<Longrightarrow> transfer H q (Suc (unat len)) \<le> unat len"
      for q n by (auto simp: moved_all)
    have o: "outbox q1 = ans" using q1 all idle(2) by (simp add: send_def)
    have la: "length ans = Suc (unat len)" using len(1) w by simp
    then have "outbox q1 \<noteq> []" using o by auto
    then have "k \<le> unat len" using short [of q1] n(3) la o by (auto simp: k_def moved_def)
    then show "r = None" "outbox (world t) \<noteq> []"
      using run la all [OF idle(2)] by (auto simp: Let_def o)
  qed
qed

text \<open>A server that moves what it is asked to, and one whose answers come in pieces.\<close>

definition sample_host :: qemu_host where
  "sample_host = \<lparr>cpu_map = (\<lambda>a n w. if a < 0x8000000 then Some (min n (0x8000000 - a)) else None), can_alloc = (\<lambda>n. n < 0x1000000),
     malloc_at = (\<lambda>n. 0x601010), found_byte = (\<lambda>i. 0xCC),
     proc_mem = (\<lambda>q a. if 0x600000 \<le> a \<and> a < 0x700000 then Some (0x99) else None), transfer = (\<lambda>q n. n)\<rparr>"

definition slow_host :: qemu_host where
  "slow_host = sample_host\<lparr>transfer := (\<lambda>q n. if outbox q = [] then n else 2)\<rparr>"

definition sample_client :: "qemu kvm_vmi" where
  "sample_client = \<lparr>kvminst = \<lparr>kvm_conn = True, kvm_dom = Some 7, kvm_id = 7, kvm_name = None, ds_path = Some ''/tmp/vmi1'', socket_fd = 5\<rparr>,
     kvm_page_mode = VMI_PM_IA32E, kvm_hvm = 1, kvm_callback = Some Patch, kvm_age = 1,
     world = \<lparr>guest = (\<lambda>a. ucast a), inbox = [], outbox = [], quit = False, qfault = False\<rparr>, kvm_fault = False\<rparr>"

lemma sample_idle: "idle (world sample_client)"
  by (simp add: sample_client_def idle_def)

lemma kvm_get_memory_patch_served_witness:
  "\<forall>L. run_state (kvm_get_memory_patch (served sample_host L) 0x1002 4) sample_client = (Some [2, 3, 4, 5], sample_client)
    \<and> run_state (kvm_get_memory_patch (served sample_host L) 0x7FFFFFE 4) sample_client = (None, sample_client)
    \<and> fst (run_state (kvm_get_memory_patch (served slow_host L) 0x1002 4) sample_client) = None"
proof (intro allI conjI)
  fix L
  note fast = kvm_get_memory_patch_served [OF sample_idle _ _ _ _ prod.collapse [symmetric], of 4 sample_host _ L, THEN conjunct2, THEN conjunct1]
  note slow = kvm_get_memory_patch_served [OF sample_idle _ _ _ _ prod.collapse [symmetric], of 4 slow_host _ L, THEN conjunct2, THEN conjunct2]
  show "run_state (kvm_get_memory_patch (served sample_host L) 0x1002 4) sample_client = (Some [2, 3, 4, 5], sample_client)"
    using fast [of "0x1002"] by (intro prod_eqI) (simp_all add: sample_host_def sample_client_def upt_rec min_def)
  show "run_state (kvm_get_memory_patch (served sample_host L) 0x7FFFFFE 4) sample_client = (None, sample_client)"
    using fast [of "0x7FFFFFE"] by (intro prod_eqI) (simp_all add: sample_host_def sample_client_def min_def)
  show "fst (run_state (kvm_get_memory_patch (served slow_host L) 0x1002 4) sample_client) = None"
    using slow [of "0x1002"] by (simp add: slow_host_def sample_host_def min_def)
qed



end
