(* ===== verification/Output_Helpers.thy ===== *)
theory Output_Helpers
  imports Address_Spaces C_Format
begin

text \<open>
  \<^verbatim>\<open>pretty_print.c\<close>, the hex dump of memory, as the text it prints, and the timer of \<^verbatim>\<open>performance.c\<close>.
\<close>

unbundle bit_operations_syntax

subsection \<open>The hex dump\<close>

text \<open>The printable characters of the C locale.\<close>

definition c_isprint :: "char \<Rightarrow> bool" where
  "c_isprint c \<longleftrightarrow> (let x = of_char c :: nat in 32 \<le> x \<and> x \<le> 126)"

definition hex_cell :: "u8 list \<Rightarrow> nat \<Rightarrow> string" where
  "hex_cell data index = (if index < length data then fmt_x 2 (unat (data ! index)) @ '' '' else ''   '')"

definition ascii_cell :: "u8 list \<Rightarrow> nat \<Rightarrow> string" where
  "ascii_cell data index = (if index < length data then
     (let c = char_of (unat (data ! index)) in if c_isprint c then [c] else ''.'') else [])"

definition row_text :: "u8 list \<Rightarrow> nat \<Rightarrow> string" where
  "row_text data i = fmt_x 8 (i * 16) @ ''|  '' @ concat (map (\<lambda>j. hex_cell data (i * 16 + j)) [0..<8]) @ '' ''
     @ concat (map (\<lambda>j. hex_cell data (i * 16 + j)) [8..<16]) @ ''  ''
     @ concat (map (\<lambda>j. ascii_cell data (i * 16 + j)) [0..<16])"

definition newline :: char where "newline = CHR 0x0A"

text \<open>The indices are of type \<open>int\<close> in the code: the dump is shorter than 2 GiB.\<close>

definition vmi_print_hex :: "u8 list \<Rightarrow> string" where
  "vmi_print_hex data = concat (map (\<lambda>i. row_text data i @ [newline]) [0..<(length data + 15) div 16])"

text \<open>What could not be read is printed as \<open>malloc\<close> found it, which is the argument \<open>found\<close>.\<close>

definition vmi_print_hex_pa :: "env \<Rightarrow> (nat \<Rightarrow> u8) \<Rightarrow> addr_t \<Rightarrow> u64 \<Rightarrow> string vm" where
  "vmi_print_hex_pa E found paddr len = do {
     bs \<leftarrow> vmi_read_pa E paddr len;
     return (vmi_print_hex (overlay (map found [0..<unat len]) bs)) }"

text \<open>Only the first address is translated.\<close>

definition vmi_print_hex_va :: "env \<Rightarrow> nat \<Rightarrow> (nat \<Rightarrow> u8) \<Rightarrow> addr_t \<Rightarrow> cint \<Rightarrow> u64 \<Rightarrow> string option vm" where
  "vmi_print_hex_va E fuel found vaddr pid len =
     obind (if pid = 0 then do { paddr \<leftarrow> vmi_translate_kv2p E vaddr; return (Some paddr) }
            else vmi_translate_uv2p E fuel vaddr pid) (\<lambda>paddr. do {
       t \<leftarrow> vmi_print_hex_pa E found paddr len;
       return (Some t) })"

definition vmi_print_hex_ksym :: "env \<Rightarrow> nat \<Rightarrow> (nat \<Rightarrow> u8) \<Rightarrow> string \<Rightarrow> u64 \<Rightarrow> string option vm" where
  "vmi_print_hex_ksym E fuel found symbol len = obind (vmi_translate_ksym2v E fuel symbol)
     (\<lambda>vaddr. vmi_print_hex_va E fuel found vaddr 0 len)"

subsection \<open>The timer\<close>

text \<open>\<open>struct timeval\<close>: seconds and microseconds. C's remainder has the sign of the dividend.\<close>

record timeval =
  tv_sec :: int
  tv_usec :: int

definition c_rem :: "int \<Rightarrow> int \<Rightarrow> int" where
  "c_rem a b = sgn a * (\<bar>a\<bar> mod \<bar>b\<bar>)"

definition time_diff :: "timeval \<Rightarrow> timeval \<Rightarrow> int" where
  "time_diff ktv_start ktv_end = (tv_usec ktv_end - tv_usec ktv_start)
     + (c_rem (tv_sec ktv_end) 1000000 - c_rem (tv_sec ktv_start) 1000000) * 1000000"

text \<open>\<open>%ld\<close>, and with a precision.\<close>

definition fmt_ld :: "nat \<Rightarrow> int \<Rightarrow> string" where
  "fmt_ld precision x = (let s = dec_nat (nat \<bar>x\<bar>) in
     (if x < 0 then ''-'' else []) @ replicate (precision - length s) (CHR ''0'') @ s)"

definition print_measurement :: "string \<Rightarrow> timeval \<Rightarrow> timeval \<Rightarrow> string \<times> int" where
  "print_measurement i ktv_start ktv_end = (let diff = time_diff ktv_start ktv_end in
     (i @ '' : '' @ fmt_ld 1 (c_rem (tv_sec ktv_start) 1000000) @ ''.'' @ fmt_ld 6 (tv_usec ktv_start) @ '' : ''
        @ fmt_ld 1 (c_rem (tv_sec ktv_end) 1000000) @ ''.'' @ fmt_ld 6 (tv_usec ktv_end) @ '' : '' @ fmt_ld 1 diff @ [newline], diff))"

text \<open>The two variables of the file, and the clock as an argument.\<close>

record timer =
  startTime :: timeval
  stopTime :: timeval

definition timer_start :: "timeval \<Rightarrow> timer \<Rightarrow> timer" where
  "timer_start now t = t\<lparr>startTime := now\<rparr>"

definition timer_stop :: "timeval \<Rightarrow> string \<Rightarrow> timer \<Rightarrow> string \<times> timer" where
  "timer_stop now i t = (fst (print_measurement i (startTime t) now), t\<lparr>stopTime := now\<rparr>)"

subsection \<open>Reading a dump back\<close>

text \<open>A reader of dumps: the column of a byte in its row, the cells of a row up to the first empty one, and the rows.\<close>

definition cell_col :: "nat \<Rightarrow> nat" where
  "cell_col j = 11 + 3 * j + (if j < 8 then 0 else 1)"

definition read_row :: "string \<Rightarrow> u8 list" where
  "read_row row = map (\<lambda>c. of_nat (digits_acc 16 0 c))
     (takeWhile (\<lambda>c. c \<noteq> ''  '') (map (\<lambda>j. take 2 (drop (cell_col j) row)) [0..<16]))"

function read_dump :: "string \<Rightarrow> u8 list" where
  "read_dump s = (if s = [] then []
     else read_row (takeWhile (\<lambda>c. c \<noteq> newline) s) @ read_dump (tl (dropWhile (\<lambda>c. c \<noteq> newline) s)))"
  by pat_completeness auto

termination
proof (relation "measure length")
  fix s :: string
  assume "s \<noteq> []"
  have "length (dropWhile (\<lambda>c. c \<noteq> newline) s) \<le> length s" by (rule length_dropWhile_le)
  moreover have "0 < length s" using \<open>s \<noteq> []\<close> by simp
  ultimately show "(tl (dropWhile (\<lambda>c. c \<noteq> newline) s), s) \<in> measure length" by (simp del: length_greater_0_conv)
qed simp

declare read_dump.simps [simp del]

lemma drop_past: "length xs = n \<Longrightarrow> drop (n + k) (xs @ ys) = drop k ys"
  by simp

lemma takeWhile_map_upt:
  assumes "\<And>j. j < m \<Longrightarrow> P (f j)" "\<not> P z"
  shows "takeWhile P (map (\<lambda>j. if j < m then f j else z) [0..<n]) = map f [0..<min m n]"
proof (induction n)
  case (Suc n)
  show ?case
  proof (cases "n < m")
    case True
    then have "\<forall>x \<in> set (map (\<lambda>j. if j < m then f j else z) [0..<Suc n]). P x" using assms(1) by auto
    then have "takeWhile P (map (\<lambda>j. if j < m then f j else z) [0..<Suc n]) = map (\<lambda>j. if j < m then f j else z) [0..<Suc n]"
      by (simp only: takeWhile_eq_all_conv)
    also have "\<dots> = map f [0..<Suc n]" using True by (intro map_cong) auto
    finally show ?thesis using True by (simp only: min_absorb2 Suc_leI)
  next
    case False
    with Suc show ?thesis using assms(2) by (simp add: takeWhile_tail min_def)
  qed
qed simp

lemma concat_take_drop: "concat (map (\<lambda>i. take w (drop (i * w) xs)) [0..<k]) = take (k * w) xs"
  by (induction k) (simp_all add: take_add [symmetric] add.commute)

lemma length_hex_cell: "length (hex_cell data i) = 3"
proof -
  have "length (fmt_x 2 (unat (b :: u8))) = 2" for b using unsigned_less [of b] by (intro length_fmt_x) simp_all
  then show ?thesis by (simp add: hex_cell_def)
qed

lemma row_cell:
  assumes "j < 16" "i < 2 ^ 28"
  shows "take 2 (drop (cell_col j) (row_text data i)) = take 2 (hex_cell data (i * 16 + j))"
proof -
  let ?f = "\<lambda>j. hex_cell data (i * 16 + j)"
  let ?h = "fmt_x 8 (i * 16) @ ''|  ''" and ?t = "''  '' @ concat (map (\<lambda>j. ascii_cell data (i * 16 + j)) [0..<16])"
  have h: "length ?h = 11" using length_fmt_x [of "i * 16" 8] assms(2) by simp
  have shift: "concat (map ?f [8..<16]) = concat (map (\<lambda>j. ?f (8 + j)) [0..<8])"
  proof -
    have "[8..<16] = map (\<lambda>j. 8 + j) [0..<8 :: nat]" by code_simp
    then show ?thesis by (simp only: map_map o_def)
  qed
  have row: "row_text data i = ?h @ concat (map ?f [0..<8]) @ '' '' @ concat (map (\<lambda>j. ?f (8 + j)) [0..<8]) @ ?t"
    by (simp only: row_text_def shift append_assoc)
  have len: "length (concat (map ?f [0..<8])) = 24" by (simp add: length_concat length_hex_cell o_def map_replicate_const sum_list_replicate)
  show ?thesis
  proof (cases "j < 8")
    case True
    have "drop (cell_col j) (row_text data i) = drop (3 * j) (concat (map ?f [0..<8]) @ '' '' @ concat (map (\<lambda>j. ?f (8 + j)) [0..<8]) @ ?t)"
      unfolding row cell_col_def using True by (simp only: if_True add_0_right drop_past [OF h])
    then show ?thesis unfolding drop_concat_map [of ?f 3 j 8, OF length_hex_cell True] by (simp add: length_hex_cell)
  next
    case False
    then have k: "j - 8 < 8" "j = 8 + (j - 8)" using assms by simp_all
    have "drop (cell_col j) (row_text data i) = drop (3 * (j - 8)) (concat (map (\<lambda>j. ?f (8 + j)) [0..<8]) @ ?t)"
    proof -
      have "cell_col j = 11 + (24 + (1 + 3 * (j - 8)))" using k by (simp add: cell_col_def)
      then show ?thesis unfolding row by (simp only: drop_past [OF h] drop_past [OF len] drop_past [of "'' ''" 1]) simp
    qed
    then show ?thesis unfolding drop_concat_map [of "\<lambda>j. ?f (8 + j)" 3 "j - 8" 8, OF length_hex_cell k(1)]
      using k(2) by (simp add: length_hex_cell)
  qed
qed

lemma hex_cell_empty: "take 2 (hex_cell data i) \<noteq> ''  '' \<longleftrightarrow> i < length data"
proof -
  have "fmt_x 2 n \<noteq> ''  ''" for n
  proof
    assume f: "fmt_x 2 n = ''  ''"
    then obtain d where "d < 16" "CHR '' '' = hex_char d" using set_fmt_x [of "CHR '' ''" 2 n] by auto
    then show False using digit_val_hex_char [of d] by (simp flip: \<open>CHR '' '' = hex_char d\<close> add: digit_val_def)
  qed
  moreover have "length (fmt_x 2 (unat (b :: u8))) = 2" for b using unsigned_less [of b] by (intro length_fmt_x) simp_all
  ultimately show ?thesis by (simp add: hex_cell_def)
qed

lemma read_row_text:
  assumes "i < 2 ^ 28"
  shows "read_row (row_text data i) = take 16 (drop (i * 16) data)"
proof -
  let ?c = "\<lambda>j. fmt_x 2 (unat (data ! (i * 16 + j)))" and ?m = "length data - i * 16"
  have len: "length (fmt_x 2 (unat (b :: u8))) = 2" for b using unsigned_less [of b] by (intro length_fmt_x) simp_all
  have cells: "map (\<lambda>j. take 2 (drop (cell_col j) (row_text data i))) [0..<16] = map (\<lambda>j. if j < ?m then ?c j else ''  '') [0..<16]"
    by (intro map_cong refl) (auto simp: row_cell [OF _ assms] hex_cell_def len)
  have ne: "?c j \<noteq> ''  ''" if "j < ?m" for j
  proof -
    from that have "i * 16 + j < length data" by simp
    then show ?thesis using hex_cell_empty [of data "i * 16 + j"] by (simp add: hex_cell_def len)
  qed
  have "read_row (row_text data i) = map (\<lambda>c. of_nat (digits_acc 16 0 c)) (map ?c [0..<min ?m 16])"
    unfolding read_row_def cells by (subst takeWhile_map_upt) (use ne in simp_all)
  also have "\<dots> = map (\<lambda>j. data ! (i * 16 + j)) [0..<min ?m 16]" by (simp add: digits_acc_fmt_x)
  also have "\<dots> = take 16 (drop (i * 16) data)" by (auto simp: list_eq_iff_nth_eq)
  finally show ?thesis .
qed

lemma newline_fmt_x: "newline \<notin> set (fmt_x p n)"
proof
  assume "newline \<in> set (fmt_x p n)"
  then obtain d where d: "d < 16" "newline = hex_char d" using set_fmt_x by blast
  have "c_isspace newline" by code_simp
  then show False using hex_char_cases [OF d(1)] unfolding d(2) [symmetric] by blast
qed

lemma newline_cells: "newline \<notin> set (hex_cell data i)" "newline \<notin> set (ascii_cell data i)"
proof -
  have np: "\<not> c_isprint newline" "newline \<noteq> CHR ''.''" "newline \<noteq> CHR '' ''" by code_simp+
  then show "newline \<notin> set (hex_cell data i)" using newline_fmt_x by (simp add: hex_cell_def)
  show "newline \<notin> set (ascii_cell data i)" using np by (auto simp: ascii_cell_def Let_def)
qed

lemma newline_row_text: "newline \<notin> set (row_text data i)"
proof -
  have "newline \<notin> set ''|  ''" "newline \<notin> set ''  ''" "newline \<notin> set '' ''" by code_simp+
  moreover have "newline \<notin> set (concat (map (\<lambda>j. hex_cell data (i * 16 + j)) js))"
    "newline \<notin> set (concat (map (\<lambda>j. ascii_cell data (i * 16 + j)) js))" for js
    using newline_cells by auto
  ultimately show ?thesis using newline_fmt_x unfolding row_text_def set_append by blast
qed

lemma read_dump_rows: "(\<And>s. s \<in> set rows \<Longrightarrow> newline \<notin> set s) \<Longrightarrow> read_dump (concat (map (\<lambda>s. s @ [newline]) rows)) = concat (map read_row rows)"
proof (induction rows)
  case Nil
  then show ?case by (simp add: read_dump.simps)
next
  case (Cons s rows)
  then have "newline \<notin> set s" by simp
  then have "takeWhile (\<lambda>c. c \<noteq> newline) (s @ newline # r) = s" "dropWhile (\<lambda>c. c \<noteq> newline) (s @ newline # r) = newline # r" for r
    by (auto simp: takeWhile_append dropWhile_append)
  then show ?case using Cons by (subst read_dump.simps) simp
qed

text \<open>C30: The hex dump of \<^verbatim>\<open>pretty_print.c\<close> loses nothing: a reader that takes the two digits in every
  column of a row, up to the first empty one, gets back all bytes in their order, whatever the text column shows. This
  holds for every length that the code's \<open>int\<close> indices can count.\<close>

theorem print_hex_round_trip:
  assumes "length data < 2 ^ 31"
  shows "read_dump (vmi_print_hex data) = data"
proof -
  let ?n = "(length data + 15) div 16"
  have "vmi_print_hex data = concat (map (\<lambda>s. s @ [newline]) (map (row_text data) [0..<?n]))"
    by (simp add: vmi_print_hex_def o_def)
  then have "read_dump (vmi_print_hex data) = concat (map read_row (map (row_text data) [0..<?n]))"
    using read_dump_rows [of "map (row_text data) [0..<?n]"] newline_row_text by auto
  also have "\<dots> = concat (map (\<lambda>i. take 16 (drop (i * 16) data)) [0..<?n])"
    using assms by (intro arg_cong [where f = concat]) (auto intro!: read_row_text)
  also have "\<dots> = take (?n * 16) data" by (rule concat_take_drop)
  finally show ?thesis by simp
qed

lemma print_hex_round_trip_witness: "read_dump (vmi_print_hex (map of_nat [0..<37])) = map of_nat [0..<37]"
  by (rule print_hex_round_trip) simp

text \<open>
  The dump of physical memory, read back, gives the bytes that the read of the memory gave, and behind them the
  bytes of \<open>malloc\<close>.
\<close>

lemma run_vmi_print_hex_pa:
  assumes "run_state (vmi_read_pa E paddr len) s = (bs, s')"
  shows "run_state (vmi_print_hex_pa E found paddr len) s = (vmi_print_hex (overlay (map found [0..<unat len]) bs), s')"
  using assms by (simp add: vmi_print_hex_pa_def)

subsection \<open>What the timer measures\<close>

lemma c_rem_nonneg: "0 \<le> a \<Longrightarrow> 0 < b \<Longrightarrow> c_rem a b = a mod b"
  by (cases "a = 0") (simp_all add: c_rem_def)

text \<open>The microseconds between two times, less those of every full million of seconds that ends between them.\<close>

lemma time_diff_wraps:
  assumes "0 \<le> tv_sec a" "0 \<le> tv_sec b"
  shows "time_diff a b = (tv_sec b * 1000000 + tv_usec b) - (tv_sec a * 1000000 + tv_usec a)
    - 1000000000000 * (tv_sec b div 1000000 - tv_sec a div 1000000)"
proof -
  have e: "tv_sec c = 1000000 * (tv_sec c div 1000000) + tv_sec c mod 1000000" for c
    by simp
  have "ub - ua + (rb - ra) * 1000000 = sb * 1000000 + ub - (sa * 1000000 + ua) - 1000000000000 * (qb - qa)"
    if "sa = 1000000 * qa + ra" "sb = 1000000 * qb + rb" for sa sb qa qb ra rb ua ub :: int
    using that by simp
  from this [OF e [of a] e [of b]] show ?thesis using assms by (simp add: time_diff_def c_rem_nonneg)
qed

end
