(* ===== verification/Example_Programs.thy ===== *)
theory Example_Programs
  imports Walk_Tools Output_Helpers
begin

text \<open>
  The programs of \<^verbatim>\<open>examples/\<close>: the lists of processes and of kernel modules, the dump of a symbol's memory, the
  mapping of an address and the dump of physical memory. Each is modelled from its arguments to the text that it
  prints, or the file that it writes; the outer \<open>None\<close> says that a bound was reached.
\<close>

unbundle bit_operations_syntax

definition INIT_FLAGS :: u32 where "INIT_FLAGS = VMI_AUTO OR VMI_INIT_COMPLETE"

definition init_failed :: string where "init_failed = ''Failed to init LibVMI library.'' @ [newline]"

text \<open>\<open>%lx\<close>, and \<open>%d\<close> with a field width.\<close>

definition fmt_lx :: "u64 \<Rightarrow> string" where "fmt_lx w = fmt_x 1 (unat w)"

definition fmt_d :: "nat \<Rightarrow> cint \<Rightarrow> string" where
  "fmt_d w n = (let s = fmt_ld 1 (sint n) in replicate (w - length s) (CHR '' '') @ s)"

subsection \<open>module-list.c\<close>

text \<open>
  What is printed for one module: on Linux the string behind the two links, on Windows the converted Unicode string,
  if there is one.
\<close>

definition module_line :: "env \<Rightarrow> nat \<Rightarrow> (string \<Rightarrow> string \<Rightarrow> (u8 list \<Rightarrow> nat \<Rightarrow> u8 list option) option) \<Rightarrow> addr_t \<Rightarrow>
    string option vm" where
  "module_line E fuel iconv next_module = do {
     os \<leftarrow> gets vmi_get_ostype;
     if os = VMI_OS_LINUX then do {
       pm \<leftarrow> gets vmi_get_page_mode;
       obind (vmi_read_str_va E fuel (next_module + (if pm = VMI_PM_IA32E then 16 else 8)) 0) (\<lambda>modname.
         return (Some (chars_of modname @ [newline]))) }
     else if os = VMI_OS_WINDOWS then do {
       us \<leftarrow> vmi_read_unicode_str_va E fuel (next_module + 0x2c) 0;
       return (Some (case us of None \<Rightarrow> []
         | Some us \<Rightarrow> (case vmi_convert_str_encoding iconv us ''UTF-8'' of
             (VMI_SUCCESS, Some out) \<Rightarrow> chars_of (takeWhile (\<lambda>b. b \<noteq> 0) (us_contents out)) @ [newline]
           | _ \<Rightarrow> []))) }
     else return (Some []) }"

primrec module_loop :: "env \<Rightarrow> nat \<Rightarrow> (string \<Rightarrow> string \<Rightarrow> (u8 list \<Rightarrow> nat \<Rightarrow> u8 list option) option) \<Rightarrow> addr_t \<Rightarrow>
    nat \<Rightarrow> addr_t \<Rightarrow> string option vm" where
  "module_loop E fuel iconv list_head 0 next_module = return None"
| "module_loop E fuel iconv list_head (Suc rounds) next_module = do {
     (_, tmp_next) \<leftarrow> vmi_read_addr_va E fuel next_module 0 0;
     if list_head = tmp_next then return (Some [])
     else obind (module_line E fuel iconv next_module) (\<lambda>line.
       obind (module_loop E fuel iconv list_head rounds tmp_next) (\<lambda>rest. return (Some (line @ rest)))) }"

definition module_head :: "env \<Rightarrow> nat \<Rightarrow> addr_t option vm" where
  "module_head E fuel = do {
     os \<leftarrow> gets vmi_get_ostype;
     if os = VMI_OS_LINUX then
       obind (vmi_read_addr_ksym E fuel ''modules'' (junk E)) (\<lambda>(_, next_module). return (Some next_module))
     else if os = VMI_OS_WINDOWS then
       obind (vmi_read_addr_ksym E fuel ''PsLoadedModuleList'' (junk E)) (\<lambda>(_, next_module). return (Some next_module))
     else return (Some (junk E)) }"

text \<open>The end of a program: the guest runs again, the instance is given up.\<close>

definition finish_program :: "env \<Rightarrow> string \<Rightarrow> string option vm" where
  "finish_program E out = do { _ \<leftarrow> vmi_resume_vm E; _ \<leftarrow> vmi_destroy; return (Some out) }"

definition module_list_main :: "env \<Rightarrow> nat \<Rightarrow> (string \<Rightarrow> string \<Rightarrow> (u8 list \<Rightarrow> nat \<Rightarrow> u8 list option) option) \<Rightarrow> string \<Rightarrow>
    string option vm" where
  "module_list_main E fuel iconv name = obind (vmi_init E fuel INIT_FLAGS (Some name)) (\<lambda>st.
     if st = VMI_FAILURE then finish_program E init_failed
     else do {
       _ \<leftarrow> vmi_pause_vm E;
       obind (module_head E fuel) (\<lambda>list_head.
       obind (module_loop E fuel iconv list_head fuel list_head) (finish_program E)) })"

subsection \<open>process-list.c\<close>

definition process_line :: "addr_t \<Rightarrow> cint \<Rightarrow> u8 list \<Rightarrow> string" where
  "process_line dtb pid procname = ''cr3: '' @ fmt_lx dtb @ '' ['' @ fmt_d 5 pid @ ''] '' @ chars_of procname @ [newline]"

definition process_entry :: "env \<Rightarrow> nat \<Rightarrow> cint \<Rightarrow> u8 list \<Rightarrow> string option vm" where
  "process_entry E fuel pid procname = (if 0 \<le> sint pid
     then obind (vmi_pid_to_dtb E fuel pid) (\<lambda>dtb. return (Some (process_line dtb pid procname)))
     else return (Some []))"

primrec process_loop :: "env \<Rightarrow> nat \<Rightarrow> cint \<Rightarrow> cint \<Rightarrow> cint \<Rightarrow> addr_t \<Rightarrow> nat \<Rightarrow> addr_t \<Rightarrow> cint \<Rightarrow> string option vm" where
  "process_loop E fuel name_offset pid_offset tasks_offset list_head 0 next_process pid = return None"
| "process_loop E fuel name_offset pid_offset tasks_offset list_head (Suc rounds) next_process pid = do {
     (_, tmp_next) \<leftarrow> vmi_read_addr_va E fuel next_process 0 0;
     if list_head = tmp_next then return (Some [])
     else obind (vmi_read_str_va E fuel (next_process + scast name_offset - scast tasks_offset) 0) (\<lambda>procname. do {
       (_, pid) \<leftarrow> vmi_read_32_va E fuel (next_process + scast pid_offset - scast tasks_offset) 0 pid;
       obind (process_entry E fuel pid procname) (\<lambda>line.
       obind (process_loop E fuel name_offset pid_offset tasks_offset list_head rounds tmp_next pid) (\<lambda>rest.
         return (Some (line @ rest)))) }) }"

text \<open>The head of the list, the process number read there, and what is printed for the first process of Windows.\<close>

definition process_head :: "env \<Rightarrow> nat \<Rightarrow> cint \<Rightarrow> cint \<Rightarrow> cint \<Rightarrow> (addr_t \<times> cint \<times> string) option vm" where
  "process_head E fuel tasks_offset name_offset pid_offset = do {
     os \<leftarrow> gets vmi_get_ostype;
     if os = VMI_OS_LINUX then
       obind (vmi_translate_ksym2v E fuel ''init_task'') (\<lambda>init_task_va. do {
         (_, next_process) \<leftarrow> vmi_read_addr_va E fuel (init_task_va + scast tasks_offset) 0 (junk E);
         return (Some (next_process, 0, [])) })
     else if os = VMI_OS_WINDOWS then
       obind (vmi_read_addr_ksym E fuel ''PsInitialSystemProcess'' (junk E)) (\<lambda>(_, list_head). do {
         (_, next_process) \<leftarrow> vmi_read_addr_va E fuel (list_head + scast tasks_offset) 0 (junk E);
         (_, pid) \<leftarrow> vmi_read_32_va E fuel (list_head + scast pid_offset) 0 0;
         (_, pid) \<leftarrow> vmi_read_32_va E fuel (list_head + scast pid_offset) 0 pid;
         obind (vmi_read_str_va E fuel (list_head + scast name_offset) 0) (\<lambda>procname.
           return (Some (next_process, pid, ''['' @ fmt_d 5 pid @ ''] '' @ chars_of procname @ [newline]))) })
     else return (Some (junk E, 0, [])) }"

text \<open>The head line; a name that is a null pointer may not be printed.\<close>

definition process_title :: "env \<Rightarrow> string vm" where
  "process_title E = do {
     name2 \<leftarrow> vmi_get_name E;
     md \<leftarrow> gets vmi_get_access_mode;
     i \<leftarrow> (if md \<noteq> VMI_FILE then vmi_get_vmid E else return 0);
     (case name2 of None \<Rightarrow> raise_fault []
     | Some n \<Rightarrow> return (if md \<noteq> VMI_FILE
         then ''Process listing for VM '' @ n @ '' (id='' @ dec_nat (unat i) @ '')'' @ [newline]
         else ''Process listing for file '' @ n @ [newline])) }"

definition process_list :: "env \<Rightarrow> nat \<Rightarrow> string option vm" where
  "process_list E fuel = obind (walk_offsets E fuel) (\<lambda>offsets. case offsets of
     None \<Rightarrow> finish_program E (''Failed to find win_tasks'' @ [newline])
   | Some (tasks_offset, name_offset, pid_offset) \<Rightarrow> do {
       st \<leftarrow> vmi_pause_vm E;
       if st \<noteq> VMI_SUCCESS then finish_program E (''Failed to pause VM'' @ [newline])
       else do {
         title \<leftarrow> process_title E;
         obind (process_head E fuel tasks_offset name_offset pid_offset) (\<lambda>(list_head, pid, first).
         obind (process_loop E fuel name_offset pid_offset tasks_offset list_head fuel list_head pid) (\<lambda>lines.
           finish_program E (title @ first @ lines))) } })"

definition process_list_main :: "env \<Rightarrow> nat \<Rightarrow> string list \<Rightarrow> string option vm" where
  "process_list_main E fuel argv = (case argv of
     [_, name] \<Rightarrow> obind (vmi_init E fuel INIT_FLAGS (Some name)) (\<lambda>st.
       if st = VMI_FAILURE then finish_program E init_failed else process_list E fuel)
   | prog # _ \<Rightarrow> return (Some (''Usage: '' @ prog @ '' <vmname>'' @ [newline]))
   | [] \<Rightarrow> raise_fault (Some []))"

subsection \<open>map-symbol.c, map-addr.c\<close>

definition EXAMPLE_PAGE_SIZE :: u64 where "EXAMPLE_PAGE_SIZE = push_bit 12 1"

definition close_program :: "string \<Rightarrow> string option vm" where
  "close_program out = do { _ \<leftarrow> vmi_destroy; return (Some out) }"

definition map_symbol_main :: "env \<Rightarrow> nat \<Rightarrow> string \<Rightarrow> string \<Rightarrow> string option vm" where
  "map_symbol_main E fuel name symbol = obind (vmi_init E fuel INIT_FLAGS (Some name)) (\<lambda>st.
     if st = VMI_FAILURE then close_program init_failed
     else obind (vmi_read_ksym E fuel symbol EXAMPLE_PAGE_SIZE) (\<lambda>memory.
       if length memory \<noteq> unat EXAMPLE_PAGE_SIZE then close_program (''failed to get symbol's memory.'' @ [newline])
       else close_program (vmi_print_hex memory)))"

definition map_addr_main :: "env \<Rightarrow> nat \<Rightarrow> string \<Rightarrow> string \<Rightarrow> string \<Rightarrow> string option vm" where
  "map_addr_main E fuel name addr_str pid_str = (let addr = strtoull16 addr_str; pid = atoi pid_str in
     obind (vmi_init E fuel INIT_FLAGS (Some name)) (\<lambda>st.
       if st = VMI_FAILURE then close_program init_failed
       else obind (vmi_translate_uv2p E fuel addr pid) (\<lambda>paddr. do {
         (_, val) \<leftarrow> vmi_read_64_va E fuel addr pid 0;
         close_program (''vaddr: '' @ fmt_lx addr @ '' paddr:'' @ fmt_lx paddr @ [newline]
           @ ''va '' @ fmt_lx addr @ '': '' @ fmt_lx val @ [newline]) })))"

subsection \<open>dump-memory.c\<close>

text \<open>
  The buffer of the read is a null pointer: a page of which a byte can be read is copied through it, and the page
  is counted as not mapped otherwise. \<open>written\<close> says for each address whether the page could be stored in the
  file; what is in the file is a list of pages.
\<close>

definition dump_page :: "env \<Rightarrow> addr_t \<Rightarrow> unit vm" where
  "dump_page E address = do {
     bs \<leftarrow> vmi_read_pa E address EXAMPLE_PAGE_SIZE;
     if bs \<noteq> [] then raise_fault () else return () }"

primrec dump_loop :: "env \<Rightarrow> (addr_t \<Rightarrow> bool) \<Rightarrow> nat \<Rightarrow> addr_t \<Rightarrow> u8 list list option vm" where
  "dump_loop E written 0 address = return None"
| "dump_loop E written (Suc rounds) address = do {
     sz \<leftarrow> gets vmi_get_memsize;
     if \<not> address < sz then return (Some [])
     else do {
       dump_page E address;
       if \<not> written address then return (Some [])
       else obind (dump_loop E written rounds (address + EXAMPLE_PAGE_SIZE)) (\<lambda>rest.
         return (Some (replicate (unat EXAMPLE_PAGE_SIZE) 0 # rest))) } }"

text \<open>The file has a name of at most 50 characters; \<open>fopen\<close> says which names can be opened.\<close>

definition dump_memory_main :: "env \<Rightarrow> nat \<Rightarrow> (string \<Rightarrow> bool) \<Rightarrow> (addr_t \<Rightarrow> bool) \<Rightarrow> string \<Rightarrow> string \<Rightarrow>
    (string \<times> u8 list) option option vm" where
  "dump_memory_main E fuel fopen written name file = (let filename = strndup file 50 in
     obind (vmi_init E fuel INIT_FLAGS (Some name)) (\<lambda>st.
       if st = VMI_FAILURE \<or> \<not> fopen filename then do { _ \<leftarrow> vmi_destroy; return (Some None) }
       else obind (dump_loop E written fuel 0) (\<lambda>pages. do {
         _ \<leftarrow> vmi_destroy;
         return (Some (Some (filename, concat pages))) })))"

subsection \<open>What the lists hold\<close>

definition kernel_string :: "env \<Rightarrow> vmi \<Rightarrow> addr_t \<Rightarrow> nat \<Rightarrow> u8 list" where
  "kernel_string E s va n = virt_bytes E s (kpgd s) va n"

definition string_at :: "env \<Rightarrow> vmi \<Rightarrow> addr_t \<Rightarrow> nat \<Rightarrow> bool" where
  "string_at E s va n \<longleftrightarrow> ends_at (\<lambda>i. virt_byte E s (kpgd s) (va + of_nat i)) n"

lemma kernel_view:
  assumes "core t = core s"
  shows "kernel_string E t = kernel_string E s" "string_at E t = string_at E s" "node_next E t = node_next E s"
    "os_type t = os_type s" "page_mode t = page_mode s"
proof -
  have k: "kpgd t = kpgd s" "os_type t = os_type s" "page_mode t = page_mode s" using assms by (metis core_fields(8,10,15))+
  have v: "virt_byte E t = virt_byte E s" "virt_bytes E t = virt_bytes E s" "node_next E t = node_next E s"
    using assms by (metis virt_core(1), metis virt_core(2), metis node_core(1))
  show "kernel_string E t = kernel_string E s" "string_at E t = string_at E s" "node_next E t = node_next E s"
    "os_type t = os_type s" "page_mode t = page_mode s"
    using k v by (simp_all add: kernel_string_def string_at_def fun_eq_iff)
qed

lemma run_kernel_string:
  assumes "view E D c s" "string_at E s va n" "n + 1 < fuel"
  obtains t where "run_state (vmi_read_str_va E fuel va 0) s = (Some (kernel_string E s va n), t)" "view E D c t" "core t = core s"
  using kern.read_str_va_finds [OF assms(1) assms(2) [unfolded string_at_def] assms(3)] that
  by (auto simp: vmi_read_str_va_def vmi_translate_def [abs_def] kernel_string_def)

lemma run_next:
  assumes "view E D c s"
  obtains t st where "run_state (vmi_read_addr_va E fuel a 0 0) s = ((st, node_next E s a), t)" "view E D c t" "core t = core s"
proof -
  obtain r t where r: "run_state (vmi_read_addr_kva E a 0) s = (r, t)" by fastforce
  with reads_run [OF kern.reads_read_addr_va assms r] that [of "fst r" t] show ?thesis
    by (simp add: vmi_reads_kernel node_next_def)
qed

text \<open>The place of a module's name in the structure, and what is printed for it.\<close>

definition module_text :: "env \<Rightarrow> vmi \<Rightarrow> (addr_t \<Rightarrow> nat) \<Rightarrow> addr_t \<Rightarrow> string" where
  "module_text E s len a = chars_of (kernel_string E s (a + (if page_mode s = VMI_PM_IA32E then 16 else 8)) (len a)) @ [newline]"

definition module_at :: "env \<Rightarrow> vmi \<Rightarrow> (addr_t \<Rightarrow> nat) \<Rightarrow> addr_t \<Rightarrow> bool" where
  "module_at E s len a = string_at E s (a + (if page_mode s = VMI_PM_IA32E then 16 else 8)) (len a)"

lemma run_module_line:
  assumes "view E D c s" "os_type s = VMI_OS_LINUX" "module_at E s len a" "len a + 1 < fuel"
  obtains t where "run_state (module_line E fuel iconv a) s = (Some (module_text E s len a), t)" "view E D c t" "core t = core s"
proof -
  from run_kernel_string [OF assms(1) assms(3) [unfolded module_at_def] assms(4)] obtain t where
    "run_state (vmi_read_str_va E fuel (a + (if page_mode s = VMI_PM_IA32E then 16 else 8)) 0) s
      = (Some (kernel_string E s (a + (if page_mode s = VMI_PM_IA32E then 16 else 8)) (len a)), t)" "view E D c t" "core t = core s" .
  with assms(2) that show ?thesis
    by (simp add: module_line_def run_obind vmi_get_ostype_def vmi_get_page_mode_def module_text_def)
qed

lemma module_loop_names:
  assumes "view E D c s" "os_type s = VMI_OS_LINUX" and "linked (node_next E s) cur (cur # as) head" "head \<notin> set as"
    and "\<forall>a \<in> set (butlast (cur # as)). module_at E s len a \<and> len a + 1 < fuel" and "length as < rounds"
  shows "\<exists>t. run_state (module_loop E fuel iconv head rounds cur) s
      = (Some (concat (map (module_text E s len) (butlast (cur # as)))), t) \<and> view E D c t \<and> core t = core s"
  using assms
proof (induction as arbitrary: cur rounds s)
  case Nil
  then obtain n where n: "rounds = Suc n" by (cases rounds) auto
  from run_next [OF Nil.prems(1), of fuel cur] obtain t st where
    t: "run_state (vmi_read_addr_va E fuel cur 0 0) s = ((st, node_next E s cur), t)" "view E D c t" "core t = core s" .
  then show ?case using Nil.prems(3) by (simp add: n)
next
  case (Cons a as)
  then obtain n where n: "rounds = Suc n" by (cases rounds) auto
  from run_next [OF Cons.prems(1), of fuel cur] obtain t st where
    t: "run_state (vmi_read_addr_va E fuel cur 0 0) s = ((st, node_next E s cur), t)" "view E D c t" "core t = core s" .
  have nx: "node_next E s cur = a" "head \<noteq> a" using Cons.prems(3,4) by auto
  have eq: "module_at E w len = module_at E s len" "module_text E w len = module_text E s len" if "core w = core s" for w
    by (simp_all add: module_at_def module_text_def fun_eq_iff kernel_view [OF that])
  have "os_type t = VMI_OS_LINUX" "module_at E t len cur" "len cur + 1 < fuel"
    using Cons.prems(2,5) kernel_view(4) [OF t(3)] eq(1) [OF t(3)] by simp_all
  from run_module_line [OF t(2) this] obtain u where
    u: "run_state (module_line E fuel iconv cur) t = (Some (module_text E s len cur), u)" "view E D c u" "core u = core s"
    unfolding eq(2) [OF t(3)] t(3) .
  have "\<exists>v. run_state (module_loop E fuel iconv head n a) u
      = (Some (concat (map (module_text E u len) (butlast (a # as)))), v) \<and> view E D c v \<and> core v = core u"
    by (rule Cons.IH [OF u(2)]) (use Cons.prems n kernel_view [OF u(3)] eq(1) [OF u(3)] in auto)
  then obtain v where v: "run_state (module_loop E fuel iconv head n a) u = (Some (concat (map (module_text E s len) (butlast (a # as)))), v)"
    "view E D c v" "core v = core s" unfolding eq(2) [OF u(3)] u(3) by blast
  show ?case using t(1) u(1) v nx by (simp add: n run_obind)
qed
text \<open>The same steps under the invariant of the process cache.\<close>

lemma pids_run:
  assumes "pids_sound E D fuel s" "reads (pids_sound E D fuel) core m f" "f (core s) = x"
  obtains t where "run_state m s = (x, t)" "pids_sound E D fuel t" "core t = core s"
proof -
  obtain r t where r: "run_state m s = (r, t)" by fastforce
  from reads_run [OF assms(2,1) r] assms(3) r that show ?thesis by simp
qed

lemma pids_string:
  assumes "pids_sound E D fuel s" "string_at E s va n" "n + 1 < fuel"
  obtains t where "run_state (vmi_read_str_va E fuel va 0) s = (Some (kernel_string E s va n), t)"
    "pids_sound E D fuel t" "core t = core s"
proof -
  from run_kernel_string [OF pids_soundD(1) [OF assms(1)] assms(2,3)] obtain t where
    t: "run_state (vmi_read_str_va E fuel va 0) s = (Some (kernel_string E s va n), t)" "view E D (names s) t" "core t = core s" .
  have "pid_lookup t = pid_lookup s" using viewD(7) [OF t(2)] by (simp add: names_def)
  then have "pids_sound E D fuel t" using pids_sound_cong [OF assms(1) t(2,3)] pids_soundD(2) [OF assms(1)] by simp
  with t that show ?thesis by blast
qed

definition process_text :: "env \<Rightarrow> vmi \<Rightarrow> cint \<Rightarrow> cint \<Rightarrow> (addr_t \<Rightarrow> nat) \<Rightarrow> (addr_t \<Rightarrow> cint) \<Rightarrow> (addr_t \<Rightarrow> addr_t) \<Rightarrow> addr_t \<Rightarrow> string" where
  "process_text E s name_offset tasks_offset len f dtb a = (if 0 \<le> sint (f a)
     then process_line (dtb a) (f a) (kernel_string E s (a + scast name_offset - scast tasks_offset) (len a)) else [])"

lemma virt_core_addr: "virt_addr E (core s) (kpgd (core s)) a v = virt_addr E s (kpgd s) a v"
  by simp

lemma process_loop_lines:
  assumes "pids_sound E D fuel s" and "linked (node_next E s) cur (cur # as) head" "head \<notin> set as"
    and "pids_are E s po to (cur # as) f" and "\<forall>a \<in> set (cur # as). os_dtb E s fuel (f a) = Some (dtb a)"
    and "\<forall>a \<in> set (butlast (cur # as)). string_at E s (a + scast no - scast to) (len a) \<and> len a + 1 < fuel"
    and "length as < rounds"
  shows "\<exists>t. run_state (process_loop E fuel no po to head rounds cur pid) s
      = (Some (concat (map (process_text E s no to len f dtb) (butlast (cur # as)))), t) \<and> pids_sound E D fuel t \<and> core t = core s"
  using assms
proof (induction as arbitrary: cur rounds s pid)
  case Nil
  then obtain n where n: "rounds = Suc n" by (cases rounds) auto
  from pids_run [OF Nil.prems(1) reads_pids_sound [OF kern.reads_read_addr_va] virt_core_addr, of cur 0] obtain t where
    t: "run_state (vmi_read_addr_va E fuel cur 0 0) s = (virt_addr E s (kpgd s) cur 0, t)" "pids_sound E D fuel t" "core t = core s"
    unfolding vmi_reads_kernel .
  moreover have "snd (virt_addr E s (kpgd s) cur 0) = head" using Nil.prems(2) by (simp add: node_next_def)
  ultimately show ?case by (simp add: n case_prod_beta)
next
  case (Cons a as)
  then obtain n where n: "rounds = Suc n" by (cases rounds) auto
  from pids_run [OF Cons.prems(1) reads_pids_sound [OF kern.reads_read_addr_va] virt_core_addr, of cur 0] obtain t where
    t: "run_state (vmi_read_addr_va E fuel cur 0 0) s = (virt_addr E s (kpgd s) cur 0, t)" "pids_sound E D fuel t" "core t = core s"
    unfolding vmi_reads_kernel .
  have nx: "snd (virt_addr E s (kpgd s) cur 0) = a" "head \<noteq> a" using Cons.prems(2,3) by (auto simp: node_next_def)
  have "string_at E t (cur + scast no - scast to) (len cur)" "len cur + 1 < fuel"
    using Cons.prems(6) kernel_view(2) [OF t(3)] by simp_all
  from pids_string [OF t(2) this] obtain u where
    u: "run_state (vmi_read_str_va E fuel (cur + scast no - scast to) 0) t = (Some (kernel_string E s (cur + scast no - scast to) (len cur)), u)"
      "pids_sound E D fuel u" "core u = core s"
    unfolding kernel_view(1) [OF t(3)] t(3) .
  have "node_pid E (core u) po to cur pid = (VMI_SUCCESS, f cur)"
    using Cons.prems(4) unfolding u(3) by (simp add: pids_are_def)
  from pids_run [OF u(2) reads_pids_sound [OF kern.reads_read_width_va(3)] this [unfolded node_pid_def]] obtain v where
    v: "run_state (vmi_read_32_va E fuel (cur + scast po - scast to) 0 pid) u = ((VMI_SUCCESS, f cur), v)"
      "pids_sound E D fuel v" "core v = core s"
    unfolding vmi_reads_kernel u(3) .
  have od: "os_dtb E (core v) fuel (f cur) = Some (dtb cur)" using Cons.prems(5) unfolding v(3) by simp
  obtain w where w: "run_state (process_entry E fuel (f cur) (kernel_string E s (cur + scast no - scast to) (len cur))) v
      = (Some (process_text E s no to len f dtb cur), w)" "pids_sound E D fuel w" "core w = core s"
  proof (cases "0 \<le> sint (f cur)")
    case True
    from pids_run [OF v(2) reads_pids_to_dtb od] obtain w where
      "run_state (vmi_pid_to_dtb E fuel (f cur)) v = (Some (dtb cur), w)" "pids_sound E D fuel w" "core w = core s"
      unfolding v(3) .
    with True that show ?thesis by (simp add: run_obind process_text_def process_entry_def)
  next
    case False
    with that v(2,3) show ?thesis by (simp add: process_text_def process_entry_def)
  qed
  have eq: "process_text E w no to len f dtb = process_text E s no to len f dtb" "string_at E w = string_at E s"
      "node_next E w = node_next E s" "pids_are E w = pids_are E s" "os_dtb E w = os_dtb E s"
  proof -
    have "node_pid E w = node_pid E s" "os_dtb E w = os_dtb E s" using w(3) by (metis node_core(2), metis os_dtb_core ext)
    then show "process_text E w no to len f dtb = process_text E s no to len f dtb" "string_at E w = string_at E s"
      "node_next E w = node_next E s" "pids_are E w = pids_are E s" "os_dtb E w = os_dtb E s"
      using kernel_view [OF w(3)] by (simp_all add: process_text_def pids_are_def fun_eq_iff)
  qed
  have "\<exists>x. run_state (process_loop E fuel no po to head n a (f cur)) w
      = (Some (concat (map (process_text E w no to len f dtb) (butlast (a # as)))), x) \<and> pids_sound E D fuel x \<and> core x = core w"
    by (rule Cons.IH [OF w(2)], unfold eq) (use Cons.prems n in \<open>auto simp: pids_are_def\<close>)
  then obtain x where x: "run_state (process_loop E fuel no po to head n a (f cur)) w
      = (Some (concat (map (process_text E s no to len f dtb) (butlast (a # as)))), x)" "pids_sound E D fuel x" "core x = core s"
    unfolding eq w(3) by blast
  show ?case using t(1) u(1) v(1) w(1) x nx by (simp add: n run_obind case_prod_beta)
qed

subsection \<open>Properties\<close>

text \<open>C26: On a 32-bit Linux guest (legacy or PAE paging), whose kernel's page tables map no page at or above 4 GiB, and
  with a translation cache that agrees with them (\<open>view\<close>), \<^verbatim>\<open>module-list.c\<close> prints the name of every module of the
  circular list, one in a line and in the order of the list, and leaves out the node before the head, which is the list's
  anchor: any bound above the length of the list is enough for its loop to end, and it changes nothing but the library's
  caches. The branch for 64-bit guests, with the name 16 bytes into the node, is not covered.\<close>

theorem module_list_prints:
  assumes "view E D c s" "os_type s = VMI_OS_LINUX" and "linked (node_next E s) head (head # as) head" "head \<notin> set as"
    and "\<forall>a \<in> set (butlast (head # as)). module_at E s len a \<and> len a + 1 < fuel" and "length as < rounds"
    and "run_state (module_loop E fuel iconv head rounds head) s = (r, t)"
  shows "r = Some (concat (map (module_text E s len) (butlast (head # as)))) \<and> view E D c t \<and> core t = core s"
  using module_loop_names [OF assms(1-6), of iconv] assms(7) by auto

definition module_memory :: "addr_t \<Rightarrow> u8" where
  "module_memory = task_memory(0x401008 := 0x66, 0x401009 := 0x73, 0x402008 := 0x78)"

definition module_guest :: vmi where
  "module_guest = flat_guest module_memory 0 (linux_os zeroed_vmi) (windows_os zeroed_vmi) VMI_OS_LINUX"

lemma module_guest_nodes:
  "node_next xen_env module_guest 0x401000 = 0x402000" "node_next xen_env module_guest 0x402000 = 0x403000"
  "node_next xen_env module_guest 0x403000 = 0x401000"
  by (simp_all add: node_next_def virt_addr_def module_guest_def flat_guest_word32 module_memory_def task_memory_def le_word_def)

lemma module_guest_virt: "in_flat va \<Longrightarrow> virt_byte xen_env module_guest 0x1000 va = Some (module_memory va)"
  unfolding module_guest_def by (rule flat_guest_virt)

lemma module_guest_names:
  "string_at xen_env module_guest 0x401008 2" "string_at xen_env module_guest 0x402008 1"
  "kernel_string xen_env module_guest 0x401008 2 = [0x66, 0x73]" "kernel_string xen_env module_guest 0x402008 1 = [0x78]"
proof -
  have k: "kpgd module_guest = 0x1000" by (simp add: module_guest_def)
  have b: "virt_byte xen_env module_guest 0x1000 0x401008 = Some 0x66" "virt_byte xen_env module_guest 0x1000 0x401009 = Some 0x73"
    "virt_byte xen_env module_guest 0x1000 0x40100A = Some 0" "virt_byte xen_env module_guest 0x1000 0x402008 = Some 0x78"
    "virt_byte xen_env module_guest 0x1000 0x402009 = Some 0"
    by (subst module_guest_virt; simp add: in_flat_def module_memory_def task_memory_def)+
  have "\<forall>i < 2. \<exists>x. virt_byte xen_env module_guest 0x1000 (0x401008 + of_nat i) = Some x \<and> x \<noteq> 0"
    using b by (auto dest: less_2_cases)
  then show "string_at xen_env module_guest 0x401008 2" "string_at xen_env module_guest 0x402008 1"
    using b by (simp_all add: string_at_def ends_at_def k)
  have "prefix_from (\<lambda>i. virt_byte xen_env module_guest 0x1000 (0x401008 + of_nat i)) 0 (Suc (Suc 0)) = [0x66, 0x73]"
    "prefix_from (\<lambda>i. virt_byte xen_env module_guest 0x1000 (0x402008 + of_nat i)) 0 (Suc 0) = [0x78]"
    using b by simp_all
  then show "kernel_string xen_env module_guest 0x401008 2 = [0x66, 0x73]" "kernel_string xen_env module_guest 0x402008 1 = [0x78]"
    by (simp_all add: kernel_string_def virt_bytes_def k numeral_2_eq_2)
qed

lemma module_list_prints_witness:
  "fst (run_state (module_loop xen_env 4 (\<lambda>_ _. None) 0x401000 3 0x401000) module_guest) = Some (''fs'' @ [newline] @ ''x'' @ [newline])"
proof -
  let ?len = "\<lambda>a. if a = 0x401000 then 2 else 1 :: nat"
  have v: "view xen_env {0x1000} (Map.empty, Map.empty) module_guest" unfolding module_guest_def by (rule flat_guest_view)
  have m: "os_type module_guest = VMI_OS_LINUX" "page_mode module_guest = VMI_PM_LEGACY" by (simp_all add: module_guest_def)
  have "chars_of [0x66, 0x73] = ''fs''" "chars_of [0x78] = ''x''" by (simp_all add: chars_of_def char_of_def bit_0)
  then show ?thesis
    using module_list_prints [OF v m(1) _ _ _ _ surjective_pairing, of "0x401000" "[0x402000, 0x403000]" ?len 4 3 "\<lambda>_ _. None"]
    by (simp add: module_guest_nodes module_at_def module_text_def m module_guest_names del: One_nat_def)
qed
text \<open>C27: In a guest with 32-bit paging (legacy or PAE) whose kernel's page tables map no page at or above 4 GiB, and with a
  translation cache that agrees with them (\<open>view\<close>) (\<open>pids_sound\<close>: and the process cache holds no directory but
  the right one), \<^verbatim>\<open>process-list.c\<close> prints one line for each process of a circular process list, in the
  order of the list, with the page directory that the operating system's structures give for its number, its number and
  its name; it leaves out processes with a negative number and the node before the head. Any bound above the length of
  the list is enough, and nothing is changed but the library's caches. IA-32e paging is not covered.\<close>

theorem process_list_prints:
  assumes "pids_sound E D fuel s" and "linked (node_next E s) head (head # as) head" "head \<notin> set as"
    and "pids_are E s po to (head # as) f" and "\<forall>a \<in> set (head # as). os_dtb E s fuel (f a) = Some (dtb a)"
    and "\<forall>a \<in> set (butlast (head # as)). string_at E s (a + scast no - scast to) (len a) \<and> len a + 1 < fuel"
    and "length as < rounds" and "run_state (process_loop E fuel no po to head rounds head pid) s = (r, t)"
  shows "r = Some (concat (map (process_text E s no to len f dtb) (butlast (head # as)))) \<and> pids_sound E D fuel t \<and> core t = core s"
  using process_loop_lines [OF assms(1-7), of pid] assms(8) by auto

lemma process_list_prints_witness:
  "fst (run_state (process_loop xen_env 4 4 8 0 0x401000 3 0x401000 0) process_guest)
    = Some (''cr3: 0 [    1] '' @ [newline] @ ''cr3: 1000 [    2] '' @ [newline])"
proof -
  let ?f = "\<lambda>a. ucast (task_memory (a + 8)) :: cint" and ?dtb = "\<lambda>a. if a = 0x402000 then 0x1000 else 0 :: addr_t"
  have k: "kpgd process_guest = 0x1000" by simp
  have "virt_byte xen_env process_guest 0x1000 0x401004 = Some 0" "virt_byte xen_env process_guest 0x1000 0x402004 = Some 0"
    unfolding process_guest_def by (subst flat_guest_virt; simp add: in_flat_def process_guest_memory_def task_memory_def)+
  then have st: "string_at xen_env process_guest 0x401004 0" "string_at xen_env process_guest 0x402004 0"
    "kernel_string xen_env process_guest a 0 = []" for a
    by (simp_all add: string_at_def ends_at_def kernel_string_def virt_bytes_def k)
  have four: "replicate 4 c = [c, c, c, c]" for c :: char by (simp add: numeral_eq_Suc)
  have line: "process_line 0 1 [] = ''cr3: 0 [    1] '' @ [newline]" "process_line 0x1000 2 [] = ''cr3: 1000 [    2] '' @ [newline]"
    by (simp_all add: process_line_def fmt_lx_def fmt_d_def fmt_ld_def fmt_x_def hex_nat.simps hex_char_def dec_nat.simps digit_char_def chars_of_def
      Let_def char_of_def bit_0 four)
  show ?thesis
    using process_list_prints [OF process_guest_sound _ _ _ _ _ _ surjective_pairing, of "0x401000" "[0x402000, 0x403000]" 8 0 ?f ?dtb 4 "\<lambda>_. 0" 3 0]
    by (simp add: process_guest_nodes process_guest_dtbs pids_are_def task_memory_def st process_text_def line)
qed

text \<open>
  The read of \<^verbatim>\<open>dump-memory.c\<close> goes through a null pointer: the program crashes at the first page of which a byte
  can be read.
\<close>

lemma dump_page_faults:
  assumes "vm_ok E s"
  shows "fault (snd (run_state (dump_page E a) s)) \<longleftrightarrow> phys_byte E s a \<noteq> None \<or> fault (snd (run_state (vmi_read_pa E a EXAMPLE_PAGE_SIZE) s))"
proof -
  obtain bs t where r: "run_state (vmi_read_pa E a EXAMPLE_PAGE_SIZE) s = (bs, t)" by fastforce
  have z: "unat EXAMPLE_PAGE_SIZE = 4096" by (simp add: EXAMPLE_PAGE_SIZE_def push_bit_eq_mult)
  have "bs = phys_bytes E s a 4096"
    using reads_run [OF phys.reads_vmi_read_pa assms r] z by simp
  moreover have "prefix_from g 0 4096 \<noteq> [] \<longleftrightarrow> g 0 \<noteq> None" for g
    using prefix_from.simps(2) [of g 0 4095] by (auto split: option.splits)
  ultimately have "phys_byte E s a \<noteq> None \<longleftrightarrow> bs \<noteq> []" by (simp add: phys_bytes_def)
  then show ?thesis by (simp add: dump_page_def r raise_fault_def)
qed

end
