(* ===== verification/Spec2Isabelle.thy ===== *)
theory Spec2Isabelle
  imports Swap_Tools Config_File Kvm_Reads Qemu_Access Example_Programs
begin

text \<open>
  A model of LibVMI 0.8 (\<^verbatim>\<open>src/libvmi-0.8/libvmi\<close>), a C library that reads and writes the memory of a guest
  from outside, and of the programs beside it that watch a guest swap (\<^verbatim>\<open>src/*.c\<close>, \<^verbatim>\<open>src/swap_diff\<close>,
  \<^verbatim>\<open>src/SCHEDULE_SWAP\<close>).

  \<^bold>\<open>How the program works.\<close> \<^verbatim>\<open>vmi_init\<close> (\<^verbatim>\<open>core.c\<close>) opens a driver for a Xen domain or for a file with an
  image of memory, reads the configuration, finds out the paging mode and lets the Linux or Windows part find
  the kernel's page directory and its process list. A read goes down through these layers: a symbol to an
  address (\<^verbatim>\<open>os/\<close>, symbol cache), an address of a process to a physical one (\<^verbatim>\<open>memory.c\<close>: process number
  to page directory, page-table walk, address cache), a physical address to a page (page cache) and a page
  to the driver's memory callback.

  \<^bold>\<open>How it is modelled.\<close> The library's state is the record \<open>vmi\<close>: the instance structure of \<^verbatim>\<open>private.h\<close>, the
  static variables of the drivers, the contents of the guest's memory, and the ghost flag \<open>fault\<close>, which a
  step sets where the C code has undefined behaviour (an access out of bounds or through a null or wild
  pointer). A stateful function is a value of \<open>vm\<close>, the library's state monad over \<open>vmi\<close>. Integers have the
  width of their C type. What the code obtains from elsewhere is the record \<open>env\<close>: what the hypervisor, the
  store of domain names, the host's files, the memory for \<open>malloc\<close> and an uninitialised variable (\<open>junk\<close>)
  give; the hypervisor that the tools call is an argument of its own. Where a flag for undefined behaviour (\<open>fault\<close>,
  \<open>d_bad\<close>, \<open>qfault\<close>) is set the model goes on with some result, of which nothing is claimed. The union of the two
  systems' offsets in \<^verbatim>\<open>private.h\<close> is two records; what an accessor finds in the other system's offsets is in
  \<open>Accessors\<close>.

  \<^bold>\<open>Limits of the properties about virtual memory.\<close> The walks are proved for all three paging modes. What lies
  above the translation cache (kernel and process memory, symbols, task and process lists, the export table and the
  programs that print them) is proved for guests with 32-bit paging, legacy or PAE, whose page tables map no page at
  or above 4 GiB, and with a translation cache that agrees with the tables: the predicates \<open>xlat_ok\<close>, \<open>narrow\<close> and
  \<open>view\<close> of \<open>Kernel_Space\<close>. These are limits of the code, whose cache compares and keeps 32 bits of an address:
  \<open>vmi_pagetable_lookup_aliases\<close> and \<open>v2p_cache_aliases\<close> show what happens outside of them. That the cache agrees holds
  for an empty one and is kept by every read. Each property says so where it depends on it.

  \<^item> \<open>Vmi_Prelude\<close>: C types, the state monad, little-endian bytes; the contract \<open>reads\<close>, by which a
    stateful operation computes a pure function of the state and keeps an invariant, and \<open>keeps\<close>, by which it
    leaves a component of the state alone, with their composition rules.
  \<^item> \<open>Vmi_Instance\<close>: \<^verbatim>\<open>libvmi.h\<close>, \<^verbatim>\<open>private.h\<close>, \<^verbatim>\<open>convenience.c\<close>, \<open>vmi\<close> and \<open>env\<close>; \<open>core\<close> is the state
    without its caches. \<open>C_Strings\<close>, \<open>C_Structs\<close>: the functions of the C library and packed structures.
  \<^item> \<open>Page_Cache\<close>: \<^verbatim>\<open>driver/memory_cache.c\<close>. It is transparent, and bounded if no entry is refreshed.
  \<^item> \<open>Drivers\<close>, \<open>Interface\<close>: \<^verbatim>\<open>driver/file.c\<close>, \<^verbatim>\<open>driver/xen.c\<close>, the stubs of \<^verbatim>\<open>driver/kvm.c\<close> and the table of
    \<^verbatim>\<open>driver/interface.c\<close>.
  \<^item> \<open>Phys_Access\<close>: the \<open>_pa\<close> functions of \<^verbatim>\<open>read.c\<close> and \<^verbatim>\<open>write.c\<close>. The locales \<open>page_source\<close> (what is asked
    of page reads) and \<open>translator\<close> (what is asked of an address translation) carry the copy loop; the
    former is interpreted on the driver's page read here, and again on views of it below.
  \<^item> \<open>Addr_Cache\<close>: \<^verbatim>\<open>cache.c\<close>, as instances of the locales \<open>lossy_cache\<close> and \<open>exact_cache\<close>. The symbol
    cache has the contents of the caller's string as its key, where the code keeps the pointer.
  \<^item> \<open>Page_Walk\<close>: the walks of \<^verbatim>\<open>memory.c\<close> for the three paging modes. The one for IA-32e is equal to a descent of
    the radix tree with 0 for an unreadable entry; the other two are compared with \<open>legacy_walk\<close> and \<open>pae_walk\<close>, which
    walk over the entries that can be read, and the limits of the code (no PSE-36, 32-bit table addresses, 36-bit
    pages) are hypotheses.
  \<^item> \<open>Kernel_Space\<close>, \<open>Address_Spaces\<close>: the cached lookup, and the \<open>_va\<close> and \<open>_ksym\<close> functions of \<^verbatim>\<open>read.c\<close> and
    \<^verbatim>\<open>write.c\<close>; locale \<open>va_source\<close>, interpreted on kernel addresses, page directories and processes.
  \<^item> \<open>Boyer_Moore\<close>: \<^verbatim>\<open>strmatch.c\<close>; the search returns the first match.
  \<^item> \<open>Sample_Guest\<close>: guests for the witnesses of the parts above the page tables.
  \<^item> \<open>Linux_Os\<close>: \<^verbatim>\<open>os/linux/symbols.c\<close>, \<^verbatim>\<open>os/linux/memory.c\<close>. \<open>Pe_Parse\<close>, \<open>Kpcr\<close>, \<open>Windows_Proc\<close>:
    \<^verbatim>\<open>peparse.c\<close>, \<^verbatim>\<open>kpcr.c\<close>, and \<^verbatim>\<open>process.c\<close> and \<^verbatim>\<open>memory.c\<close> of \<^verbatim>\<open>os/windows\<close>; locale \<open>block_scan\<close> is the
    search of memory in blocks that the last two share.
  \<^item> \<open>Read_Settings\<close>: what no read changes, the paging mode among it. \<open>Os_Init\<close>: \<^verbatim>\<open>core.c\<close> of \<^verbatim>\<open>os/linux\<close> and
    \<^verbatim>\<open>os/windows\<close>. \<open>Core_Init\<close>: \<^verbatim>\<open>core.c\<close>. \<open>Accessors\<close>: \<^verbatim>\<open>accessors.c\<close>.
  \<^item> \<open>Config_Parser\<close>: the scanner \<^verbatim>\<open>config/lexicon.l\<close> (longest match, first rule) and the grammar
    \<^verbatim>\<open>config/grammar.y\<close> with its actions; \<open>Config_Syntax\<close>: which texts they accept; \<open>Config_File\<close>: what a block
    does to the instance.
  \<^item> \<open>Walk_Tools\<close>: \<^verbatim>\<open>all_walk_page.c\<close>, \<^verbatim>\<open>walk_page.c\<close>, \<^verbatim>\<open>10_walk_page.c\<close>, \<^verbatim>\<open>tmp.c\<close>. \<open>Swap_Tools\<close>: both programs
    \<^verbatim>\<open>swap_calculate.c\<close>.
  \<^item> \<open>C_Format\<close>: hexadecimal output of \<open>printf\<close>, and \<open>strcasestr\<close> and \<open>strtol\<close>, which find and read it.
    \<open>Kvm_Driver\<close>: the part of \<^verbatim>\<open>driver/kvm.c\<close> for KVM, by itself and on a record \<open>kvm_vmi\<close> of its own, since
    this configuration has the stubs in the dispatch table; libvirt, the shell, the socket and \<open>malloc\<close> are the
    record \<open>libvirt\<close>. \<open>Kvm_Reads\<close>: what it reads from the monitor's answers. \<open>Qemu_Access\<close>: the server that
    \<^verbatim>\<open>tools/qemu-kvm-patch\<close> puts into QEMU, and the driver's requests answered by it over a socket on which every
    \<open>read\<close> and \<open>write\<close> may move fewer bytes than it is asked to (\<open>transfer\<close>).
  \<^item> \<open>Output_Helpers\<close>: \<^verbatim>\<open>pretty_print.c\<close>, \<^verbatim>\<open>performance.c\<close>. \<open>Example_Programs\<close>: the programs of \<^verbatim>\<open>examples/\<close>, from
    their arguments to what they print.

  \<^bold>\<open>Bounds.\<close> A loop that the guest's contents may keep going (strings, process lists, searches, the cached
  resolution of a symbol) takes \<open>fuel\<close>, and its result is \<open>None\<close> where that was reached; properties about
  such loops prove which amount is enough. Where such a loop is run in the middle of a function whose result
  is no option, reaching the bound sets \<open>fault\<close>. The copy loops have the number of bytes as their bound, since a
  round copies at least one. The programs of \<open>Swap_Tools\<close> never end by themselves or end with a report; their
  bound is the number of rounds observed.

  \<^bold>\<open>Not modelled.\<close> Debugging messages and other output of the library and the tools to the terminal, apart
  from the hex dump and the timer; the mean and the deviation of \<^verbatim>\<open>performance.c\<close>, which are in floating point; the tables and
  buffers of the C code that bison and flex make of the parser (\<^verbatim>\<open>config/grammar.c\<close>, \<^verbatim>\<open>config/lexicon.c\<close>), and
  so that a scanner goes on in its old buffer after a syntax error; how the server in QEMU sets up its socket
  and thread; the Python binding \<^verbatim>\<open>tools/pyvmi\<close> and the kernel
  module \<^verbatim>\<open>tools/linux-offset-finder\<close>. Memory that is freed is not tracked, and
  \<open>malloc\<close> does not fail in the library, which exits if it does.
\<close>

end
